(* ===== verification/Prelude.thy ===== *)
theory Prelude
  imports Complex_Main "HOL-Library.State_Monad" "HOL-Library.DAList" "HOL-Library.Multiset"
    "HOL-Library.Word"
begin

text \<open>
  Shared vocabulary of the development.

  \<^item> The run-time environment \<open>env\<close>: what the program reads from the Go standard library and
    cannot predict (the wall clock, random bytes, random floats, the iteration order of maps,
    the hardware's out-of-range float conversion). Every reading takes the next value of the
    corresponding stream, so a theorem that holds for all environments holds for every run.
  \<^item> Go maps as association lists with unique keys (\<open>DAList\<close>), iterated in an order that
    the environment chooses (\<open>shuffle\<close>).
  \<^item> Fallible calls as sums, operations with effects as values of the library's state monad,
    and a small calculus of pre- and postconditions for them (\<open>triple\<close>, \<open>keeps\<close>).
\<close>

named_theorems go_simps \<open>characteristic equations of modelled operations\<close>
named_theorems keeps_intros \<open>rules by which an operation keeps an invariant\<close>

section \<open>Operations with effects\<close>

abbreviation ret :: "'a \<Rightarrow> ('s, 'a) state" where
  "ret \<equiv> State_Monad.return"

definition gets :: "('s \<Rightarrow> 'a) \<Rightarrow> ('s, 'a) state" where
  "gets f = State (\<lambda>s. (f s, s))"

definition modify :: "('s \<Rightarrow> 's) \<Rightarrow> ('s, unit) state" where
  "modify f = State (\<lambda>s. ((), f s))"

lemma run_gets [simp]: "run_state (gets f) s = (f s, s)"
  by (simp add: gets_def)

lemma run_modify [simp]: "run_state (modify f) s = ((), f s)"
  by (simp add: modify_def)

text \<open>The value and the state an operation ends with.\<close>

abbreviation res :: "('s, 'a) state \<Rightarrow> 's \<Rightarrow> 'a" where
  "res m s \<equiv> fst (run_state m s)"

abbreviation fin :: "('s, 'a) state \<Rightarrow> 's \<Rightarrow> 's" where
  "fin m s \<equiv> snd (run_state m s)"

definition triple :: "('s \<Rightarrow> bool) \<Rightarrow> ('s, 'a) state \<Rightarrow> ('a \<Rightarrow> 's \<Rightarrow> bool) \<Rightarrow> bool" where
  "triple P m Q \<longleftrightarrow> (\<forall>s. P s \<longrightarrow> Q (res m s) (fin m s))"

definition keeps :: "('s \<Rightarrow> bool) \<Rightarrow> ('s, 'a) state \<Rightarrow> bool" where
  "keeps I m \<longleftrightarrow> triple I m (\<lambda>_. I)"

lemma tripleI: "(\<And>s. P s \<Longrightarrow> Q (res m s) (fin m s)) \<Longrightarrow> triple P m Q"
  by (simp add: triple_def)

lemma tripleD: "triple P m Q \<Longrightarrow> P s \<Longrightarrow> Q (res m s) (fin m s)"
  by (simp add: triple_def)

lemma triple_run: "triple P m Q \<Longrightarrow> P s \<Longrightarrow> run_state m s = (a, s') \<Longrightarrow> Q a s'"
  by (auto simp: triple_def)

lemma triple_bind:
  "triple P m R \<Longrightarrow> (\<And>a. triple (R a) (f a) Q) \<Longrightarrow> triple P (m \<bind> f) Q"
  unfolding triple_def by (auto simp: case_prod_unfold)

lemma triple_weaken:
  "triple P' m Q' \<Longrightarrow> (\<And>s. P s \<Longrightarrow> P' s) \<Longrightarrow> (\<And>a s. Q' a s \<Longrightarrow> Q a s) \<Longrightarrow> triple P m Q"
  by (auto simp: triple_def)

lemma triple_return: "(\<And>s. P s \<Longrightarrow> Q a s) \<Longrightarrow> triple P (ret a) Q"
  by (simp add: triple_def)

lemma triple_if: "(b \<Longrightarrow> triple P m Q) \<Longrightarrow> (\<not> b \<Longrightarrow> triple P n Q) \<Longrightarrow> triple P (if b then m else n) Q"
  by simp

lemma triple_option:
  "triple P m Q \<Longrightarrow> (\<And>x. triple P (f x) Q) \<Longrightarrow> triple P (case y of None \<Rightarrow> m | Some x \<Rightarrow> f x) Q"
  by (simp split: option.split)

lemma triple_sum:
  "(\<And>x. triple P (f x) Q) \<Longrightarrow> (\<And>x. triple P (g x) Q) \<Longrightarrow>
     triple P (case y of Inl x \<Rightarrow> f x | Inr x \<Rightarrow> g x) Q"
  by (simp split: sum.split)

lemma keepsI: "(\<And>s. I s \<Longrightarrow> I (fin m s)) \<Longrightarrow> keeps I m"
  by (simp add: keeps_def triple_def)

lemma keepsD: "keeps I m \<Longrightarrow> I s \<Longrightarrow> I (fin m s)"
  by (simp add: keeps_def triple_def)

lemma keeps_return [keeps_intros]: "keeps I (ret a)"
  by (simp add: keeps_def triple_def)

lemma keeps_gets [keeps_intros]: "keeps I (gets f)"
  by (simp add: keeps_def triple_def)

lemma keeps_modify [keeps_intros]: "(\<And>s. I s \<Longrightarrow> I (f s)) \<Longrightarrow> keeps I (modify f)"
  by (simp add: keeps_def triple_def)

lemma keeps_bind [keeps_intros]: "keeps I m \<Longrightarrow> (\<And>a. keeps I (f a)) \<Longrightarrow> keeps I (m \<bind> f)"
  unfolding keeps_def by (rule triple_bind)

lemma keeps_if [keeps_intros]: "(b \<Longrightarrow> keeps I m) \<Longrightarrow> (\<not> b \<Longrightarrow> keeps I n) \<Longrightarrow> keeps I (if b then m else n)"
  by simp

lemma keeps_option [keeps_intros]:
  "keeps I m \<Longrightarrow> (\<And>x. keeps I (f x)) \<Longrightarrow> keeps I (case y of None \<Rightarrow> m | Some x \<Rightarrow> f x)"
  by (simp split: option.split)

lemma keeps_sum [keeps_intros]:
  "(\<And>x. keeps I (f x)) \<Longrightarrow> (\<And>x. keeps I (g x)) \<Longrightarrow> keeps I (case y of Inl x \<Rightarrow> f x | Inr x \<Rightarrow> g x)"
  by (simp split: sum.split)

lemma keeps_let [keeps_intros]: "(\<And>x. keeps I (f x)) \<Longrightarrow> keeps I (let x = y in f x)"
  by simp

lemma keeps_prod [keeps_intros]: "(\<And>a b. keeps I (f a b)) \<Longrightarrow> keeps I (case y of (a, b) \<Rightarrow> f a b)"
  by (simp split: prod.split)

section \<open>The run-time environment\<close>

text \<open>
  Time is in nanoseconds since Go's zero \<open>time.Time\<close> (1 January of year 1, UTC), so that the
  zero value of the type is 0, and a \<open>time.Duration\<close> is a number of nanoseconds.
  \<open>f64\<close> is a \<open>float64\<close>: an exact rational, an infinity (with its sign) or NaN. Signed zeros are
  one value.
\<close>

type_synonym Time = int
type_synonym Duration = int

datatype f64 = Fin rat | Infinite bool | NaN

record env =
  clock :: "nat \<Rightarrow> Time"
  entropy :: "nat \<Rightarrow> nat \<Rightarrow> 8 word"
  unit_float :: "nat \<Rightarrow> rat"
  range_order :: "nat \<Rightarrow> nat \<Rightarrow> nat"
  out_of_range :: "f64 \<Rightarrow> int"
  math_pow :: "f64 \<Rightarrow> f64 \<Rightarrow> f64"
  tick :: nat

text \<open>
  A concrete environment for the examples: the clock ticks once per reading, every random byte
  is the number of the reading, the random float is a half, maps are iterated in insertion order,
  powers of whole exponents are exact, and an out-of-range conversion gives the minimal integer,
  as on amd64.
\<close>

definition env0 :: env where
  "env0 =
     \<lparr>clock = int, entropy = (\<lambda>n _. of_nat n), unit_float = (\<lambda>_. 1 / 2),
      range_order = (\<lambda>_ i. i), out_of_range = (\<lambda>_. - (2 ^ 63)),
      math_pow = (\<lambda>x y. case (x, y) of (Fin b, Fin n) \<Rightarrow> Fin (b ^ nat \<lfloor>n\<rfloor>) | _ \<Rightarrow> NaN), tick = 0\<rparr>"

text \<open>\<open>time.Now()\<close>, \<open>crypto/rand.Read\<close> of \<open>n\<close> bytes, \<open>math/rand.Float64()\<close>.\<close>

definition time_Now :: "('a env_scheme, Time) state" where
  "time_Now = State (\<lambda>e. (clock e (tick e), e\<lparr>tick := Suc (tick e)\<rparr>))"

definition rand_Read :: "nat \<Rightarrow> ('a env_scheme, 8 word list) state" where
  "rand_Read n = State (\<lambda>e. (map (entropy e (tick e)) [0..<n], e\<lparr>tick := Suc (tick e)\<rparr>))"

definition rand_Float64 :: "('a env_scheme, rat) state" where
  "rand_Float64 = State (\<lambda>e. (unit_float e (tick e), e\<lparr>tick := Suc (tick e)\<rparr>))"

lemma run_time_Now [simp]:
  "run_state time_Now e = (clock e (tick e), e\<lparr>tick := Suc (tick e)\<rparr>)"
  by (simp add: time_Now_def)

lemma run_rand_Read [simp]:
  "run_state (rand_Read n) e = (map (entropy e (tick e)) [0..<n], e\<lparr>tick := Suc (tick e)\<rparr>)"
  by (simp add: rand_Read_def)

lemma run_rand_Float64 [simp]:
  "run_state rand_Float64 e = (unit_float e (tick e), e\<lparr>tick := Suc (tick e)\<rparr>)"
  by (simp add: rand_Float64_def)

text \<open>A clock that never goes back.\<close>

definition clock_mono :: "'a env_scheme \<Rightarrow> bool" where
  "clock_mono e \<longleftrightarrow> (\<forall>i j. i \<le> j \<longrightarrow> clock e i \<le> clock e j)"

section \<open>Go maps\<close>

type_synonym 'v gomap = "(string, 'v) alist"

text \<open>
  An order of iteration: any seed gives a permutation of the entries and every permutation
  comes from a seed, so the seed of the environment stands for Go's unspecified order.
\<close>

definition shuffle :: "(nat \<Rightarrow> nat) \<Rightarrow> 'b list \<Rightarrow> 'b list" where
  "shuffle seed xs = map snd (sort_key (\<lambda>p. seed (fst p)) (List.enumerate 0 xs))"

lemma mset_shuffle [simp]: "mset (shuffle seed xs) = mset xs"
proof -
  have "mset (shuffle seed xs) = mset (map snd (List.enumerate 0 xs))"
    by (simp only: shuffle_def mset_map mset_sort)
  also have "\<dots> = mset xs"
    by (simp only: map_snd_enumerate)
  finally show ?thesis .
qed

lemma set_shuffle [simp]: "set (shuffle seed xs) = set xs"
  by (metis mset_shuffle set_mset_mset)

lemma length_shuffle [simp]: "length (shuffle seed xs) = length xs"
  by (metis mset_shuffle size_mset)

lemma mset_eq_positions:
  "mset ys = mset xs \<Longrightarrow>
     \<exists>f. f ` {..<length xs} = {..<length xs} \<and> (\<forall>i < length xs. xs ! i = ys ! f i)"
proof (induction xs arbitrary: ys)
  case Nil
  then show ?case by simp
next
  case (Cons x xs)
  then have "x \<in> set ys" by (metis list.set_intros(1) set_mset_mset)
  then obtain us vs where ys: "ys = us @ x # vs" by (meson split_list)
  with Cons.prems have "mset (us @ vs) = mset xs" by simp
  from Cons.IH [OF this] obtain f where
    f: "f ` {..<length xs} = {..<length xs}" "\<forall>i < length xs. xs ! i = (us @ vs) ! f i"
    by blast
  have len: "length xs = length us + length vs"
    using \<open>mset (us @ vs) = mset xs\<close> by (metis length_append size_mset)
  let ?g = "\<lambda>j. if j < length us then j else Suc j"
  let ?h = "\<lambda>i. case i of 0 \<Rightarrow> length us | Suc k \<Rightarrow> ?g (f k)"
  have g: "?g ` {..<length xs} = {..<Suc (length xs)} - {length us}"
  proof
    show "?g ` {..<length xs} \<subseteq> {..<Suc (length xs)} - {length us}" by auto
    show "{..<Suc (length xs)} - {length us} \<subseteq> ?g ` {..<length xs}"
    proof
      fix j assume j: "j \<in> {..<Suc (length xs)} - {length us}"
      show "j \<in> ?g ` {..<length xs}"
        by (rule image_eqI [of _ _ "if j < length us then j else j - 1"]) (use j len in auto)
    qed
  qed
  have "{..<Suc (length xs)} = insert 0 (Suc ` {..<length xs})"
    by (rule lessThan_Suc_eq_insert_0)
  then have "?h ` {..<Suc (length xs)} = insert (?h 0) ((\<lambda>k. ?h (Suc k)) ` {..<length xs})"
    by (simp only: image_insert image_image)
  also have "\<dots> = insert (length us) (?g ` f ` {..<length xs})"
    by (simp only: image_image nat.case)
  also have "\<dots> = {..<Suc (length xs)}"
    unfolding f(1) g using len by auto
  finally have "?h ` {..<length (x # xs)} = {..<length (x # xs)}" by simp
  moreover have "\<forall>i < length (x # xs). (x # xs) ! i = ys ! ?h i"
    using f(2) by (auto simp: ys nth_append nth_Cons' split: nat.split)
  ultimately show ?case by blast
qed

lemma shuffle_complete:
  assumes "mset ys = mset xs"
  shows "\<exists>seed. shuffle seed xs = ys"
proof -
  let ?n = "length xs"
  from assms have len: "length ys = ?n" by (metis size_mset)
  obtain f where f: "f ` {..<?n} = {..<?n}" "\<forall>i < ?n. xs ! i = ys ! f i"
    using mset_eq_positions [OF assms] by blast
  have inj: "inj_on f {..<?n}" by (rule eq_card_imp_inj_on) (simp_all add: f(1))
  let ?zs = "map (\<lambda>j. (the_inv_into {..<?n} f j, ys ! j)) [0..<?n]"
  have fg: "f (the_inv_into {..<?n} f j) = j" if "j < ?n" for j
    using f_the_inv_into_f [OF inj, of j] f(1) that by auto
  have enum: "List.enumerate 0 xs = map (\<lambda>i. (i, ys ! f i)) [0..<?n]"
    by (rule nth_equalityI) (use f in \<open>auto simp: nth_enumerate_eq\<close>)
  have "mset (List.enumerate 0 xs) =
      image_mset (\<lambda>j. (the_inv_into {..<?n} f j, ys ! j)) (image_mset f (mset [0..<?n]))"
    unfolding enum mset_map multiset.map_comp
    by (rule image_mset_cong) (simp add: the_inv_into_f_f [OF inj])
  also have "image_mset f (mset [0..<?n]) = mset [0..<?n]"
    using image_mset_mset_set [OF inj] by (simp add: f(1) atLeast0LessThan mset_upt)
  finally have "mset (List.enumerate 0 xs) = mset ?zs" by simp
  moreover have "inj_on (\<lambda>q. f (fst q)) (set (List.enumerate 0 xs))"
    using inj by (auto simp: enum inj_on_def)
  moreover have "map (\<lambda>q. f (fst q)) ?zs = [0..<?n]"
    by (rule nth_equalityI) (simp_all add: fg)
  ultimately have "sort_key (\<lambda>q. f (fst q)) (List.enumerate 0 xs) = ?zs"
    by (intro sort_key_inj_key_eq) simp_all
  then have "shuffle f xs = ys"
    using len map_nth [of ys] by (simp add: shuffle_def comp_def)
  then show ?thesis by blast
qed

definition range_map :: "(string, 'v) alist \<Rightarrow> ('a env_scheme, (string \<times> 'v) list) state" where
  "range_map m = State (\<lambda>e. (shuffle (range_order e (tick e)) (DAList.impl_of m),
                            e\<lparr>tick := Suc (tick e)\<rparr>))"

lemma run_range_map [simp]:
  "run_state (range_map m) e =
     (shuffle (range_order e (tick e)) (DAList.impl_of m), e\<lparr>tick := Suc (tick e)\<rparr>)"
  by (simp add: range_map_def)

definition map_len :: "'v gomap \<Rightarrow> nat" where
  "map_len m = length (DAList.impl_of m)"

lemma in_impl_of_iff [simp]: "(k, v) \<in> set (DAList.impl_of m) \<longleftrightarrow> DAList.lookup m k = Some v"
  by (simp add: DAList.lookup.rep_eq)

lemma in_values_iff [simp]:
  "v \<in> snd ` set (DAList.impl_of m) \<longleftrightarrow> (\<exists>k. DAList.lookup m k = Some v)"
proof
  assume "v \<in> snd ` set (DAList.impl_of m)"
  then obtain k where "(k, v) \<in> set (DAList.impl_of m)" by auto
  then show "\<exists>k. DAList.lookup m k = Some v" by auto
next
  assume "\<exists>k. DAList.lookup m k = Some v"
  then obtain k where "(k, v) \<in> set (DAList.impl_of m)" by auto
  then show "v \<in> snd ` set (DAList.impl_of m)" by (rule image_eqI [rotated]) simp
qed

lemma find_SomeD: "find P xs = Some x \<Longrightarrow> x \<in> set xs \<and> P x"
  by (metis find_Some_iff nth_mem)

lemma list_ex_values:
  "list_ex (\<lambda>(_, v). P v) (shuffle r (DAList.impl_of m)) \<longleftrightarrow> (\<exists>k v. DAList.lookup m k = Some v \<and> P v)"
  by (simp add: list_ex_iff Bex_def split_paired_Ex)

lemma distinct_impl_of [simp]: "distinct (DAList.impl_of m)"
  by (metis DAList.impl_of_distinct distinct_map)

lemma lookup_filter:
  "DAList.lookup (DAList.filter P m) k =
     (case DAList.lookup m k of None \<Rightarrow> None | Some v \<Rightarrow> if P (k, v) then Some v else None)"
proof (cases "DAList.lookup m k")
  case None
  then have "(k, v) \<notin> set (DAList.impl_of (DAList.filter P m))" for v
    by (simp only: DAList.filter.rep_eq) (use None in auto)
  with None show ?thesis by (cases "DAList.lookup (DAList.filter P m) k") auto
next
  case (Some v)
  have "DAList.lookup (DAList.filter P m) k = Some w \<longleftrightarrow> w = v \<and> P (k, v)" for w
    by (subst in_impl_of_iff [symmetric]) (use Some in \<open>auto simp: DAList.filter.rep_eq\<close>)
  with Some show ?thesis
    by (cases "DAList.lookup (DAList.filter P m) k") auto
qed

text \<open>
  A loop that deletes the entries with a property from the map it iterates, and counts them: the
  order of iteration does not matter.
\<close>

lemma foldl_delete:
  "foldl (\<lambda>(m, r) (k, v). if P v then (DAList.delete k m, r + 1) else (m, r)) (m, r) es = (m', r') \<Longrightarrow>
     DAList.lookup m' k = (if \<exists>v. (k, v) \<in> set es \<and> P v then None else DAList.lookup m k) \<and>
     r' = r + int (length (filter (\<lambda>(_, v). P v) es))"
proof (induction es arbitrary: m r)
  case (Cons x es)
  obtain j w where x: "x = (j, w)" by fastforce
  show ?case
  proof (cases "P w")
    case True
    with Cons.IH [of "DAList.delete j m" "r + 1"] Cons.prems show ?thesis by (auto simp: x)
  next
    case False
    with Cons.IH [of m r] Cons.prems show ?thesis by (auto simp: x)
  qed
qed simp

lemma filter_impl_of_length:
  "length (filter Q (DAList.impl_of m)) = card {k. \<exists>v. DAList.lookup m k = Some v \<and> Q (k, v)}"
proof -
  have "{k. \<exists>v. DAList.lookup m k = Some v \<and> Q (k, v)} = set (map fst (filter Q (DAList.impl_of m)))"
    by (auto simp: image_iff)
  also have "card \<dots> = length (map fst (filter Q (DAList.impl_of m)))"
    by (rule distinct_card) (simp add: distinct_map_fst_filter)
  finally show ?thesis by simp
qed

lemma finite_dom_lookup [simp]: "finite (dom (DAList.lookup m))"
  by (simp add: DAList.lookup.rep_eq finite_dom_map_of)

lemma dom_lookup_empty [simp]: "dom (DAList.lookup DAList.empty) = {}"
  by auto

lemma map_len_card: "map_len m = card (dom (DAList.lookup m))"
proof -
  have "card (dom (DAList.lookup m)) = card (fst ` set (DAList.impl_of m))"
    by (simp add: DAList.lookup.rep_eq dom_map_of_conv_image_fst)
  also have "\<dots> = length (map fst (DAList.impl_of m))"
    by (metis DAList.impl_of_distinct distinct_card set_map)
  finally show ?thesis by (simp add: map_len_def)
qed

lemma mset_setD: "x \<in># mset_set A \<Longrightarrow> x \<in> A"
  by (cases "finite A") auto

text \<open>The values of a map as a multiset, and those among them with a property.\<close>

lemma values_mset:
  "mset (map snd (DAList.impl_of m)) =
     image_mset (\<lambda>k. the (DAList.lookup m k)) (mset_set (dom (DAList.lookup m)))"
proof -
  have "the (DAList.lookup m (fst p)) = snd p" if "p \<in> set (DAList.impl_of m)" for p
    using in_impl_of_iff [of "fst p" "snd p" m] that by simp
  then have "map snd (DAList.impl_of m) =
      map (\<lambda>k. the (DAList.lookup m k)) (map fst (DAList.impl_of m))"
    by simp
  also have "mset \<dots> = image_mset (\<lambda>k. the (DAList.lookup m k)) (mset (map fst (DAList.impl_of m)))"
    by (simp only: mset_map)
  also have "mset (map fst (DAList.impl_of m)) = mset_set (set (map fst (DAList.impl_of m)))"
    by (rule mset_set_set [symmetric]) simp
  also have "set (map fst (DAList.impl_of m)) = dom (DAList.lookup m)"
    by (simp add: DAList.lookup.rep_eq dom_map_of_conv_image_fst)
  finally show ?thesis .
qed

lemma filter_values_mset:
  "mset (filter P (map f (map snd (shuffle r (DAList.impl_of m))))) =
     image_mset (\<lambda>k. f (the (DAList.lookup m k)))
       (mset_set {k. \<exists>v. DAList.lookup m k = Some v \<and> P (f v)})"
proof -
  have "{k \<in> dom (DAList.lookup m). P (f (the (DAList.lookup m k)))} =
      {k. \<exists>v. DAList.lookup m k = Some v \<and> P (f v)}"
    by auto
  moreover have "mset (map snd (shuffle r (DAList.impl_of m))) = mset (map snd (DAList.impl_of m))"
    by simp
  ultimately show ?thesis
    by (simp only: mset_filter mset_map [of f] values_mset)
      (simp add: filter_mset_image_mset multiset.map_comp comp_def filter_mset_mset_set)
qed

lemma keeps_env [keeps_intros]:
  assumes "\<And>s. I s \<Longrightarrow> I (s\<lparr>tick := Suc (tick s)\<rparr>)"
  shows "keeps I time_Now" and "keeps I (rand_Read n)" and "keeps I rand_Float64"
    and "keeps I (range_map m)"
  using assms by (simp_all add: keepsI)

end
