(* ===== verification/Processes.thy ===== *)
theory Processes
  imports Prelude
begin

text \<open>
  Goroutines. A process is a program cut into its atomic steps: a step changes the shared state and
  what it answers decides how the process goes on. \<open>call m k\<close> is the step of an operation \<open>m\<close>, which
  runs under the lock of the object it belongs to, followed by \<open>k\<close> of its result. \<open>run_alone\<close> is a
  process that nobody interrupts; \<open>run_schedule\<close> interleaves a list of processes as a schedule says, a
  list of which of them moves next. Three arguments hold for every schedule: \<open>budget\<close> bounds what
  processes pay and the locks they take pay for, \<open>owns\<close> shows that locks are given back, \<open>steps_in\<close> that
  an interleaving is a run of the steps of its processes. Processes end: their types are inductive.
\<close>

section \<open>Processes and their runs\<close>

datatype ('s, 'b) proc = Done 'b | Step "'s \<Rightarrow> 's" "'s \<Rightarrow> ('s, 'b) proc"

definition call :: "('s, 'a) state \<Rightarrow> ('a \<Rightarrow> ('s, 'b) proc) \<Rightarrow> ('s, 'b) proc" where
  "call m k = Step (fin m) (\<lambda>s. k (res m s))"

primrec run_alone :: "('s, 'b) proc \<Rightarrow> ('s, 'b) state" where
  "run_alone (Done b) = ret b"
| "run_alone (Step g f) = State (\<lambda>s. run_state (run_alone (f s)) (g s))"

fun run_schedule :: "nat list \<Rightarrow> ('s, 'b) proc list \<Rightarrow> 's \<Rightarrow> ('s, 'b) proc list \<times> 's" where
  "run_schedule [] ps s = (ps, s)"
| "run_schedule (i # js) ps s =
     (if i < length ps then
        (case ps ! i of
           Done _ \<Rightarrow> run_schedule js ps s
         | Step g f \<Rightarrow> run_schedule js (ps[i := f s]) (g s))
      else run_schedule js ps s)"

lemma run_alone_call [simp]: "run_alone (call m k) = m \<bind> (\<lambda>a. run_alone (k a))"
  by (simp add: call_def State_Monad.bind_def split_def)

text \<open>Alone, a process is a program: the rules that turn one into the other.\<close>

lemma run_alone_if: "run_alone (if b then p else q) = (if b then run_alone p else run_alone q)"
  by simp

lemma run_alone_option:
  "run_alone (case x of None \<Rightarrow> p | Some a \<Rightarrow> f a) =
     (case x of None \<Rightarrow> run_alone p | Some a \<Rightarrow> run_alone (f a))"
  by (simp split: option.split)

lemma run_alone_sum:
  "run_alone (case x of Inl a \<Rightarrow> f a | Inr b \<Rightarrow> g b) =
     (case x of Inl a \<Rightarrow> run_alone (f a) | Inr b \<Rightarrow> run_alone (g b))"
  by (simp split: sum.split)

lemma bind_if: "State_Monad.bind (if b then m else n) f = (if b then State_Monad.bind m f else State_Monad.bind n f)"
  by simp

lemma bind_option:
  "State_Monad.bind (case x of None \<Rightarrow> m | Some a \<Rightarrow> g a) f =
     (case x of None \<Rightarrow> State_Monad.bind m f | Some a \<Rightarrow> State_Monad.bind (g a) f)"
  by (simp split: option.split)

lemma bind_sum:
  "State_Monad.bind (case x of Inl a \<Rightarrow> g a | Inr b \<Rightarrow> h b) f =
     (case x of Inl a \<Rightarrow> State_Monad.bind (g a) f | Inr b \<Rightarrow> State_Monad.bind (h b) f)"
  by (simp split: sum.split)

lemmas alone_simps = run_alone_if run_alone_option run_alone_sum bind_if bind_option bind_sum
  State_Monad.bind_assoc State_Monad.bind_left_identity Let_def

text \<open>One process that is scheduled long enough runs as if alone.\<close>

lemma run_schedule_alone:
  "\<exists>n. run_schedule (replicate n 0) [p] s = ([Done (res (run_alone p) s)], fin (run_alone p) s)"
proof (induction p arbitrary: s)
  case (Done b)
  show ?case by (rule exI [of _ 0]) simp
next
  case (Step g f)
  obtain n where "run_schedule (replicate n 0) [f s] (g s) =
      ([Done (res (run_alone (f s)) (g s))], fin (run_alone (f s)) (g s))"
    using Step [of "f s" "g s"] by blast
  then show ?case by (intro exI [of _ "Suc n"]) simp
qed

section \<open>Budgets\<close>

text \<open>
  \<open>budget I calls locks N p n\<close>: in states with \<open>I\<close>, whatever happens between its steps, the process
  raises the counter \<open>calls\<close> by at most \<open>n\<close>, and by \<open>N\<close> more for each lock it takes on the way, where
  \<open>locks\<close> counts the locks that are taken.
\<close>

primrec budget ::
  "('s \<Rightarrow> bool) \<Rightarrow> ('s \<Rightarrow> nat) \<Rightarrow> ('s \<Rightarrow> nat) \<Rightarrow> nat \<Rightarrow> ('s, 'b) proc \<Rightarrow> nat \<Rightarrow> bool" where
  "budget I calls locks N (Done b) = (\<lambda>n. True)"
| "budget I calls locks N (Step g f) = (\<lambda>n. \<forall>s. I s \<longrightarrow> I (g s) \<and>
     (\<exists>n'. budget I calls locks N (f s) n' \<and>
        calls (g s) + n' + N * locks s \<le> calls s + n + N * locks (g s)))"

lemma budget_mono: "budget I calls locks N p n \<Longrightarrow> n \<le> m \<Longrightarrow> budget I calls locks N p m"
proof (cases p)
  case (Step g f)
  assume p: "budget I calls locks N p n" and "n \<le> m"
  show ?thesis
    unfolding Step budget.simps
  proof (intro allI impI)
    fix s assume "I s"
    with p [unfolded Step budget.simps] obtain n' where "I (g s)" "budget I calls locks N (f s) n'"
      "calls (g s) + n' + N * locks s \<le> calls s + n + N * locks (g s)"
      by blast
    with \<open>n \<le> m\<close> show "I (g s) \<and> (\<exists>n'. budget I calls locks N (f s) n' \<and>
        calls (g s) + n' + N * locks s \<le> calls s + m + N * locks (g s))"
      by (intro conjI exI [of _ n']) (assumption | linarith)+
  qed
qed simp

text \<open>However the processes are interleaved, together they use their budgets and the locks they take.\<close>

lemma schedule_bound:
  assumes "list_all2 (budget I calls locks N) ps ns" "I s" "run_schedule js ps s = (ps', s')"
  shows "I s' \<and> calls s' + N * locks s \<le> calls s + sum_list ns + N * locks s'"
  using assms
proof (induction js ps s arbitrary: ns rule: run_schedule.induct)
  case (2 i js ps s)
  show ?case
  proof (cases "i < length ps \<and> (\<exists>g f. ps ! i = Step g f)")
    case False
    then show ?thesis using 2 by (cases "ps ! i") (auto split: if_splits)
  next
    case True
    then obtain g f where i: "i < length ps" "ps ! i = Step g f" by blast
    have len: "length ns = length ps" using "2.prems"(1) by (simp add: list_all2_lengthD)
    have "budget I calls locks N (Step g f) (ns ! i)"
      using list_all2_nthD [OF "2.prems"(1) i(1)] by (simp add: i(2))
    then obtain n where n: "I (g s)" "budget I calls locks N (f s) n"
      "calls (g s) + n + N * locks s \<le> calls s + ns ! i + N * locks (g s)"
      using "2.prems"(2) by auto
    have "list_all2 (budget I calls locks N) (ps[i := f s]) (ns[i := n])"
      by (rule list_all2_update_cong [OF "2.prems"(1) n(2)])
    moreover have "run_schedule js (ps[i := f s]) (g s) = (ps', s')"
      using "2.prems"(3) i by simp
    ultimately have IH: "I s'"
      "calls s' + N * locks (g s) \<le> calls (g s) + sum_list (ns[i := n]) + N * locks s'"
      using "2.IH"(2) [OF i _ n(1)] by blast+
    have "sum_list (ns[i := n]) + ns ! i = sum_list ns + n"
      using i(1) len member_le_sum_list [of "ns ! i" ns] by (simp add: sum_list_update)
    with IH n(3) show ?thesis by linarith
  qed
qed simp

lemma schedule_bound_free:
  assumes "\<And>p. p \<in> set ps \<Longrightarrow> budget I calls locks N p 0" "I s"
  shows "calls (snd (run_schedule js ps s)) + N * locks s \<le>
    calls s + N * locks (snd (run_schedule js ps s))"
proof -
  have "list_all2 (budget I calls locks N) ps (replicate (length ps) 0)"
    using assms(1) by (simp add: list_all2_conv_all_nth)
  from schedule_bound [OF this assms(2) prod.collapse [symmetric]] show ?thesis
    by (simp add: sum_list_replicate)
qed

section \<open>Owned locks\<close>

text \<open>
  \<open>owns locks p n\<close>: the process holds \<open>n\<close> of the locks that \<open>locks\<close> counts. A step may take or return
  locks, and the process knows which; nobody else touches those it holds. It ends with none.
\<close>

primrec owns :: "('s \<Rightarrow> nat) \<Rightarrow> ('s, 'b) proc \<Rightarrow> nat \<Rightarrow> bool" where
  "owns locks (Done b) = (\<lambda>n. n = 0)"
| "owns locks (Step g f) = (\<lambda>n. \<forall>s. n \<le> locks s \<longrightarrow>
     (\<exists>n'. owns locks (f s) n' \<and> n' + locks s = n + locks (g s)))"

fun finished :: "('s, 'b) proc \<Rightarrow> bool" where
  "finished (Done _) = True"
| "finished (Step _ _) = False"

lemma schedule_owns:
  assumes "list_all2 (owns locks) ps ns" "sum_list ns + u = locks s" "run_schedule js ps s = (ps', s')"
  shows "\<exists>ns'. list_all2 (owns locks) ps' ns' \<and> sum_list ns' + u = locks s'"
  using assms
proof (induction js ps s arbitrary: ns rule: run_schedule.induct)
  case (2 i js ps s)
  show ?case
  proof (cases "i < length ps \<and> (\<exists>g f. ps ! i = Step g f)")
    case False
    then show ?thesis using 2 by (cases "ps ! i") (auto split: if_splits)
  next
    case True
    then obtain g f where i: "i < length ps" "ps ! i = Step g f" by blast
    have len: "length ns = length ps" using "2.prems"(1) by (simp add: list_all2_lengthD)
    have le: "ns ! i \<le> sum_list ns" using i(1) len by (simp add: member_le_sum_list)
    have "owns locks (Step g f) (ns ! i)"
      using list_all2_nthD [OF "2.prems"(1) i(1)] by (simp add: i(2))
    moreover have "ns ! i \<le> locks s" using le "2.prems"(2) by simp
    ultimately obtain n where n: "owns locks (f s) n" "n + locks s = ns ! i + locks (g s)" by auto
    have "list_all2 (owns locks) (ps[i := f s]) (ns[i := n])"
      by (rule list_all2_update_cong [OF "2.prems"(1) n(1)])
    moreover have "run_schedule js (ps[i := f s]) (g s) = (ps', s')"
      using "2.prems"(3) i by simp
    moreover have "sum_list (ns[i := n]) + ns ! i = sum_list ns + n"
      using i(1) len le by (simp add: sum_list_update)
    then have "sum_list (ns[i := n]) + u = locks (g s)"
      using "2.prems"(2) n(2) by linarith
    ultimately show ?thesis using "2.IH"(2) [OF i] by blast
  qed
qed auto

text \<open>Once all processes have ended, the locks are as they were at the start.\<close>

lemma schedule_restores:
  assumes "\<And>p. p \<in> set ps \<Longrightarrow> owns locks p 0"
    and "run_schedule js ps s = (ps', s')" "\<And>p. p \<in> set ps' \<Longrightarrow> finished p"
  shows "locks s' = locks s"
proof -
  have "list_all2 (owns locks) ps (replicate (length ps) 0)"
    using assms(1) by (simp add: list_all2_conv_all_nth)
  from schedule_owns [OF this _ assms(2)] obtain ns where
    ns: "list_all2 (owns locks) ps' ns" "sum_list ns + locks s = locks s'"
    by (auto simp: sum_list_replicate)
  have "n = 0" if n: "n \<in> set ns" for n
  proof -
    obtain i where i: "i < length ns" "n = ns ! i" using n by (auto simp: in_set_conv_nth)
    with ns(1) have "i < length ps'" and o: "owns locks (ps' ! i) n" by (auto simp: list_all2_conv_all_nth)
    with assms(3) have "finished (ps' ! i)" by simp
    with o show ?thesis by (cases "ps' ! i") auto
  qed
  then have "sum_list ns = 0" by (simp add: sum_list_nonneg_eq_0_iff)
  with ns(2) show ?thesis by simp
qed

lemma owns_call:
  assumes "\<And>s. n \<le> locks s \<Longrightarrow> \<exists>n'. owns locks (k (res m s)) n' \<and> n' + locks s = n + locks (fin m s)"
  shows "owns locks (call m k) n"
  using assms by (simp add: call_def)

text \<open>Every run can be completed.\<close>

lemma run_schedule_append:
  "run_schedule (js @ ks) ps s = (case run_schedule js ps s of (ps', s') \<Rightarrow> run_schedule ks ps' s')"
  by (induction js ps s rule: run_schedule.induct) (auto split: proc.split)

lemma run_schedule_one:
  "i < length ps \<Longrightarrow> ps ! i = p \<Longrightarrow> \<exists>n b s'. run_schedule (replicate n i) ps s = (ps[i := Done b], s')"
proof (induction p arbitrary: ps s)
  case (Done b)
  then have "run_schedule (replicate 0 i) ps s = (ps[i := Done b], s)"
    using list_update_id [of ps i] by simp
  then show ?case by blast
next
  case (Step g f)
  obtain n b s' where "run_schedule (replicate n i) (ps[i := f s]) (g s) = (ps[i := f s, i := Done b], s')"
    using Step.IH [of "f s" "ps[i := f s]" "g s"] Step.prems(1) by auto
  then have "run_schedule (replicate (Suc n) i) ps s = (ps[i := Done b], s')"
    using Step.prems by simp
  then show ?case by blast
qed

lemma schedule_completes:
  "\<exists>js ps' s'. run_schedule js ps s = (ps', s') \<and> (\<forall>p \<in> set ps'. finished p)"
proof -
  have "\<exists>js ps' s'. run_schedule js ps s = (ps', s') \<and> length ps' = length ps \<and>
      (\<forall>i < k. finished (ps' ! i))" if "k \<le> length ps" for k
    using that
  proof (induction k)
    case 0
    have "run_schedule [] ps s = (ps, s)" by simp
    then show ?case by blast
  next
    case (Suc k)
    then obtain js ps' s' where js: "run_schedule js ps s = (ps', s')" "length ps' = length ps"
      "\<forall>i < k. finished (ps' ! i)" by auto
    with Suc.prems obtain n b s2 where "run_schedule (replicate n k) ps' s' = (ps'[k := Done b], s2)"
      using run_schedule_one [of k ps' _ s'] by auto
    with js(1) have "run_schedule (js @ replicate n k) ps s = (ps'[k := Done b], s2)"
      by (simp add: run_schedule_append)
    moreover have "\<forall>i < Suc k. finished (ps'[k := Done b] ! i)"
      using js(2,3) Suc.prems by (auto simp: less_Suc_eq nth_list_update)
    ultimately show ?case using js(2) by (metis length_list_update)
  qed
  from this [OF order_refl] show ?thesis by (metis in_set_conv_nth)
qed

section \<open>Steps of a kind\<close>

text \<open>All steps of the process are of the kind \<open>R\<close>, and so is then any interleaving of such processes.\<close>

primrec steps_in :: "('s \<Rightarrow> 's \<Rightarrow> bool) \<Rightarrow> ('s, 'b) proc \<Rightarrow> bool" where
  "steps_in R (Done b) = True"
| "steps_in R (Step g f) = (\<forall>s. R s (g s) \<and> steps_in R (f s))"

lemma steps_in_call: "(\<And>s. R s (fin m s)) \<Longrightarrow> (\<And>a. steps_in R (k a)) \<Longrightarrow> steps_in R (call m k)"
  by (simp add: call_def)

lemma schedule_steps:
  "(\<And>p. p \<in> set ps \<Longrightarrow> steps_in R p) \<Longrightarrow> run_schedule js ps s = (ps', s') \<Longrightarrow> R\<^sup>*\<^sup>* s s'"
proof (induction js ps s rule: run_schedule.induct)
  case (2 i js ps s)
  show ?case
  proof (cases "i < length ps \<and> (\<exists>g f. ps ! i = Step g f)")
    case False
    then show ?thesis using 2 by (cases "ps ! i") (auto split: if_splits)
  next
    case True
    then obtain g f where i: "i < length ps" "ps ! i = Step g f" by blast
    then have "steps_in R (Step g f)" using "2.prems"(1) nth_mem by metis
    then have step: "R s (g s)" "steps_in R (f s)" by simp_all
    have "steps_in R p" if "p \<in> set (ps[i := f s])" for p
      using that set_update_subset_insert [of ps i "f s"] step(2) "2.prems"(1) by auto
    moreover have "run_schedule js (ps[i := f s]) (g s) = (ps', s')" using "2.prems"(2) i by simp
    ultimately have "R\<^sup>*\<^sup>* (g s) s'" using "2.IH"(2) [OF i] by blast
    with step(1) show ?thesis by (rule converse_rtranclp_into_rtranclp)
  qed
qed simp

section \<open>Budgets of programs\<close>

locale lock_budget =
  fixes I :: "'s \<Rightarrow> bool" and calls :: "'s \<Rightarrow> nat" and locks :: "'s \<Rightarrow> nat" and N :: nat
begin

abbreviation bounded :: "('s, 'b) proc \<Rightarrow> nat \<Rightarrow> bool" where
  "bounded p n \<equiv> budget I calls locks N p n"

text \<open>An operation that keeps the invariant, gives back no lock, and costs at most \<open>n\<close>.\<close>

definition costs :: "nat \<Rightarrow> ('s, 'a) state \<Rightarrow> bool" where
  "costs n m \<longleftrightarrow> (\<forall>s. I s \<longrightarrow> I (fin m s) \<and> locks s \<le> locks (fin m s) \<and> calls (fin m s) \<le> calls s + n)"

lemma costsD:
  assumes "costs n m" "I s"
  shows "I (fin m s)" "locks s \<le> locks (fin m s)" "calls (fin m s) \<le> calls s + n"
  using assms by (simp_all add: costs_def)

lemma costs_mono: "costs n m \<Longrightarrow> n \<le> k \<Longrightarrow> costs k m"
  by (meson add_left_mono costs_def le_trans)

lemma bounded_Done: "bounded (Done b) n"
  by simp

lemma bounded_pay:
  assumes "costs j m" "\<And>a. bounded (k a) n"
  shows "bounded (call m k) (j + n)"
  unfolding call_def budget.simps
proof (intro allI impI conjI exI [of _ n])
  fix s assume "I s"
  note c = costsD [OF assms(1) this]
  from c(1) show "I (fin m s)" .
  from assms(2) show "bounded (k (res m s)) n" .
  from c(3) mult_le_mono2 [OF c(2), of N]
  show "calls (fin m s) + n + N * locks s \<le> calls s + (j + n) + N * locks (fin m s)" by linarith
qed

lemma bounded_call: "costs 0 m \<Longrightarrow> (\<And>a. bounded (k a) n) \<Longrightarrow> bounded (call m k) n"
  using bounded_pay [of 0 m k n] by simp

lemma bounded_take:
  assumes "costs 0 m"
    and "\<And>s. I s \<Longrightarrow> got (res m s) \<Longrightarrow> Suc (locks s) \<le> locks (fin m s)"
    and "\<And>s. I s \<Longrightarrow> got (res m s) \<Longrightarrow> bounded (k (res m s)) (n + N)"
    and "\<And>s. I s \<Longrightarrow> \<not> got (res m s) \<Longrightarrow> bounded (k (res m s)) n"
  shows "bounded (call m k) n"
  unfolding call_def budget.simps
proof (intro allI impI conjI)
  fix s assume "I s"
  note c = costsD [OF assms(1) this]
  from c(1) show "I (fin m s)" .
  show "\<exists>n'. bounded (k (res m s)) n' \<and>
      calls (fin m s) + n' + N * locks s \<le> calls s + n + N * locks (fin m s)"
  proof (cases "got (res m s)")
    case True
    from mult_le_mono2 [OF assms(2) [OF \<open>I s\<close> True], of N] assms(3) [OF \<open>I s\<close> True] c(3)
    show ?thesis by (intro exI [of _ "n + N"]) simp
  next
    case False
    have "calls (fin m s) + n + N * locks s \<le> calls s + n + N * locks (fin m s)"
      using mult_le_mono2 [OF c(2), of N] c(3) by linarith
    with assms(4) [OF \<open>I s\<close> False] show ?thesis by blast
  qed
qed

lemma bounded_if: "(b \<Longrightarrow> bounded p n) \<Longrightarrow> (\<not> b \<Longrightarrow> bounded q n) \<Longrightarrow> bounded (if b then p else q) n"
  by simp

lemma bounded_option:
  "bounded p n \<Longrightarrow> (\<And>x. bounded (f x) n) \<Longrightarrow> bounded (case y of None \<Rightarrow> p | Some x \<Rightarrow> f x) n"
  by (simp split: option.split)

lemma bounded_sum:
  "(\<And>x. bounded (f x) n) \<Longrightarrow> (\<And>x. bounded (g x) n) \<Longrightarrow>
     bounded (case y of Inl x \<Rightarrow> f x | Inr x \<Rightarrow> g x) n"
  by (simp split: sum.split)

lemma bounded_prod: "(\<And>a b. bounded (f a b) n) \<Longrightarrow> bounded (case y of (a, b) \<Rightarrow> f a b) n"
  by (simp split: prod.split)

lemmas bounded_intros = bounded_Done bounded_call bounded_if bounded_option bounded_sum bounded_prod

end

end
