(* ===== verification/GoFmt.thy ===== *)
theory GoFmt
  imports Prelude
begin

text \<open>
  What the program uses of Go's \<open>fmt\<close>, \<open>strconv\<close> and \<open>time\<close> packages to render values:
  \<open>%d\<close> (\<open>itoa\<close>), \<open>%x\<close> of byte slices (\<open>hex_bytes\<close>), \<open>%q\<close> (\<open>quote\<close>, as \<open>strconv.Quote\<close> renders
  ASCII text; the bytes of printable UTF-8 text are kept), \<open>%v\<close> of a bool and of a
  \<open>time.Duration\<close> (\<open>Duration_String\<close>, the algorithm of \<open>Duration.String\<close>) and \<open>%f\<close> (\<open>fmt_f\<close>).
  A Go string is its bytes, a \<open>string\<close> here.
\<close>

section \<open>Decimal and hexadecimal digits\<close>

definition digit :: "nat \<Rightarrow> char" where
  "digit n = ''0123456789abcdef'' ! n"

fun dec_nat :: "nat \<Rightarrow> string" where
  "dec_nat n = (if n < 10 then [digit n] else dec_nat (n div 10) @ [digit (n mod 10)])"

declare dec_nat.simps [simp del]

definition itoa :: "int \<Rightarrow> string" where
  "itoa i = (if i < 0 then ''-'' @ dec_nat (nat (- i)) else dec_nat (nat i))"

definition hex_byte :: "8 word \<Rightarrow> string" where
  "hex_byte b = [digit (unat b div 16), digit (unat b mod 16)]"

definition hex_bytes :: "8 word list \<Rightarrow> string" where
  "hex_bytes bs = concat (map hex_byte bs)"

definition fmt_bool :: "bool \<Rightarrow> string" where
  "fmt_bool b = (if b then ''true'' else ''false'')"

section \<open>Quoting\<close>

definition quote_char :: "char \<Rightarrow> string" where
  "quote_char c =
     (if c = CHR 0x22 then [CHR 0x5C, CHR 0x22]
      else if c = CHR 0x5C then [CHR 0x5C, CHR 0x5C]
      else if c = CHR 0x07 then [CHR 0x5C, CHR ''a'']
      else if c = CHR 0x08 then [CHR 0x5C, CHR ''b'']
      else if c = CHR 0x0C then [CHR 0x5C, CHR ''f'']
      else if c = CHR 0x0A then [CHR 0x5C, CHR ''n'']
      else if c = CHR 0x0D then [CHR 0x5C, CHR ''r'']
      else if c = CHR 0x09 then [CHR 0x5C, CHR ''t'']
      else if c = CHR 0x0B then [CHR 0x5C, CHR ''v'']
      else if of_char c < (32 :: nat) \<or> c = CHR 0x7F
      then [CHR 0x5C, CHR ''x'', digit (of_char c div 16), digit (of_char c mod 16)]
      else [c])"

definition quote :: "string \<Rightarrow> string" where
  "quote s = [CHR 0x22] @ concat (map quote_char s) @ [CHR 0x22]"

section \<open>Durations and fixed-point numbers\<close>

text \<open>
  \<open>fmtFrac\<close> of the \<open>time\<close> package: the fraction \<open>v / 10 ^ prec\<close> without trailing zeros, with
  its point, or nothing when it is zero.
\<close>

definition pad_dec :: "nat \<Rightarrow> nat \<Rightarrow> string" where
  "pad_dec w n = (let s = dec_nat n in replicate (w - length s) (CHR ''0'') @ s)"

definition fmt_frac :: "nat \<Rightarrow> nat \<Rightarrow> string" where
  "fmt_frac v prec =
     (let f = v mod 10 ^ prec
      in if f = 0 then ''''
         else ''.'' @ rev (dropWhile (\<lambda>c. c = CHR ''0'') (rev (pad_dec prec f))))"

definition Duration_String :: "Duration \<Rightarrow> string" where
  "Duration_String d =
     (let u = nat (abs d); sign = (if d < 0 then ''-'' else '''')
      in if u = 0 then ''0s''
         else if u < 1000 then sign @ dec_nat u @ ''ns''
         else if u < 1000000 then
           sign @ dec_nat (u div 1000) @ fmt_frac u 3 @ [CHR 0xC2, CHR 0xB5] @ ''s''
         else if u < 1000000000 then sign @ dec_nat (u div 1000000) @ fmt_frac u 6 @ ''ms''
         else
           (let secs = u div 1000000000; frac = fmt_frac u 9; mins = secs div 60;
                s_part = dec_nat (secs mod 60) @ frac @ ''s''
            in if mins = 0 then sign @ s_part
               else if mins div 60 = 0 then sign @ dec_nat mins @ ''m'' @ s_part
               else sign @ dec_nat (mins div 60) @ ''h'' @ dec_nat (mins mod 60) @ ''m'' @ s_part))"

text \<open>Rounding to the nearest integer, ties to even; \<open>%f\<close> prints six decimals.\<close>

definition round_half_even :: "rat \<Rightarrow> int" where
  "round_half_even x =
     (let f = \<lfloor>x\<rfloor>; r = x - of_int f
      in if r < 1 / 2 then f else if r > 1 / 2 then f + 1 else if even f then f else f + 1)"

definition fmt_f :: "f64 \<Rightarrow> string" where
  "fmt_f x =
     (case x of
        Fin q \<Rightarrow>
          (let n = nat (abs (round_half_even (q * 1000000)))
           in (if q < 0 then ''-'' else '''') @ dec_nat (n div 1000000) @ ''.'' @
              pad_dec 6 (n mod 1000000))
      | Infinite neg \<Rightarrow> (if neg then ''-Inf'' else ''+Inf'')
      | NaN \<Rightarrow> ''NaN'')"

section \<open>Facts\<close>

text \<open>\<open>dec_nat\<close> is a decimal numeral: it reads back to its value, so it is injective.\<close>

definition undigit :: "char \<Rightarrow> nat" where
  "undigit c = of_char c - 48"

definition read_dec :: "string \<Rightarrow> nat" where
  "read_dec s = foldl (\<lambda>n c. 10 * n + undigit c) 0 s"

lemma ten_digits: "list_all (\<lambda>n. undigit (digit n) = n \<and> digit n \<noteq> CHR ''-'') [0..<10]"
  by (simp add: upt_conv_Cons undigit_def digit_def)

lemma undigit_digit: "n < 10 \<Longrightarrow> undigit (digit n) = n"
  and digit_noteq_minus: "n < 10 \<Longrightarrow> digit n \<noteq> CHR ''-''"
  using ten_digits by (simp_all add: list_all_iff)

lemma read_dec_nat [simp]: "read_dec (dec_nat n) = n"
proof (induction n rule: dec_nat.induct)
  case (1 n)
  show ?case
  proof (cases "n < 10")
    case True
    then show ?thesis by (subst dec_nat.simps) (simp add: read_dec_def undigit_digit)
  next
    case False
    with "1.IH" have "read_dec (dec_nat (n div 10)) = n div 10" by simp
    with False show ?thesis
      by (subst dec_nat.simps) (simp add: read_dec_def undigit_digit)
  qed
qed

lemma dec_nat_inject [simp]: "dec_nat m = dec_nat n \<longleftrightarrow> m = n"
  by (metis read_dec_nat)

lemma dec_nat_digits: "c \<in> set (dec_nat n) \<Longrightarrow> \<exists>d < 10. c = digit d"
proof (induction n rule: dec_nat.induct)
  case (1 n)
  then show ?case
    by (subst (asm) (2) dec_nat.simps) (auto split: if_splits intro: exI [of _ "n mod 10"])
qed

lemma dec_nat_nonempty [simp]: "dec_nat n \<noteq> []"
  by (subst dec_nat.simps) simp

lemma itoa_inject [simp]: "itoa i = itoa j \<longleftrightarrow> i = j"
proof
  assume eq: "itoa i = itoa j"
  have no_minus: "dec_nat m \<noteq> CHR ''-'' # s" for m s
    using dec_nat_digits [of "CHR ''-''" m] digit_noteq_minus by (metis list.set_intros(1))
  then have "CHR ''-'' # s \<noteq> dec_nat m" for m s by metis
  with no_minus eq show "i = j" by (auto simp: itoa_def nat_eq_iff split: if_splits)
qed simp

lemma length_hex_byte [simp]: "length (hex_byte b) = 2"
  by (simp add: hex_byte_def)

lemma length_hex_bytes [simp]: "length (hex_bytes bs) = 2 * length bs"
  by (induction bs) (simp_all add: hex_bytes_def)

definition hex_digits :: string where
  "hex_digits = ''0123456789abcdef''"

lemma digit_hex: "n < 16 \<Longrightarrow> digit n \<in> set hex_digits"
  unfolding hex_digits_def digit_def by (rule nth_mem) simp

lemma digit_inject: "m < 16 \<Longrightarrow> n < 16 \<Longrightarrow> digit m = digit n \<longleftrightarrow> m = n"
  using nth_eq_iff_index_eq [of "''0123456789abcdef''" m n] by (simp add: digit_def)

lemma byte_nibbles: "unat (b :: 8 word) div 16 < 16"
  using unsigned_less [of b, where ?'a = nat] by simp

lemma set_hex_bytes: "set (hex_bytes bs) \<subseteq> set hex_digits"
  by (induction bs) (auto simp: hex_bytes_def hex_byte_def digit_hex byte_nibbles)

lemma hex_byte_inject [simp]: "hex_byte a = hex_byte b \<longleftrightarrow> a = b"
proof
  assume "hex_byte a = hex_byte b"
  then have "unat a div 16 = unat b div 16" and "unat a mod 16 = unat b mod 16"
    using byte_nibbles [of a] byte_nibbles [of b] by (simp_all add: hex_byte_def digit_inject)
  then have "unat a = unat b" by (metis div_mult_mod_eq)
  then show "a = b" by (rule unsigned_word_eqI)
qed simp

lemma hex_bytes_inject: "length as = length bs \<Longrightarrow> hex_bytes as = hex_bytes bs \<longleftrightarrow> as = bs"
  by (induction as bs rule: list_induct2) (simp_all add: hex_bytes_def append_eq_append_conv)

end
