(* ===== verification/GoFloat.thy ===== *)
theory GoFloat
  imports GoFmt "HOL-Library.Log_Nat"
begin

text \<open>
  The \<open>float64\<close> arithmetic the retry policy uses: IEEE 754 binary64 over exact rationals, rounding
  to nearest with ties to even, subnormals and overflow included. \<open>f64_to_int64\<close> is Go's
  conversion to an integer type: truncation where the value fits, and otherwise the
  implementation-dependent value the language leaves to the hardware (\<open>out_of_range\<close>).
  \<open>f64_round_le\<close> (rounding never passes a representable bound) and \<open>f64_round_quarter\<close> (multiples
  of a quarter up to \<open>2 ^ 51\<close> are exact) are what the bounds on backoff delays rest on.
\<close>

section \<open>Rounding\<close>

definition ilog2 :: "rat \<Rightarrow> int" where
  "ilog2 x =
     (let (n, d) = quotient_of x;
          k = int (floorlog 2 (nat n)) - int (floorlog 2 (nat d))
      in if 2 powi k \<le> x then k else k - 1)"

definition ulp :: "rat \<Rightarrow> rat" where
  "ulp x = 2 powi (max (ilog2 \<bar>x\<bar>) (- 1022) - 52)"

definition f64_round :: "rat \<Rightarrow> f64" where
  "f64_round x =
     (if x = 0 then Fin 0
      else (let r = of_int (round_half_even (x / ulp x)) * ulp x
            in if \<bar>r\<bar> \<ge> 2 ^ 1024 then Infinite (x < 0) else Fin r))"

section \<open>Operations\<close>

definition f64_of_int :: "int \<Rightarrow> f64" where
  "f64_of_int i = f64_round (of_int i)"

fun f64_mul :: "f64 \<Rightarrow> f64 \<Rightarrow> f64" where
  "f64_mul (Fin a) (Fin b) = f64_round (a * b)"
| "f64_mul (Fin a) (Infinite s) = (if a = 0 then NaN else Infinite (s \<noteq> (a < 0)))"
| "f64_mul (Infinite s) (Fin a) = (if a = 0 then NaN else Infinite (s \<noteq> (a < 0)))"
| "f64_mul (Infinite s) (Infinite t) = Infinite (s \<noteq> t)"
| "f64_mul NaN _ = NaN"
| "f64_mul _ NaN = NaN"

fun f64_add :: "f64 \<Rightarrow> f64 \<Rightarrow> f64" where
  "f64_add (Fin a) (Fin b) = f64_round (a + b)"
| "f64_add (Infinite s) (Infinite t) = (if s = t then Infinite s else NaN)"
| "f64_add (Infinite s) (Fin _) = Infinite s"
| "f64_add (Fin _) (Infinite s) = Infinite s"
| "f64_add NaN _ = NaN"
| "f64_add _ NaN = NaN"

fun f64_less :: "f64 \<Rightarrow> f64 \<Rightarrow> bool" where
  "f64_less (Fin a) (Fin b) = (a < b)"
| "f64_less (Fin _) (Infinite s) = (\<not> s)"
| "f64_less (Infinite s) (Fin _) = s"
| "f64_less (Infinite s) (Infinite t) = (s \<and> \<not> t)"
| "f64_less NaN _ = False"
| "f64_less _ NaN = False"

definition truncate_rat :: "rat \<Rightarrow> int" where
  "truncate_rat x = (if x < 0 then - \<lfloor>- x\<rfloor> else \<lfloor>x\<rfloor>)"

definition int64 :: "int \<Rightarrow> bool" where
  "int64 i \<longleftrightarrow> - (2 ^ 63) \<le> i \<and> i < 2 ^ 63"

definition f64_to_int64 :: "'a env_scheme \<Rightarrow> f64 \<Rightarrow> int" where
  "f64_to_int64 e x =
     (case x of Fin q \<Rightarrow> if int64 (truncate_rat q) then truncate_rat q else out_of_range e x
      | _ \<Rightarrow> out_of_range e x)"

section \<open>Facts about rounding\<close>

lemma nat_floorlog_bounds:
  assumes "(n :: int) > 0"
  shows "2 powi (int (floorlog 2 (nat n)) - 1) \<le> (of_int n :: rat)"
    and "(of_int n :: rat) < 2 powi int (floorlog 2 (nat n))"
proof -
  let ?L = "floorlog 2 (nat n)"
  have b: "2 ^ (?L - 1) \<le> nat n" "nat n < 2 ^ ?L"
    using floorlog_bounds [of "nat n" 2] assms by auto
  have "?L > 0"
    using b(2) assms by (cases ?L) auto
  then have "(2 :: rat) powi (int ?L - 1) = 2 ^ (?L - 1)"
    by (simp flip: power_int_of_nat add: of_nat_diff)
  moreover have "(2 ^ (?L - 1) :: rat) \<le> of_int n"
    using b(1) assms by (metis le_nat_iff less_imp_le of_int_le_iff of_int_numeral of_int_of_nat_eq of_int_power of_nat_numeral of_nat_power)
  ultimately show "2 powi (int ?L - 1) \<le> (of_int n :: rat)" by simp
  have "n < 2 ^ ?L"
    using b(2) assms by (simp add: nat_less_iff)
  then have "(of_int n :: rat) < of_int (2 ^ ?L)"
    by (simp only: of_int_less_iff)
  then show "(of_int n :: rat) < 2 powi int ?L"
    by (simp only: power_int_of_nat of_int_power of_int_numeral)
qed

lemma ilog2_bounds:
  assumes "x > 0"
  shows "2 powi (ilog2 x) \<le> x" and "x < 2 powi (ilog2 x + 1)"
proof -
  obtain n d where q: "quotient_of x = (n, d)" by fastforce
  have d: "d > 0" using quotient_of_denom_pos [OF q] .
  have x: "x = of_int n / of_int d" using quotient_of_div [OF q] .
  have n: "n > 0" using assms d by (simp add: x zero_less_divide_iff)
  let ?N = "int (floorlog 2 (nat n))" and ?D = "int (floorlog 2 (nat d))"
  note bn = nat_floorlog_bounds [OF n] and bd = nat_floorlog_bounds [OF d]
  have pos: "(0 :: rat) < of_int d" "(0 :: rat) < of_int n" using n d by simp_all
  have "2 powi (?N - 1) / 2 powi ?D \<le> x"
    unfolding x by (rule frac_le) (use bn(1) bd(2) pos in auto)
  then have lo: "2 powi (?N - ?D - 1) \<le> x"
    by (simp add: power_int_diff)
  have "x < 2 powi ?N / 2 powi (?D - 1)"
    unfolding x by (rule frac_less) (use bn(2) bd(1) pos in auto)
  then have hi: "x < 2 powi (?N - ?D + 1)"
    by (simp add: power_int_diff power_int_add)
  have l: "ilog2 x = (if 2 powi (?N - ?D) \<le> x then ?N - ?D else ?N - ?D - 1)"
    by (simp add: ilog2_def q Let_def)
  show "2 powi (ilog2 x) \<le> x" using lo by (simp add: l)
  show "x < 2 powi (ilog2 x + 1)" using hi by (simp add: l)
qed

lemma ilog2_mono:
  assumes "0 < x" "x \<le> y"
  shows "ilog2 x \<le> ilog2 y"
proof (rule ccontr)
  assume "\<not> ilog2 x \<le> ilog2 y"
  then have "ilog2 y + 1 \<le> ilog2 x" by simp
  then have "(2 :: rat) powi (ilog2 y + 1) \<le> 2 powi (ilog2 x)"
    by (rule power_int_increasing) simp
  with ilog2_bounds(2) [of y] ilog2_bounds(1) [of x] assms show False by simp
qed

lemma ulp_pos [simp]: "ulp x > 0"
  by (simp add: ulp_def)

lemma ulp_mono:
  assumes "0 < x" "x \<le> y"
  obtains k :: nat where "ulp y = 2 ^ k * ulp x"
proof -
  let ?e = "max (ilog2 \<bar>x\<bar>) (- 1022) - 52" and ?f = "max (ilog2 \<bar>y\<bar>) (- 1022) - 52"
  have "?e \<le> ?f" using ilog2_mono [OF assms] assms by simp
  then have "ulp y = 2 powi (?f - ?e) * ulp x" and "?f - ?e = int (nat (?f - ?e))"
    by (simp_all add: ulp_def flip: power_int_add)
  then show ?thesis using that by (metis power_int_of_nat)
qed

lemma round_half_even_of_int [simp]: "round_half_even (of_int i) = i"
  by (simp add: round_half_even_def Let_def)

lemma round_half_even_le:
  assumes "x \<le> of_int i"
  shows "round_half_even x \<le> i"
proof (cases "x = of_int i")
  case True
  then show ?thesis by simp
next
  case False
  with assms have "\<lfloor>x\<rfloor> < i" by (simp add: floor_less_iff)
  then show ?thesis by (auto simp: round_half_even_def Let_def)
qed

lemma round_half_even_nonneg: "0 \<le> x \<Longrightarrow> 0 \<le> round_half_even x"
  by (auto simp: round_half_even_def Let_def)

text \<open>Rounding never passes a representable bound.\<close>

lemma f64_round_le:
  assumes "0 \<le> x" "x \<le> y" and y: "f64_round y = Fin y"
  shows "\<exists>r. f64_round x = Fin r \<and> 0 \<le> r \<and> r \<le> y"
proof (cases "x = 0")
  case True
  with assms show ?thesis by (auto simp: f64_round_def)
next
  case False
  with assms have pos: "0 < x" "0 < y" by auto
  obtain k where k: "ulp y = 2 ^ k * ulp x" using ulp_mono [OF pos(1) assms(2)] by blast
  from y pos have y_eq: "of_int (round_half_even (y / ulp y)) * ulp y = y"
    and small: "\<bar>y\<bar> < 2 ^ 1024"
    by (auto simp: f64_round_def Let_def split: if_splits)
  let ?m = "round_half_even (y / ulp y) * 2 ^ k" and ?r = "round_half_even (x / ulp x)"
  have "y = of_int ?m * ulp x" using y_eq k by (simp add: mult.assoc)
  with assms(2) have "x / ulp x \<le> of_int ?m" by (simp add: divide_le_eq)
  then have "?r \<le> ?m" by (rule round_half_even_le)
  then have "(of_int ?r :: rat) \<le> of_int ?m" by (simp only: of_int_le_iff)
  then have "of_int ?r * ulp x \<le> of_int ?m * ulp x"
    by (rule mult_right_mono) (simp add: less_imp_le)
  with \<open>y = of_int ?m * ulp x\<close> have le: "of_int ?r * ulp x \<le> y" by simp
  have "0 \<le> ?r" using pos by (intro round_half_even_nonneg) (simp add: less_imp_le)
  then have ge: "0 \<le> of_int ?r * ulp x" by (simp add: less_imp_le)
  from le ge small have "\<not> \<bar>of_int ?r * ulp x\<bar> \<ge> 2 ^ 1024" by linarith
  with False le ge show ?thesis by (simp add: f64_round_def Let_def)
qed

lemma round_half_even_ge:
  assumes "of_int i \<le> x"
  shows "i \<le> round_half_even x"
proof -
  from assms have "i \<le> \<lfloor>x\<rfloor>" by (simp add: le_floor_iff)
  then show ?thesis by (auto simp: round_half_even_def Let_def)
qed

lemma f64_round_ge:
  assumes "0 < y" "y \<le> x" and y: "f64_round y = Fin y" and x: "f64_round x = Fin r"
  shows "y \<le> r"
proof -
  let ?e = "max (ilog2 x) (- 1022)" and ?f = "max (ilog2 y) (- 1022)"
  have abs: "\<bar>x\<bar> = x" "\<bar>y\<bar> = y" using assms by simp_all
  have r: "r = of_int (round_half_even (x / ulp x)) * ulp x"
    using x assms by (auto simp: f64_round_def Let_def split: if_splits)
  have y_eq: "y = of_int (round_half_even (y / ulp y)) * ulp y"
    using y assms by (auto simp: f64_round_def Let_def split: if_splits)
  have mono: "ilog2 y \<le> ilog2 x" using ilog2_mono assms by simp
  have "\<exists>m. y \<le> of_int m * ulp x \<and> of_int m * ulp x \<le> x"
  proof (cases "?e = ?f")
    case True
    then have "ulp y = ulp x" by (simp add: ulp_def abs)
    with y_eq assms(2) show ?thesis by (intro exI [of _ "round_half_even (y / ulp y)"]) auto
  next
    case False
    with mono have lt: "ilog2 y + 1 \<le> ilog2 x" and e: "?e = ilog2 x" by auto
    have "(2 :: rat) powi 52 * 2 powi (ilog2 x - 52) = 2 powi (ilog2 x)"
      using power_int_add [of "2 :: rat" 52 "ilog2 x - 52"] by simp
    then have pow: "of_int (2 ^ 52) * ulp x = 2 powi (ilog2 x)"
      by (simp add: ulp_def abs e)
    have "y < 2 powi (ilog2 y + 1)" using ilog2_bounds(2) assms(1) by blast
    also have "\<dots> \<le> 2 powi (ilog2 x)" using lt by (intro power_int_increasing) auto
    finally have "y \<le> of_int (2 ^ 52) * ulp x" unfolding pow by simp
    moreover have "of_int (2 ^ 52) * ulp x \<le> x" unfolding pow
      using ilog2_bounds(1) assms by simp
    ultimately show ?thesis by blast
  qed
  then obtain m where m: "y \<le> of_int m * ulp x" "of_int m * ulp x \<le> x" by blast
  from m(2) have "of_int m \<le> x / ulp x" by (simp add: le_divide_eq)
  then have "m \<le> round_half_even (x / ulp x)" by (rule round_half_even_ge)
  then have "(of_int m :: rat) \<le> of_int (round_half_even (x / ulp x))" by (simp only: of_int_le_iff)
  then have "of_int m * ulp x \<le> r"
    unfolding r by (rule mult_right_mono) (simp add: less_imp_le)
  with m(1) show ?thesis by simp
qed

lemma f64_round_nonneg: "0 \<le> x \<Longrightarrow> f64_round x = Fin r \<Longrightarrow> 0 \<le> r"
  using round_half_even_nonneg [of "x / ulp x"]
  by (auto simp: f64_round_def Let_def less_imp_le split: if_splits)

lemma f64_mul_finD: "f64_mul x (Fin u) = Fin r \<Longrightarrow> \<exists>q. x = Fin q"
  by (cases x) (auto split: if_splits)

lemma f64_add_finD: "f64_add (Fin q) x = Fin r \<Longrightarrow> \<exists>w. x = Fin w"
  by (cases x) auto

lemma f64_round_multiple:
  assumes "0 < x" "x < 2 ^ 1024" "x / ulp x = of_int m"
  shows "f64_round x = Fin x"
proof -
  have "x = of_int m * ulp x"
    using assms(3) ulp_pos [of x] by (simp add: nonzero_divide_eq_eq)
  then have "of_int (round_half_even (x / ulp x)) * ulp x = x"
    unfolding assms(3) by simp
  with assms show ?thesis by (simp add: f64_round_def Let_def)
qed

lemma divide_powi: "(a :: rat) / 2 powi k = a * 2 powi (- k)"
  by (simp add: power_int_minus divide_inverse)

text \<open>A number with a significand of 53 bits is exact.\<close>

lemma f64_round_exact:
  assumes "0 \<le> m" "m < 2 ^ 53" "- 1074 \<le> k" "of_int m * (2 :: rat) powi k < 2 ^ 1024"
  shows "f64_round (of_int m * 2 powi k) = Fin (of_int m * 2 powi k)"
proof (cases "m = 0")
  case True
  then show ?thesis by (simp add: f64_round_def)
next
  case False
  let ?x = "of_int m * 2 powi k :: rat"
  let ?e = "max (ilog2 ?x) (- 1022) - 52"
  have x: "0 < ?x" using assms(1) False by simp
  have "(of_int m :: rat) < 2 powi 53"
    using assms(2) by (simp add: power_int_def)
  then have "?x < 2 powi 53 * 2 powi k" by (rule mult_strict_right_mono) simp
  then have hi: "?x < 2 powi (53 + k)" by (simp add: power_int_add)
  have "ilog2 ?x < 53 + k"
  proof (rule ccontr)
    assume "\<not> ilog2 ?x < 53 + k"
    then have "(2 :: rat) powi (53 + k) \<le> 2 powi (ilog2 ?x)" by (intro power_int_increasing) auto
    with ilog2_bounds(1) [OF x] hi show False by linarith
  qed
  with assms(3) have le: "0 \<le> k - ?e" by simp
  have "?x / ulp ?x = ?x / 2 powi ?e"
    using x by (simp add: ulp_def)
  also have "\<dots> = ?x * 2 powi (- ?e)" by (rule divide_powi)
  also have "\<dots> = of_int m * 2 powi (k - ?e)"
    using power_int_add [of "2 :: rat" k "- ?e"]
    by (simp only: mult.assoc diff_conv_add_uminus zero_neq_numeral simp_thms) simp
  also have "\<dots> = of_int (m * 2 ^ nat (k - ?e))"
    using le by (simp add: power_int_def)
  finally show ?thesis by (rule f64_round_multiple [OF x assms(4)])
qed

lemma f64_round_quarter:
  assumes "0 \<le> m" "m < 2 ^ 53"
  shows "f64_round (of_int m / 4) = Fin (of_int m / 4)"
proof -
  have q: "of_int m * (2 :: rat) powi (- 2) = of_int m / 4"
    by (simp add: power_int_def power2_eq_square)
  have "(of_int m :: rat) < 2 ^ 53"
    using assms(2) by (metis of_int_less_iff of_int_numeral of_int_power)
  then have "of_int m / 4 < (2 :: rat) ^ 1024" by simp
  then show ?thesis using f64_round_exact [of m "- 2"] assms by (simp only: q)
qed

lemma f64_round_nat_power:
  assumes "0 \<le> m" "m < 2 ^ 53" "k \<le> 900"
  shows "f64_round (of_int m * 2 ^ k) = Fin (of_int m * 2 ^ k)"
proof -
  have "(of_int m :: rat) < 2 ^ 53"
    using assms(2) by (metis of_int_less_iff of_int_numeral of_int_power)
  moreover have "(2 :: rat) ^ k \<le> 2 ^ 900" using assms(3) by (rule power_increasing) simp
  ultimately have "of_int m * (2 :: rat) ^ k \<le> 2 ^ 53 * 2 ^ 900"
    using assms(1) by (intro mult_mono) auto
  also have "(\<dots> :: rat) < 2 ^ 1024" by simp
  finally show ?thesis
    using f64_round_exact [of m "int k"] assms(1,2) by simp
qed

lemma f64_of_int_exact: "0 \<le> i \<Longrightarrow> i < 2 ^ 51 \<Longrightarrow> f64_of_int i = Fin (of_int i)"
  using f64_round_quarter [of "4 * i"] by (simp add: f64_of_int_def)

lemma truncate_rat_of_int [simp]: "truncate_rat (of_int i) = i"
  by (simp add: truncate_rat_def)

end
