(* ===== verification/ContractsErrors.thy ===== *)
theory ContractsErrors
  imports GoFmt
begin

text \<open>
  \<open>internal/contracts/errors.go\<close> and the sentinel errors of \<open>internal/storage/errors.go\<close>: error
  codes, the three structured error types, their \<open>Error()\<close> texts, and error chains as
  \<open>fmt.Errorf("...%w")\<close> builds them, with the searches \<open>errors.Is\<close> and \<open>errors.As\<close> make in a chain.
  An \<open>error\<close> result is an optional \<open>go_error\<close> (\<open>None\<close> is nil); a result with an error is the sum
  \<open>go_error + 'a\<close>.
\<close>

section \<open>Error codes and structured errors\<close>

text \<open>\<open>OtherErrorCode\<close> holds a string that is none of the constants.\<close>

datatype ErrorCode =
    ErrCodeValidation
  | ErrCodeNotFound
  | ErrCodeForbidden
  | ErrCodeInternal
  | ErrCodeConflict
  | ErrCodeUnavailable
  | ErrCodeRateLimited
  | OtherErrorCode string

fun ErrorCode_string :: "ErrorCode \<Rightarrow> string" where
  "ErrorCode_string ErrCodeValidation = ''validation_error''"
| "ErrorCode_string ErrCodeNotFound = ''not_found''"
| "ErrorCode_string ErrCodeForbidden = ''forbidden''"
| "ErrorCode_string ErrCodeInternal = ''internal_error''"
| "ErrorCode_string ErrCodeConflict = ''conflict''"
| "ErrorCode_string ErrCodeUnavailable = ''unavailable''"
| "ErrorCode_string ErrCodeRateLimited = ''rate_limited''"
| "ErrorCode_string (OtherErrorCode s) = s"

record ErrorDetail =
  ed_field :: string
  ed_message :: string

record AppError =
  ae_code :: ErrorCode
  ae_message :: string
  ae_details :: "ErrorDetail list"

record PlatformError =
  pe_platform :: string
  pe_status_code :: int
  pe_message :: string
  pe_retryable :: bool

record RateLimitError =
  rl_platform :: string
  rl_retry_after :: Duration
  rl_message :: string

definition AppError_Error :: "AppError \<Rightarrow> string" where
  "AppError_Error e =
     (if length (ae_details e) > 0
      then ErrorCode_string (ae_code e) @ '': '' @ ae_message e @ '' ('' @
           dec_nat (length (ae_details e)) @ '' details)''
      else ErrorCode_string (ae_code e) @ '': '' @ ae_message e)"

definition NewValidationError :: "string \<Rightarrow> ErrorDetail list \<Rightarrow> AppError" where
  "NewValidationError message details =
     \<lparr>ae_code = ErrCodeValidation, ae_message = message, ae_details = details\<rparr>"

definition NewNotFoundError :: "string \<Rightarrow> AppError" where
  "NewNotFoundError resource =
     \<lparr>ae_code = ErrCodeNotFound, ae_message = resource @ '' not found'', ae_details = []\<rparr>"

definition NewForbiddenError :: "string \<Rightarrow> AppError" where
  "NewForbiddenError message =
     \<lparr>ae_code = ErrCodeForbidden, ae_message = message, ae_details = []\<rparr>"

definition NewInternalError :: "string \<Rightarrow> AppError" where
  "NewInternalError message =
     \<lparr>ae_code = ErrCodeInternal, ae_message = message, ae_details = []\<rparr>"

definition NewConflictError :: "string \<Rightarrow> AppError" where
  "NewConflictError message =
     \<lparr>ae_code = ErrCodeConflict, ae_message = message, ae_details = []\<rparr>"

definition NewUnavailableError :: "string \<Rightarrow> AppError" where
  "NewUnavailableError message =
     \<lparr>ae_code = ErrCodeUnavailable, ae_message = message, ae_details = []\<rparr>"

definition PlatformError_Error :: "PlatformError \<Rightarrow> string" where
  "PlatformError_Error e =
     ''platform '' @ pe_platform e @ '' (HTTP '' @ itoa (pe_status_code e) @ ''): '' @
     pe_message e @ '' [retryable='' @ fmt_bool (pe_retryable e) @ '']''"

definition PlatformError_IsRetryable :: "PlatformError \<Rightarrow> bool" where
  "PlatformError_IsRetryable e = pe_retryable e"

definition RateLimitError_Error :: "RateLimitError \<Rightarrow> string" where
  "RateLimitError_Error e =
     (if rl_retry_after e > 0
      then ''rate limited on '' @ rl_platform e @ '': retry after '' @
           Duration_String (rl_retry_after e)
      else ''rate limited on '' @ rl_platform e @ '': '' @ rl_message e)"

section \<open>Error values and chains\<close>

datatype go_error =
    ErrNotFound
  | ErrConflict
  | ErrVersionConflict
  | PlatformErr PlatformError
  | AppErr AppError
  | RateLimitErr RateLimitError
  | Errorf string            \<comment> \<open>\<open>fmt.Errorf\<close> without \<open>%w\<close>\<close>
  | Wrapf string go_error    \<comment> \<open>\<open>fmt.Errorf\<close> of a text that ends in \<open>%w\<close>\<close>
  | Panic string             \<comment> \<open>not an error value: a run-time panic of the call\<close>

type_synonym 'a result = "go_error + 'a"

fun Error :: "go_error \<Rightarrow> string" where
  "Error ErrNotFound = ''not found''"
| "Error ErrConflict = ''conflict''"
| "Error ErrVersionConflict = ''version conflict''"
| "Error (PlatformErr e) = PlatformError_Error e"
| "Error (AppErr e) = AppError_Error e"
| "Error (RateLimitErr e) = RateLimitError_Error e"
| "Error (Errorf s) = s"
| "Error (Wrapf s e) = s @ Error e"
| "Error (Panic s) = ''panic: '' @ s"

fun errors_Is :: "go_error \<Rightarrow> go_error \<Rightarrow> bool" where
  "errors_Is (Wrapf s e) target = (Wrapf s e = target \<or> errors_Is e target)"
| "errors_Is e target = (e = target)"

fun errors_As_PlatformError :: "go_error \<Rightarrow> PlatformError option" where
  "errors_As_PlatformError (PlatformErr p) = Some p"
| "errors_As_PlatformError (Wrapf s e) = errors_As_PlatformError e"
| "errors_As_PlatformError _ = None"

fun errors_As_AppError :: "go_error \<Rightarrow> AppError option" where
  "errors_As_AppError (AppErr a) = Some a"
| "errors_As_AppError (Wrapf s e) = errors_As_AppError e"
| "errors_As_AppError _ = None"

section \<open>Facts\<close>

lemma errors_Is_ErrNotFound_wrap [simp]:
  "errors_Is (Wrapf s e) ErrNotFound = errors_Is e ErrNotFound"
  by simp

lemma errors_Is_ErrConflict_wrap [simp]:
  "errors_Is (Wrapf s e) ErrConflict = errors_Is e ErrConflict"
  by simp

text \<open>A chain carries at most one structured error: its innermost element.\<close>

fun innermost :: "go_error \<Rightarrow> go_error" where
  "innermost (Wrapf s e) = innermost e"
| "innermost e = e"

lemma errors_As_PlatformError_iff:
  "errors_As_PlatformError e = Some p \<longleftrightarrow> innermost e = PlatformErr p"
  by (induction e rule: innermost.induct) auto

lemma errors_As_AppError_iff:
  "errors_As_AppError e = Some a \<longleftrightarrow> innermost e = AppErr a"
  by (induction e rule: innermost.induct) auto

lemma errors_Is_sentinel:
  "errors_Is e ErrNotFound \<longleftrightarrow> innermost e = ErrNotFound"
  "errors_Is e ErrConflict \<longleftrightarrow> innermost e = ErrConflict"
  "errors_Is e ErrVersionConflict \<longleftrightarrow> innermost e = ErrVersionConflict"
  by (induction e rule: innermost.induct) auto

end
