(* ===== verification/GoStrings.thy ===== *)
theory GoStrings
  imports GoFmt
begin

text \<open>
  The functions of Go's \<open>strings\<close> the code uses, on strings as byte sequences: \<open>TrimSpace\<close> (the
  Unicode white space, by its UTF-8 encodings), \<open>ToLower\<close> and the case folding of JSON names on
  what the code compares. The facts say that trimming is idempotent and leaves no space at an end.
\<close>

section \<open>White space\<close>

abbreviation bytes :: "nat list \<Rightarrow> string" where
  "bytes \<equiv> map char_of"

text \<open>The encodings of the runes \<open>unicode.IsSpace\<close> accepts.\<close>

definition go_spaces :: "string list" where
  "go_spaces = map bytes
     ([[9], [10], [11], [12], [13], [32], [0xC2, 0x85], [0xC2, 0xA0], [0xE1, 0x9A, 0x80],
       [0xE2, 0x80, 0xA8], [0xE2, 0x80, 0xA9], [0xE2, 0x80, 0xAF], [0xE2, 0x81, 0x9F], [0xE3, 0x80, 0x80]] @
      map (\<lambda>n. [0xE2, 0x80, n]) [0x80..<0x8B])"

definition starts_with :: "string \<Rightarrow> string \<Rightarrow> bool" where
  "starts_with s w \<longleftrightarrow> take (length w) s = w"

text \<open>Drops leading members of \<open>ws\<close>, which are not empty, as long as there is one.\<close>

function strip :: "string list \<Rightarrow> string \<Rightarrow> string" where
  "strip ws s =
     (case find (\<lambda>w. w \<noteq> [] \<and> starts_with s w) ws of
        None \<Rightarrow> s
      | Some w \<Rightarrow> strip ws (drop (length w) s))"
  by auto
termination
proof (relation "measure (\<lambda>(ws, s). length s)")
  fix ws s w
  assume "find (\<lambda>w. w \<noteq> [] \<and> starts_with s w) ws = Some w"
  then have "w \<noteq> []" "take (length w) s = w" by (auto simp: find_Some_iff starts_with_def)
  then have "0 < length w" "length w \<le> length s"
    by (simp, metis length_take min.cobounded1)
  then have "length s - length w < length s" by linarith
  then show "((ws, drop (length w) s), ws, s) \<in> measure (\<lambda>(ws, s). length s)" by simp
qed simp

declare strip.simps [simp del]

definition TrimSpace :: "string \<Rightarrow> string" where
  "TrimSpace s = rev (strip (map rev go_spaces) (rev (strip go_spaces s)))"

section \<open>Case\<close>

definition lower_byte :: "char \<Rightarrow> char" where
  "lower_byte c = (let n = of_char c :: nat in if 65 \<le> n \<and> n \<le> 90 then char_of (n + 32) else c)"

definition upper_byte :: "char \<Rightarrow> char" where
  "upper_byte c = (let n = of_char c :: nat in if 97 \<le> n \<and> n \<le> 122 then char_of (n - 32) else c)"

text \<open>
  \<open>strings.ToLower\<close>, exact on ASCII; other runes are kept, which changes no comparison with a string
  of ASCII letters other than \<open>i\<close> and \<open>k\<close>.
\<close>

definition ToLower :: "string \<Rightarrow> string" where
  "ToLower s = map lower_byte s"

text \<open>
  \<open>foldName\<close> of \<open>encoding/json\<close>: upper case, with the two runes outside ASCII whose folding is an
  ASCII letter, the long s and the Kelvin sign. Other runes are kept, which changes no comparison
  with an ASCII name.
\<close>

fun fold_name :: "string \<Rightarrow> string" where
  "fold_name [] = []"
| "fold_name (c # s) =
     (if starts_with (c # s) (bytes [0xC5, 0xBF]) then CHR ''S'' # fold_name (drop 1 s)
      else if starts_with (c # s) (bytes [0xE2, 0x84, 0xAA]) then CHR ''K'' # fold_name (drop 2 s)
      else upper_byte c # fold_name s)"

section \<open>Facts\<close>

definition no_leading :: "string list \<Rightarrow> string \<Rightarrow> bool" where
  "no_leading ws s \<longleftrightarrow> (\<forall>w \<in> set ws. w \<noteq> [] \<longrightarrow> \<not> starts_with s w)"

lemma find_leading_None: "find (\<lambda>w. w \<noteq> [] \<and> starts_with s w) ws = None \<longleftrightarrow> no_leading ws s"
  by (auto simp: find_None_iff no_leading_def)

lemma strip_no_leading: "no_leading ws (strip ws s)"
proof (induction ws s rule: strip.induct)
  case (1 ws s)
  then show ?case
    by (subst strip.simps) (auto simp: find_leading_None split: option.split)
qed

lemma strip_id: "no_leading ws s \<Longrightarrow> strip ws s = s"
  by (subst strip.simps) (simp add: find_leading_None [symmetric])

lemma strip_suffix: "\<exists>p. s = p @ strip ws s"
proof (induction ws s rule: strip.induct)
  case (1 ws s)
  show ?case
  proof (cases "find (\<lambda>w. w \<noteq> [] \<and> starts_with s w) ws")
    case None
    then show ?thesis by (subst strip.simps) simp
  next
    case (Some w)
    with 1 obtain p where "drop (length w) s = p @ strip ws (drop (length w) s)" by blast
    then have "s = (take (length w) s @ p) @ strip ws (drop (length w) s)"
      by (metis append.assoc append_take_drop_id)
    moreover have "strip ws s = strip ws (drop (length w) s)"
      using Some by (subst strip.simps) simp
    ultimately show ?thesis by metis
  qed
qed

lemma no_leading_prefix:
  assumes "no_leading ws (p @ q)" "\<And>w. w \<in> set ws \<Longrightarrow> \<not> starts_with p w \<or> starts_with (p @ q) w"
  shows "no_leading ws p"
  using assms by (auto simp: no_leading_def)

lemma starts_with_append: "starts_with p w \<Longrightarrow> starts_with (p @ q) w"
  by (metis append.assoc append_take_drop_id append_eq_conv_conj starts_with_def)

lemma TrimSpace_ends:
  "no_leading go_spaces (TrimSpace s)" "no_leading (map rev go_spaces) (rev (TrimSpace s))"
proof -
  let ?l = "strip go_spaces s"
  obtain p where "rev ?l = p @ strip (map rev go_spaces) (rev ?l)" using strip_suffix by blast
  then have "?l = TrimSpace s @ rev p" by (metis TrimSpace_def rev_append rev_rev_ident)
  moreover have "no_leading go_spaces ?l" by (rule strip_no_leading)
  ultimately show "no_leading go_spaces (TrimSpace s)"
    using starts_with_append by (auto simp: no_leading_def)
  show "no_leading (map rev go_spaces) (rev (TrimSpace s))"
    by (simp add: TrimSpace_def strip_no_leading)
qed

lemma TrimSpace_idem [simp]: "TrimSpace (TrimSpace s) = TrimSpace s"
  unfolding TrimSpace_def [of "TrimSpace s"] by (simp add: strip_id TrimSpace_ends)

lemma TrimSpace_infix: "\<exists>p q. s = p @ TrimSpace s @ q"
proof -
  let ?l = "strip go_spaces s"
  obtain p where p: "s = p @ ?l" using strip_suffix by blast
  obtain q where "rev ?l = q @ strip (map rev go_spaces) (rev ?l)" using strip_suffix by blast
  then have "?l = TrimSpace s @ rev q" by (metis TrimSpace_def rev_append rev_rev_ident)
  with p show ?thesis by (metis append.assoc)
qed

lemma TrimSpace_length: "length (TrimSpace s) \<le> length s"
proof -
  obtain p q where "s = p @ TrimSpace s @ q" using TrimSpace_infix by blast
  then have "length s = length (p @ TrimSpace s @ q)" by simp
  then show ?thesis by simp
qed

lemma TrimSpace_Nil [simp]: "TrimSpace [] = []"
  using TrimSpace_length [of "[]"] by simp

end
