(* ===== verification/GoJson.thy ===== *)
theory GoJson
  imports GoStrings
begin

text \<open>
  \<open>encoding/json\<close> at the level of values: a JSON document is a tree, whose strings are byte
  sequences in UTF-8. A text that is no JSON document is no tree (\<open>None\<close>). \<open>JTime\<close> is the text
  \<open>time.Time\<close> marshals to, which no decoded type of the code reads. Decoding into a struct follows
  \<open>Unmarshal\<close>: names match without regard to case, unknown names are skipped, a later value of a
  name overwrites an earlier one, \<open>null\<close> leaves a string as it was and empties a slice, and a value of
  another kind is an error.
\<close>

datatype json =
    JNull
  | JBool bool
  | JNumber rat
  | JString string
  | JTime Time
  | JArray "json list"
  | JObject "(string \<times> json) list"

text \<open>The field of a name tagged \<open>omitempty\<close>.\<close>

definition omit_empty :: "string \<Rightarrow> string \<Rightarrow> (string \<times> json) list" where
  "omit_empty name s = (if s = '''' then [] else [(name, JString s)])"

definition name_matches :: "string \<Rightarrow> string \<Rightarrow> bool" where
  "name_matches name key \<longleftrightarrow> key = name \<or> fold_name key = fold_name name"

fun decode_string :: "json \<Rightarrow> string \<Rightarrow> string option" where
  "decode_string JNull old = Some old"
| "decode_string (JString s) old = Some s"
| "decode_string _ old = None"

text \<open>
  A slice under decoding: its elements and what its array holds behind them, from an earlier and
  longer value of the same name. An element that is \<open>null\<close> shows what the array held.
\<close>

type_synonym string_slice = "string list \<times> string list"

fun decode_elements :: "json list \<Rightarrow> string list \<Rightarrow> string list option" where
  "decode_elements [] old = Some []"
| "decode_elements (j # js) old =
     (case decode_string j (case old of [] \<Rightarrow> '''' | x # _ \<Rightarrow> x) of
        None \<Rightarrow> None
      | Some s \<Rightarrow> map_option ((#) s) (decode_elements js (tl old)))"

fun decode_strings :: "json \<Rightarrow> string_slice \<Rightarrow> string_slice option" where
  "decode_strings JNull _ = Some ([], [])"
| "decode_strings (JArray js) (xs, rest) =
     (if js = [] then Some ([], [])
      else map_option (\<lambda>ys. (ys, drop (length js) (xs @ rest))) (decode_elements js (xs @ rest)))"
| "decode_strings _ _ = None"

text \<open>Decoding an object, one name at a time.\<close>

definition decode_object ::
  "(string \<Rightarrow> json \<Rightarrow> 'a \<Rightarrow> 'a option) \<Rightarrow> json \<Rightarrow> 'a \<Rightarrow> 'a option" where
  "decode_object field j v =
     (case j of
        JNull \<Rightarrow> Some v
      | JObject kvs \<Rightarrow> fold (\<lambda>(k, x) acc. Option.bind acc (field k x)) kvs (Some v)
      | _ \<Rightarrow> None)"

section \<open>Facts\<close>

lemma decode_elements_strings [simp]: "decode_elements (map JString xs) old = Some xs"
  by (induction xs arbitrary: old) auto

lemma decode_strings_array [simp]:
  "decode_strings (JArray (map JString xs)) ([], []) = Some (xs, [])"
  by simp

lemma decode_elements_length: "decode_elements js old = Some ys \<Longrightarrow> length ys = length js"
  by (induction js arbitrary: old ys) (auto split: option.splits)

lemma fold_bind_None [simp]: "fold (\<lambda>(k, x) acc. Option.bind acc (f k x)) kvs None = None"
  by (induction kvs) auto

lemma decode_object_Cons:
  "decode_object f (JObject ((k, x) # kvs)) v = Option.bind (f k x v) (decode_object f (JObject kvs))"
  by (cases "f k x v") (simp_all add: decode_object_def)

lemma decode_object_simps [simp]:
  "decode_object f JNull v = Some v" "decode_object f (JObject []) v = Some v"
  by (simp_all add: decode_object_def)

lemma name_matches_refl [simp]: "name_matches n n"
  by (simp add: name_matches_def)

end
