(* ===== verification/ContractsState.thy ===== *)
theory ContractsState
  imports ContractsErrors GoJson
begin

text \<open>
  \<open>internal/contracts/content.go\<close>, \<open>state.go\<close> and \<open>publish.go\<close>: the content and publish-task
  status machines as the code's transition tables, and the domain records. A status is one of
  the named constants or (\<open>OtherContentStatus\<close>, \<open>OtherTaskStatus\<close>) a Go string that is none of
  them. The reachability relations of the two tables and their facts follow.
\<close>

section \<open>Content\<close>

datatype ContentStatus =
    ContentStatusDraft
  | ContentStatusReady
  | ContentStatusPublishing
  | ContentStatusPublished
  | ContentStatusPartiallyPublished
  | ContentStatusFailed
  | ContentStatusArchived
  | OtherContentStatus string

fun ContentStatus_string :: "ContentStatus \<Rightarrow> string" where
  "ContentStatus_string ContentStatusDraft = ''draft''"
| "ContentStatus_string ContentStatusReady = ''ready''"
| "ContentStatus_string ContentStatusPublishing = ''publishing''"
| "ContentStatus_string ContentStatusPublished = ''published''"
| "ContentStatus_string ContentStatusPartiallyPublished = ''partially_published''"
| "ContentStatus_string ContentStatusFailed = ''failed''"
| "ContentStatus_string ContentStatusArchived = ''archived''"
| "ContentStatus_string (OtherContentStatus s) = s"

fun ContentStatus_ValidTransitions :: "ContentStatus \<Rightarrow> ContentStatus list" where
  "ContentStatus_ValidTransitions ContentStatusDraft = [ContentStatusReady]"
| "ContentStatus_ValidTransitions ContentStatusReady = [ContentStatusPublishing]"
| "ContentStatus_ValidTransitions ContentStatusPublishing =
     [ContentStatusPublished, ContentStatusPartiallyPublished, ContentStatusFailed]"
| "ContentStatus_ValidTransitions ContentStatusPartiallyPublished =
     [ContentStatusPublishing, ContentStatusArchived]"
| "ContentStatus_ValidTransitions ContentStatusPublished = [ContentStatusArchived]"
| "ContentStatus_ValidTransitions ContentStatusFailed = [ContentStatusDraft]"
| "ContentStatus_ValidTransitions _ = []"

definition ContentStatus_CanTransitionTo :: "ContentStatus \<Rightarrow> ContentStatus \<Rightarrow> bool" where
  "ContentStatus_CanTransitionTo s target =
     list_ex (\<lambda>valid. valid = target) (ContentStatus_ValidTransitions s)"

definition ContentStatus_IsTerminal :: "ContentStatus \<Rightarrow> bool" where
  "ContentStatus_IsTerminal s \<longleftrightarrow> s = ContentStatusArchived"

text \<open>
  \<open>map[string]any\<close> metadata: no code of the repository builds or inspects such a value, it is
  only carried along, so a value is its JSON form.
\<close>

type_synonym Metadata = "(string \<times> json) list"

record Content =
  ct_id :: string
  ct_title :: string
  ct_body :: string
  ct_tags :: "string list"
  ct_status :: ContentStatus
  ct_metadata :: Metadata
  ct_created_at :: Time
  ct_updated_at :: Time

section \<open>Publish tasks\<close>

datatype PublishTaskStatus =
    PublishTaskStatusPending
  | PublishTaskStatusProcessing
  | PublishTaskStatusSucceeded
  | PublishTaskStatusFailed
  | PublishTaskStatusRetrying
  | PublishTaskStatusDead
  | PublishTaskStatusCancelled
  | OtherTaskStatus string

fun PublishTaskStatus_string :: "PublishTaskStatus \<Rightarrow> string" where
  "PublishTaskStatus_string PublishTaskStatusPending = ''pending''"
| "PublishTaskStatus_string PublishTaskStatusProcessing = ''processing''"
| "PublishTaskStatus_string PublishTaskStatusSucceeded = ''succeeded''"
| "PublishTaskStatus_string PublishTaskStatusFailed = ''failed''"
| "PublishTaskStatus_string PublishTaskStatusRetrying = ''retrying''"
| "PublishTaskStatus_string PublishTaskStatusDead = ''dead''"
| "PublishTaskStatus_string PublishTaskStatusCancelled = ''cancelled''"
| "PublishTaskStatus_string (OtherTaskStatus s) = s"

fun PublishTaskStatus_ValidTransitions :: "PublishTaskStatus \<Rightarrow> PublishTaskStatus list" where
  "PublishTaskStatus_ValidTransitions PublishTaskStatusPending =
     [PublishTaskStatusProcessing, PublishTaskStatusCancelled]"
| "PublishTaskStatus_ValidTransitions PublishTaskStatusProcessing =
     [PublishTaskStatusSucceeded, PublishTaskStatusFailed, PublishTaskStatusRetrying]"
| "PublishTaskStatus_ValidTransitions PublishTaskStatusRetrying =
     [PublishTaskStatusProcessing, PublishTaskStatusDead]"
| "PublishTaskStatus_ValidTransitions _ = []"

definition PublishTaskStatus_CanTransitionTo :: "PublishTaskStatus \<Rightarrow> PublishTaskStatus \<Rightarrow> bool" where
  "PublishTaskStatus_CanTransitionTo s target =
     list_ex (\<lambda>valid. valid = target) (PublishTaskStatus_ValidTransitions s)"

definition PublishTaskStatus_IsTerminal :: "PublishTaskStatus \<Rightarrow> bool" where
  "PublishTaskStatus_IsTerminal s \<longleftrightarrow>
     s = PublishTaskStatusSucceeded \<or> s = PublishTaskStatusFailed \<or>
     s = PublishTaskStatusDead \<or> s = PublishTaskStatusCancelled"

definition PublishTaskStatus_IsActive :: "PublishTaskStatus \<Rightarrow> bool" where
  "PublishTaskStatus_IsActive s \<longleftrightarrow>
     s = PublishTaskStatusPending \<or> s = PublishTaskStatusProcessing \<or>
     s = PublishTaskStatusRetrying"

record PublishIntent =
  pi_content_id :: string
  pi_platforms :: "string list"

record TaskStatus =
  ts_task_id :: string
  ts_platform :: string
  ts_status :: PublishTaskStatus
  ts_platform_post_id :: string
  ts_platform_url :: string
  ts_error :: string
  ts_created_at :: Time
  ts_updated_at :: Time

record PublishStatus =
  ps_content_id :: string
  ps_status :: ContentStatus
  ps_tasks :: "TaskStatus list"

record PublishBatchResponse =
  pb_content_id :: string
  pb_tasks :: "TaskStatus list"

section \<open>The transition relations\<close>

inductive content_step :: "ContentStatus \<Rightarrow> ContentStatus \<Rightarrow> bool" where
  "ContentStatus_CanTransitionTo s t \<Longrightarrow> content_step s t"

inductive task_step :: "PublishTaskStatus \<Rightarrow> PublishTaskStatus \<Rightarrow> bool" where
  "PublishTaskStatus_CanTransitionTo s t \<Longrightarrow> task_step s t"

inductive_simps content_step_iff [simp]: "content_step s t"
inductive_simps task_step_iff [simp]: "task_step s t"

text \<open>The named constants, as opposed to other strings.\<close>

definition named_content_status :: "ContentStatus \<Rightarrow> bool" where
  "named_content_status s \<longleftrightarrow> (case s of OtherContentStatus _ \<Rightarrow> False | _ \<Rightarrow> True)"

definition named_task_status :: "PublishTaskStatus \<Rightarrow> bool" where
  "named_task_status s \<longleftrightarrow> (case s of OtherTaskStatus _ \<Rightarrow> False | _ \<Rightarrow> True)"

section \<open>Facts about the content machine\<close>

lemma content_can_iff:
  "ContentStatus_CanTransitionTo s t \<longleftrightarrow> t \<in> set (ContentStatus_ValidTransitions s)"
  by (auto simp: ContentStatus_CanTransitionTo_def list_ex_iff)

lemma task_can_iff:
  "PublishTaskStatus_CanTransitionTo s t \<longleftrightarrow> t \<in> set (PublishTaskStatus_ValidTransitions s)"
  by (auto simp: PublishTaskStatus_CanTransitionTo_def list_ex_iff)

lemma to_publishing_iff [simp]:
  "ContentStatus_CanTransitionTo s ContentStatusPublishing \<longleftrightarrow>
     s = ContentStatusReady \<or> s = ContentStatusPartiallyPublished"
  by (cases s) (simp_all add: content_can_iff)

lemma from_publishing_iff [simp]:
  "ContentStatus_CanTransitionTo ContentStatusPublishing t \<longleftrightarrow>
     t = ContentStatusPublished \<or> t = ContentStatusPartiallyPublished \<or> t = ContentStatusFailed"
  by (simp add: content_can_iff)

lemma content_step_published: "content_step\<^sup>*\<^sup>* ContentStatusPublishing ContentStatusArchived"
proof -
  have "content_step ContentStatusPublishing ContentStatusPublished"
    and "content_step ContentStatusPublished ContentStatusArchived"
    by (simp_all add: content_can_iff)
  then show ?thesis by (meson converse_rtranclp_into_rtranclp rtranclp.rtrancl_refl)
qed

lemma content_steps_to_publishing:
  "content_step ContentStatusDraft ContentStatusReady"
  "content_step ContentStatusReady ContentStatusPublishing"
  "content_step ContentStatusFailed ContentStatusDraft"
  "content_step ContentStatusPartiallyPublished ContentStatusPublishing"
  "content_step ContentStatusPublished ContentStatusArchived"
  by (simp_all add: content_can_iff)

lemma named_content_reaches_archived:
  "named_content_status s \<Longrightarrow> content_step\<^sup>*\<^sup>* s ContentStatusArchived"
proof -
  note steps = content_steps_to_publishing and pub = content_step_published
  have ready: "content_step\<^sup>*\<^sup>* ContentStatusReady ContentStatusArchived"
    by (rule converse_rtranclp_into_rtranclp [OF steps(2) pub])
  have draft: "content_step\<^sup>*\<^sup>* ContentStatusDraft ContentStatusArchived"
    by (rule converse_rtranclp_into_rtranclp [OF steps(1) ready])
  assume "named_content_status s"
  then show ?thesis
    using ready draft pub converse_rtranclp_into_rtranclp [OF steps(3) draft]
      converse_rtranclp_into_rtranclp [OF steps(4) pub] r_into_rtranclp [where r = content_step, OF steps(5)]
    by (cases s) (auto simp: named_content_status_def)
qed

lemma content_other_stuck: "content_step\<^sup>*\<^sup>* (OtherContentStatus x) t \<Longrightarrow> t = OtherContentStatus x"
  by (erule converse_rtranclpE) (auto simp: content_can_iff)

text \<open>
  C25. Content life cycle (\<open>ContentStatus.ValidTransitions\<close>, \<open>IsTerminal\<close>): archived is the only
  named status with no way out, and it can be reached from every named status (so no content is
  trapped in \<open>failed\<close> or \<open>partially_published\<close>); a string outside the seven constants can
  neither move nor reach it.
\<close>

theorem content_lifecycle:
  "(ContentStatus_IsTerminal s \<longleftrightarrow> named_content_status s \<and> (\<nexists>t. content_step s t)) \<and>
   (content_step\<^sup>*\<^sup>* s ContentStatusArchived \<longleftrightarrow> named_content_status s)"
proof
  have "(\<nexists>t. content_step s t) \<longleftrightarrow> ContentStatus_ValidTransitions s = []"
    by (cases "ContentStatus_ValidTransitions s") (auto simp: content_can_iff)
  then show "ContentStatus_IsTerminal s \<longleftrightarrow> named_content_status s \<and> (\<nexists>t. content_step s t)"
    by (cases s) (auto simp: ContentStatus_IsTerminal_def named_content_status_def)
  show "content_step\<^sup>*\<^sup>* s ContentStatusArchived \<longleftrightarrow> named_content_status s"
  proof (cases s)
    case (OtherContentStatus x)
    then show ?thesis
      using content_other_stuck [of x ContentStatusArchived]
      by (auto simp: named_content_status_def)
  qed (use named_content_reaches_archived in \<open>auto simp: named_content_status_def\<close>)
qed

section \<open>Facts about the task machine\<close>

lemma task_step_table:
  "task_step s PublishTaskStatusProcessing \<longleftrightarrow>
     s = PublishTaskStatusPending \<or> s = PublishTaskStatusRetrying"
  "task_step s PublishTaskStatusSucceeded \<longleftrightarrow> s = PublishTaskStatusProcessing"
  "task_step s PublishTaskStatusFailed \<longleftrightarrow> s = PublishTaskStatusProcessing"
  "task_step s PublishTaskStatusRetrying \<longleftrightarrow> s = PublishTaskStatusProcessing"
  "task_step s PublishTaskStatusDead \<longleftrightarrow> s = PublishTaskStatusRetrying"
  "task_step s PublishTaskStatusCancelled \<longleftrightarrow> s = PublishTaskStatusPending"
  "\<not> task_step s PublishTaskStatusPending"
  "\<not> task_step s (OtherTaskStatus x)"
  by (cases s; simp add: task_can_iff)+

lemma task_step_from:
  "task_step s t \<Longrightarrow>
     s = PublishTaskStatusPending \<or> s = PublishTaskStatusProcessing \<or> s = PublishTaskStatusRetrying"
  by (cases s) (auto simp: task_can_iff)

lemma task_terminal_stuck:
  assumes "PublishTaskStatus_IsTerminal s"
  shows "task_step\<^sup>*\<^sup>* s t \<longleftrightarrow> t = s"
proof
  have "\<not> task_step s u" for u
    using task_step_from [of s u] assms by (auto simp: PublishTaskStatus_IsTerminal_def)
  then show "task_step\<^sup>*\<^sup>* s t \<Longrightarrow> t = s"
    by (blast elim: converse_rtranclpE)
qed simp

text \<open>
  C26. Task life cycle (\<open>PublishTaskStatus.ValidTransitions\<close>, \<open>IsTerminal\<close>, \<open>IsActive\<close>): the active
  statuses are exactly those with a successor, the terminal ones exactly the named ones without,
  a terminal status stays what it is along every run, and the only way to die is from
  \<open>retrying\<close>, the only way to succeed or fail from \<open>processing\<close>.
\<close>

theorem task_lifecycle:
  "(PublishTaskStatus_IsActive s \<longleftrightarrow> (\<exists>t. task_step s t)) \<and>
   (PublishTaskStatus_IsTerminal s \<longleftrightarrow> named_task_status s \<and> (\<nexists>t. task_step s t)) \<and>
   (PublishTaskStatus_IsTerminal s \<longrightarrow> {t. task_step\<^sup>*\<^sup>* s t} = {s}) \<and>
   (task_step s PublishTaskStatusDead \<longleftrightarrow> s = PublishTaskStatusRetrying) \<and>
   (task_step s PublishTaskStatusSucceeded \<longleftrightarrow> s = PublishTaskStatusProcessing) \<and>
   (task_step s PublishTaskStatusFailed \<longleftrightarrow> s = PublishTaskStatusProcessing)"
proof (intro conjI)
  have ex: "(\<exists>t. task_step s t) \<longleftrightarrow> PublishTaskStatus_ValidTransitions s \<noteq> []"
    by (cases "PublishTaskStatus_ValidTransitions s") (auto simp: task_can_iff)
  show "PublishTaskStatus_IsActive s \<longleftrightarrow> (\<exists>t. task_step s t)"
    unfolding ex by (cases s) (simp_all add: PublishTaskStatus_IsActive_def)
  show "PublishTaskStatus_IsTerminal s \<longleftrightarrow> named_task_status s \<and> (\<nexists>t. task_step s t)"
    unfolding ex by (cases s) (simp_all add: PublishTaskStatus_IsTerminal_def named_task_status_def)
  show "PublishTaskStatus_IsTerminal s \<longrightarrow> {t. task_step\<^sup>*\<^sup>* s t} = {s}"
    by (simp add: task_terminal_stuck)
qed (fact task_step_table)+

theorem task_lifecycle_witness:
  "{t. task_step\<^sup>*\<^sup>* PublishTaskStatusDead t} = {PublishTaskStatusDead}"
  using task_lifecycle [of PublishTaskStatusDead] by (simp add: PublishTaskStatus_IsTerminal_def)

end
