(* ===== verification/ContractsPolicy.thy ===== *)
theory ContractsPolicy
  imports GoFloat ContractsState
begin

text \<open>
  \<open>internal/contracts/policy.go\<close> and the task records of \<open>publish.go\<close>: the retry policy with its
  validation and backoff computation on \<open>float64\<close>, and idempotency keys with their validation.
\<close>

section \<open>Retry policy\<close>

record RetryPolicy =
  rp_max_retries :: int
  rp_initial_delay :: Duration
  rp_max_delay :: Duration
  rp_multiplier :: f64
  rp_jitter :: bool

abbreviation Second :: Duration where "Second \<equiv> 1000000000"
abbreviation Minute :: Duration where "Minute \<equiv> 60000000000"
abbreviation Hour :: Duration where "Hour \<equiv> 3600000000000"

definition DefaultRetryPolicy :: RetryPolicy where
  "DefaultRetryPolicy =
     \<lparr>rp_max_retries = 3, rp_initial_delay = 1 * Second, rp_max_delay = 5 * Minute,
      rp_multiplier = Fin 2, rp_jitter = True\<rparr>"

definition RetryPolicy_Validate :: "RetryPolicy \<Rightarrow> go_error option" where
  "RetryPolicy_Validate p =
     (if rp_max_retries p < 0 then
        Some (Errorf (''max_retries must be >= 0, got '' @ itoa (rp_max_retries p)))
      else if rp_initial_delay p < 0 then
        Some (Errorf (''initial_delay must be >= 0, got '' @ Duration_String (rp_initial_delay p)))
      else if rp_max_delay p < 0 then
        Some (Errorf (''max_delay must be >= 0, got '' @ Duration_String (rp_max_delay p)))
      else if f64_less (rp_multiplier p) (Fin 1) then
        Some (Errorf (''multiplier must be >= 1.0, got '' @ fmt_f (rp_multiplier p)))
      else if rp_max_delay p > 0 \<and> rp_initial_delay p > rp_max_delay p then
        Some (Errorf (''initial_delay ('' @ Duration_String (rp_initial_delay p) @
          '') must be <= max_delay ('' @ Duration_String (rp_max_delay p) @ '')''))
      else None)"

text \<open>
  \<open>CalculateBackoff\<close>, in its three steps: the exponential delay, the cap (which compares the
  delay after its conversion to a duration), the jitter (which draws a random float).
\<close>

definition exponential_delay :: "'a env_scheme \<Rightarrow> RetryPolicy \<Rightarrow> int \<Rightarrow> f64" where
  "exponential_delay e p attempt =
     (let attempt = (if attempt < 0 then 0 else attempt)
      in f64_mul (f64_of_int (rp_initial_delay p))
                 (math_pow e (rp_multiplier p) (f64_of_int attempt)))"

definition backoff_delay :: "'a env_scheme \<Rightarrow> RetryPolicy \<Rightarrow> int \<Rightarrow> f64" where
  "backoff_delay e p attempt =
     (let delay = exponential_delay e p attempt
      in if rp_max_delay p > 0 \<and> f64_to_int64 e delay > rp_max_delay p
         then f64_of_int (rp_max_delay p) else delay)"

definition add_jitter :: "f64 \<Rightarrow> rat \<Rightarrow> f64" where
  "add_jitter delay u =
     (let jitter = f64_mul (f64_mul delay (Fin (1 / 4))) (Fin u) in f64_add delay jitter)"

definition CalculateBackoff :: "RetryPolicy \<Rightarrow> int \<Rightarrow> ('a env_scheme, Duration) state" where
  "CalculateBackoff p attempt = do {
     e \<leftarrow> gets (\<lambda>e. e);
     let delay = backoff_delay e p attempt;
     if rp_jitter p then do {
       u \<leftarrow> rand_Float64;
       ret (f64_to_int64 e (add_jitter delay u))
     } else ret (f64_to_int64 e delay)
   }"

section \<open>Publish tasks and attempts\<close>

record PublishTask =
  pt_id :: string
  pt_content_id :: string
  pt_platform :: string
  pt_status :: PublishTaskStatus
  pt_retry_policy :: RetryPolicy
  pt_attempt_count :: int
  pt_error :: string
  pt_created_at :: Time
  pt_updated_at :: Time

record PublishAttempt =
  pa_id :: string
  pa_task_id :: string
  pa_attempt_number :: int
  pa_status :: PublishTaskStatus
  pa_error :: string
  pa_started_at :: Time
  pa_completed_at :: "Time option"

record PublishResult =
  pr_platform_post_id :: string
  pr_platform_url :: string
  pr_published_at :: Time
  pr_response :: string

section \<open>Idempotency keys\<close>

datatype IdempotencyKeyScope =
    IdempotencyScopeTask
  | IdempotencyScopeAttempt
  | IdempotencyScopeResult
  | OtherIdempotencyScope string

fun scope_string :: "IdempotencyKeyScope \<Rightarrow> string" where
  "scope_string IdempotencyScopeTask = ''task''"
| "scope_string IdempotencyScopeAttempt = ''attempt''"
| "scope_string IdempotencyScopeResult = ''result''"
| "scope_string (OtherIdempotencyScope s) = s"

record IdempotencyKey =
  ik_key :: string
  ik_scope :: IdempotencyKeyScope
  ik_entity_id :: string
  ik_created_at :: Time
  ik_ttl :: Duration

definition IdempotencyKey_Validate :: "IdempotencyKey \<Rightarrow> go_error option" where
  "IdempotencyKey_Validate k =
     (if ik_key k = '''' then Some (Errorf ''idempotency key must not be empty'')
      else if scope_string (ik_scope k) = '''' then
        Some (Errorf ''idempotency scope must not be empty'')
      else
        (case ik_scope k of
           OtherIdempotencyScope s \<Rightarrow> Some (Errorf (''invalid idempotency scope: '' @ s))
         | _ \<Rightarrow>
             if ik_entity_id k = '''' then Some (Errorf ''entity_id must not be empty'')
             else None))"

section \<open>Facts\<close>

text \<open>What the environment promises of \<open>math/rand.Float64\<close>: a number in \<open>[0, 1)\<close>.\<close>

definition unit_floats :: "'a env_scheme \<Rightarrow> bool" where
  "unit_floats e \<longleftrightarrow> (\<forall>n. 0 \<le> unit_float e n \<and> unit_float e n < 1)"

lemma run_CalculateBackoff:
  "run_state (CalculateBackoff p attempt) e =
     (if rp_jitter p
      then (f64_to_int64 e (add_jitter (backoff_delay e p attempt) (unit_float e (tick e))),
            e\<lparr>tick := Suc (tick e)\<rparr>)
      else (f64_to_int64 e (backoff_delay e p attempt), e))"
  by (simp add: CalculateBackoff_def Let_def)

lemma keeps_CalculateBackoff [keeps_intros]:
  "(\<And>s. I s \<Longrightarrow> I (s\<lparr>tick := Suc (tick s)\<rparr>)) \<Longrightarrow> keeps I (CalculateBackoff p attempt)"
  by (rule keepsI) (simp add: run_CalculateBackoff)

lemma default_policy_valid: "RetryPolicy_Validate DefaultRetryPolicy = None"
  by (simp add: RetryPolicy_Validate_def DefaultRetryPolicy_def)

lemma scope_string_named:
  "scope_string s \<in> {''task'', ''attempt'', ''result''} \<Longrightarrow>
     s \<in> {IdempotencyScopeTask, IdempotencyScopeAttempt, IdempotencyScopeResult} \<or>
     (\<exists>x. s = OtherIdempotencyScope x)"
  by (cases s) auto

section \<open>Bounds on the backoff delay\<close>

text \<open>The delay in whole nanoseconds, cut at \<open>MaxDelay\<close>; no positive \<open>MaxDelay\<close> means no cut.\<close>

definition capped_delay :: "RetryPolicy \<Rightarrow> rat \<Rightarrow> int" where
  "capped_delay p x = (if 0 < rp_max_delay p then min \<lfloor>x\<rfloor> (rp_max_delay p) else \<lfloor>x\<rfloor>)"

lemma capped_delay_nonneg: "0 \<le> x \<Longrightarrow> 0 \<le> capped_delay p x"
  by (simp add: capped_delay_def)

lemma backoff_delay_range:
  assumes M: "capped_delay p x < 2 ^ 50"
    and x: "exponential_delay e p a = Fin x" "0 \<le> x" "int64 (truncate_rat x)"
  shows "\<exists>q. backoff_delay e p a = Fin q \<and> 0 \<le> q \<and> q < of_int (capped_delay p x) + 1 \<and>
           f64_to_int64 e (Fin q) = capped_delay p x"
proof (cases "0 < rp_max_delay p \<and> \<lfloor>x\<rfloor> > rp_max_delay p")
  case True
  then have c: "capped_delay p x = rp_max_delay p" by (simp add: capped_delay_def)
  with True M x have "backoff_delay e p a = Fin (of_int (rp_max_delay p))"
    by (simp add: backoff_delay_def f64_to_int64_def truncate_rat_def f64_of_int_exact)
  with True M c show ?thesis by (simp add: f64_to_int64_def int64_def)
next
  case False
  then have c: "capped_delay p x = \<lfloor>x\<rfloor>" by (auto simp: capped_delay_def)
  have "backoff_delay e p a = Fin x"
    using False x by (auto simp: backoff_delay_def f64_to_int64_def truncate_rat_def)
  with c x show ?thesis by (simp add: f64_to_int64_def truncate_rat_def) linarith
qed

text \<open>Jitter adds at most a quarter of a bound that has a few bits to spare.\<close>

lemma add_jitter_le:
  assumes "0 \<le> q" "q \<le> of_int n" "0 \<le> n" "n < 2 ^ 50" "0 \<le> u" "u < 1"
  shows "\<exists>r. add_jitter (Fin q) u = Fin r \<and> 0 \<le> r \<and> r \<le> of_int (5 * n) / 4"
proof -
  have rep: "f64_round (of_int m / 4) = Fin (of_int m / 4)" if "0 \<le> m" "m \<le> 5 * n" for m
    using f64_round_quarter [of m] that assms(4) by simp
  obtain r1 where r1: "f64_round (q * (1 / 4)) = Fin r1" "0 \<le> r1" "r1 \<le> of_int n / 4"
    using f64_round_le [OF _ _ rep [of n], of "q * (1 / 4)"] assms by auto
  have "r1 * u \<le> r1" using r1(2) assms(5,6) by (simp add: mult_left_le)
  then obtain r2 where r2: "f64_round (r1 * u) = Fin r2" "0 \<le> r2" "r2 \<le> of_int n / 4"
    using f64_round_le [OF _ _ rep [of n], of "r1 * u"] r1 assms by auto
  have "q + r2 \<le> of_int (5 * n) / 4" using assms(2) r2(3) by simp
  then obtain r3 where "f64_round (q + r2) = Fin r3" "0 \<le> r3" "r3 \<le> of_int (5 * n) / 4"
    using f64_round_le [OF _ _ rep [of "5 * n"], of "q + r2"] r2 assms by auto
  with r1 r2 show ?thesis by (simp add: add_jitter_def)
qed

lemma add_jitter_ge:
  assumes "0 < n" "f64_round (of_int n) = Fin (of_int n)" "0 \<le> u" "u < 1"
    and "add_jitter (Fin (of_int n)) u = Fin r"
  shows "of_int n \<le> r"
proof -
  let ?q = "of_int n :: rat"
  obtain r1 r2 where r1: "f64_round (?q * (1 / 4)) = Fin r1" and r2: "f64_round (r1 * u) = Fin r2"
    and r: "f64_round (?q + r2) = Fin r"
    using assms(5) f64_add_finD [of ?q] f64_mul_finD
    by (fastforce simp: add_jitter_def Let_def)
  have "0 \<le> r1" using f64_round_nonneg [OF _ r1] assms(1) by simp
  then have "0 \<le> r2" using f64_round_nonneg [OF _ r2] assms(3) by simp
  then show ?thesis using f64_round_ge [OF _ _ assms(2) r] assms(1) by simp
qed

lemma int64_floor:
  assumes "0 \<le> r" "r \<le> of_int (5 * n) / 4" "n < 2 ^ 50"
  shows "f64_to_int64 e (Fin r) = \<lfloor>r\<rfloor>" and "0 \<le> \<lfloor>r\<rfloor>" and "4 * \<lfloor>r\<rfloor> \<le> 5 * n"
proof -
  have "of_int \<lfloor>r\<rfloor> \<le> r" by simp
  then have "4 * of_int \<lfloor>r\<rfloor> \<le> 4 * r" by simp
  also have "\<dots> \<le> of_int (5 * n)" using assms(2) by simp
  finally have "(of_int (4 * \<lfloor>r\<rfloor>) :: rat) \<le> of_int (5 * n)" by simp
  then show le: "4 * \<lfloor>r\<rfloor> \<le> 5 * n" by (simp only: of_int_le_iff)
  show "0 \<le> \<lfloor>r\<rfloor>" using assms(1) by simp
  with le assms show "f64_to_int64 e (Fin r) = \<lfloor>r\<rfloor>"
    by (simp add: f64_to_int64_def truncate_rat_def int64_def)
qed

text \<open>
  C27. Backoff bound (\<open>RetryPolicy.CalculateBackoff\<close>): let the exponential delay be a non-negative number that
  fits a \<open>time.Duration\<close>, and its whole nanoseconds, cut at \<open>MaxDelay\<close> where that is positive and not cut
  otherwise, be below \<open>2^50 - 1\<close> (13 days). Then the returned delay is never negative, it is exactly the
  cut delay without jitter, and with jitter at most a quarter more than the cut delay plus a
  nanosecond, whatever the attempt, the random float and the rounding of \<open>float64\<close>.
\<close>

theorem backoff_bounded:
  assumes "exponential_delay e p attempt = Fin x" "0 \<le> x" "int64 (truncate_rat x)"
    and "capped_delay p x < 2 ^ 50 - 1" and "unit_floats e"
  shows "0 \<le> res (CalculateBackoff p attempt) e \<and>
         4 * res (CalculateBackoff p attempt) e \<le> 5 * (capped_delay p x + 1) \<and>
         (rp_jitter p \<or> res (CalculateBackoff p attempt) e = capped_delay p x)"
proof -
  let ?c = "capped_delay p x"
  obtain q where q: "backoff_delay e p attempt = Fin q" "0 \<le> q" "q < of_int ?c + 1"
    "f64_to_int64 e (Fin q) = ?c"
    using backoff_delay_range [of p x e attempt] assms by auto
  have c: "0 \<le> ?c" using assms(2) by (rule capped_delay_nonneg)
  show ?thesis
  proof (cases "rp_jitter p")
    case False
    with q c show ?thesis by (simp add: run_CalculateBackoff)
  next
    case True
    let ?u = "unit_float e (tick e)"
    have u: "0 \<le> ?u" "?u < 1" using assms(5) by (simp_all add: unit_floats_def)
    have "q \<le> of_int (?c + 1)" using q(3) by simp
    from add_jitter_le [OF q(2) this _ _ u] assms(4) c obtain r where
      r: "add_jitter (Fin q) ?u = Fin r" "0 \<le> r" "r \<le> of_int (5 * (?c + 1)) / 4"
      by auto
    have "?c + 1 < 2 ^ 50" using assms(4) by simp
    note fl = int64_floor [OF r(2,3) this]
    from True q(1) r(1) fl(1) have "res (CalculateBackoff p attempt) e = \<lfloor>r\<rfloor>"
      by (simp add: run_CalculateBackoff)
    with fl(2,3) True show ?thesis by simp
  qed
qed

lemma default_exponential_delay:
  assumes "math_pow e (Fin 2) (Fin (of_nat k)) = Fin (2 ^ k)" "k \<le> 800"
  shows "exponential_delay e DefaultRetryPolicy (int k) = Fin (1000000000 * 2 ^ k)"
proof -
  have "f64_of_int (int k) = Fin (of_nat k)"
    using f64_of_int_exact [of "int k"] assms(2) by simp
  moreover have "f64_of_int 1000000000 = Fin 1000000000"
    using f64_of_int_exact [of 1000000000] by simp
  moreover have "f64_round (1000000000 * 2 ^ k) = Fin (1000000000 * 2 ^ k)"
    using f64_round_nat_power [of 1000000000 k] assms(2) by simp
  ultimately show ?thesis
    using assms(1) by (simp add: exponential_delay_def DefaultRetryPolicy_def)
qed

lemma default_exponential_env0:
  "k \<le> 800 \<Longrightarrow> exponential_delay env0 DefaultRetryPolicy (int k) = Fin (1000000000 * 2 ^ k)"
  by (rule default_exponential_delay) (simp_all add: env0_def)

theorem backoff_bounded_witness:
  "0 \<le> res (CalculateBackoff DefaultRetryPolicy 0) env0 \<and>
   4 * res (CalculateBackoff DefaultRetryPolicy 0) env0 \<le> 5 * (Second + 1)"
  using backoff_bounded [of env0 DefaultRetryPolicy 0 1000000000] default_exponential_env0 [of 0]
  by (simp add: capped_delay_def DefaultRetryPolicy_def unit_floats_def env0_def int64_def truncate_rat_def)

text \<open>
  C28. The default policy (\<open>DefaultRetryPolicy\<close>, \<open>CalculateBackoff\<close>): where \<open>math.Pow\<close> is exact on
  powers of two, the delay before retry \<open>k\<close> is \<open>min(1s * 2^k, 5m)\<close> plus a jitter of at most a
  quarter of it, for every \<open>k\<close> up to 33 (the policy itself makes only three retries; from
  retry 34 on the conversion of the delay to a \<open>time.Duration\<close> overflows).
  \<open>docs/architecture/error-handling.md\<close> gives this configuration a jitter of 0 to 1 second instead: here
  it is at most a quarter of a second before the first retry and up to 75 seconds at the cap.
\<close>

theorem default_backoff_schedule:
  assumes "math_pow e (Fin 2) (Fin (of_nat k)) = Fin (2 ^ k)" "k \<le> 33" "unit_floats e"
  shows "let base = min (Second * 2 ^ k) (5 * Minute);
             d = res (CalculateBackoff DefaultRetryPolicy (int k)) e
         in base \<le> d \<and> 4 * d \<le> 5 * base"
proof -
  let ?p = DefaultRetryPolicy and ?u = "unit_float e (tick e)"
  let ?x = "1000000000 * 2 ^ k :: rat"
  let ?b = "min (1000000000 * 2 ^ k) 300000000000 :: int"
  have x: "exponential_delay e ?p (int k) = Fin ?x"
    using default_exponential_delay [of e k] assms by simp
  have "(2 :: int) ^ k \<le> 8589934592" using power_increasing [of k 33 "2 :: int"] assms(2) by simp
  moreover have "0 \<le> (2 :: int) ^ k" by simp
  ultimately have "- 9223372036854775808 \<le> 1000000000 * (2 :: int) ^ k"
    and "1000000000 * (2 :: int) ^ k < 9223372036854775808" by linarith+
  then have "int64 (1000000000 * 2 ^ k)" by (simp add: int64_def)
  moreover have xi: "?x = of_int (1000000000 * 2 ^ k)" by simp
  ultimately have fl: "\<lfloor>?x\<rfloor> = 1000000000 * 2 ^ k" "int64 (truncate_rat ?x)"
    unfolding xi truncate_rat_of_int floor_of_int by simp_all
  have b: "0 < ?b" "?b < 2 ^ 50" by auto
  have bd: "backoff_delay e ?p (int k) = Fin (of_int ?b)"
    using x fl f64_of_int_exact [of 300000000000]
    by (auto simp: backoff_delay_def f64_to_int64_def truncate_rat_def DefaultRetryPolicy_def min_def)
  have u: "0 \<le> ?u" "?u < 1" using assms(3) by (simp_all add: unit_floats_def)
  have nn: "(0 :: rat) \<le> of_int ?b" using b(1) by simp
  obtain r where r: "add_jitter (Fin (of_int ?b)) ?u = Fin r" "0 \<le> r" "r \<le> of_int (5 * ?b) / 4"
    using add_jitter_le [OF nn order_refl _ b(2) u] b(1) by auto
  have rep: "f64_round (of_int ?b) = Fin (of_int ?b)"
    by (rule f64_of_int_exact [of ?b, unfolded f64_of_int_def]) (use b in auto)
  have "of_int ?b \<le> r" by (rule add_jitter_ge [OF b(1) rep u r(1)])
  then have ge: "?b \<le> \<lfloor>r\<rfloor>" by (simp only: le_floor_iff)
  have "res (CalculateBackoff ?p (int k)) e = \<lfloor>r\<rfloor>"
    using bd r(1) int64_floor(1) [OF r(2,3) b(2)]
    by (simp add: run_CalculateBackoff DefaultRetryPolicy_def)
  with ge int64_floor(3) [OF r(2,3) b(2)] show ?thesis by (simp add: Let_def)
qed

theorem default_backoff_schedule_witness:
  "4 * res (CalculateBackoff DefaultRetryPolicy (int 2)) env0 \<le> 5 * (4 * Second)"
  using default_backoff_schedule [of env0 2] by (simp add: env0_def unit_floats_def Let_def)

text \<open>
  C29. The cap does not hold for large attempts (\<open>CalculateBackoff\<close>): it is tested after the
  conversion of the delay to a \<open>time.Duration\<close>, so once \<open>1s * 2^k\<close> exceeds 63 bits, from
  retry 34 on, hardware whose out-of-range conversion gives the minimal integer (amd64) skips the
  cap and the default policy returns a negative delay of 292 years.
\<close>

theorem backoff_overflow_negative:
  assumes "math_pow e (Fin 2) (Fin (of_nat k)) = Fin (2 ^ k)" "34 \<le> k" "k \<le> 800"
    and "unit_floats e" "out_of_range e = (\<lambda>_. - (2 ^ 63))"
  shows "res (CalculateBackoff DefaultRetryPolicy (int k)) e = - (2 ^ 63)"
proof -
  let ?p = DefaultRetryPolicy and ?u = "unit_float e (tick e)"
  let ?n = "1000000000 * 2 ^ k :: int"
  have x: "exponential_delay e ?p (int k) = Fin (of_int ?n)"
    using default_exponential_delay [of e k] assms by simp
  have "(2 :: int) ^ 34 \<le> 2 ^ k" using assms(2) by (rule power_increasing) simp
  then have n: "2 ^ 63 \<le> ?n" by simp
  have bd: "backoff_delay e ?p (int k) = Fin (of_int ?n)"
    using n by (simp only: backoff_delay_def Let_def x f64_to_int64_def f64.case
        truncate_rat_of_int int64_def assms(5)) (simp add: DefaultRetryPolicy_def)
  have rep: "f64_round (of_int ?n) = Fin (of_int ?n)"
    using f64_round_nat_power [of 1000000000 k] assms(3) by simp
  have u: "0 \<le> ?u" "?u < 1" using assms(4) by (simp_all add: unit_floats_def)
  have "f64_to_int64 e (add_jitter (Fin (of_int ?n)) ?u) = - (2 ^ 63)"
  proof (cases "add_jitter (Fin (of_int ?n)) ?u")
    case (Fin r)
    have "of_int ?n \<le> r" by (rule add_jitter_ge [OF _ rep u Fin]) simp
    then have "?n \<le> \<lfloor>r\<rfloor>" by (simp only: le_floor_iff)
    moreover have "0 \<le> r" using \<open>of_int ?n \<le> r\<close> by (rule order_trans [rotated]) simp
    ultimately have "2 ^ 63 \<le> truncate_rat r"
      unfolding truncate_rat_def using n by (simp only: not_less [symmetric] if_False)
    with Fin assms(5) show ?thesis by (simp add: f64_to_int64_def int64_def)
  qed (simp_all add: f64_to_int64_def assms(5))
  moreover have "rp_jitter ?p" by (simp add: DefaultRetryPolicy_def)
  ultimately show ?thesis by (simp add: run_CalculateBackoff bd)
qed

theorem backoff_overflow_negative_witness:
  "res (CalculateBackoff DefaultRetryPolicy (int 34)) env0 = - (2 ^ 63)"
  using backoff_overflow_negative [of env0 34] by (simp add: env0_def unit_floats_def)

end
