(* ===== verification/StorageTypes.thy ===== *)
theory StorageTypes
  imports ContractsPolicy
begin

unbundle bit_operations_syntax

text \<open>
  \<open>internal/storage/types.go\<close>, \<open>stores.go\<close>, \<open>idempotency.go\<close> and \<open>tx.go\<close>: pagination, UUID
  generation, the stored records, and the store interfaces. A Go interface is a record of its
  methods over the state \<open>'s\<close> of the program, so code that is written against an interface is a
  function of such a record.
\<close>

section \<open>Pagination\<close>

record Pagination =
  pg_limit :: int
  pg_offset :: int

definition Normalize :: "Pagination \<Rightarrow> Pagination" where
  "Normalize p =
     (let p = (if pg_limit p \<le> 0 then p\<lparr>pg_limit := 20\<rparr> else p);
          p = (if pg_limit p > 100 then p\<lparr>pg_limit := 100\<rparr> else p);
          p = (if pg_offset p < 0 then p\<lparr>pg_offset := 0\<rparr> else p)
      in p)"

record PageResult =
  pgr_total :: int
  pgr_limit :: int
  pgr_offset :: int

section \<open>Stored records and identifiers\<close>

record Asset =
  as_id :: string
  as_content_id :: string
  as_type :: string
  as_url :: string
  as_content_type :: string
  as_size :: int
  as_checksum :: string
  as_created_at :: Time

record PlatformPostRecord =
  pp_id :: string
  pp_task_id :: string
  pp_platform :: string
  pp_platform_post_id :: string
  pp_platform_url :: string
  pp_response :: string

text \<open>\<open>generateID\<close>: sixteen random bytes with the version and variant bits of a UUID v4 set.\<close>

definition uuid_bytes :: "8 word list \<Rightarrow> 8 word list" where
  "uuid_bytes b =
     (let b = b[6 := (b ! 6 AND 0x0f) OR 0x40];
          b = b[8 := (b ! 8 AND 0x3f) OR 0x80]
      in b)"

definition uuid_format :: "8 word list \<Rightarrow> string" where
  "uuid_format b =
     hex_bytes (take 4 b) @ ''-'' @ hex_bytes (take 2 (drop 4 b)) @ ''-'' @
     hex_bytes (take 2 (drop 6 b)) @ ''-'' @ hex_bytes (take 2 (drop 8 b)) @ ''-'' @
     hex_bytes (drop 10 b)"

definition generateID :: "('a env_scheme, string) state" where
  "generateID = do {
     b \<leftarrow> rand_Read 16;
     ret (uuid_format (uuid_bytes b))
   }"

definition nowUTC :: "('a env_scheme, Time) state" where
  "nowUTC = time_Now"

section \<open>Store interfaces\<close>

record 's ContentStore =
  CreateContent :: "string \<Rightarrow> string \<Rightarrow> string list \<Rightarrow> ('s, Content result) state"
  GetContent :: "string \<Rightarrow> ('s, Content result) state"
  ListContent :: "ContentStatus \<Rightarrow> Pagination \<Rightarrow> ('s, (Content list \<times> PageResult) result) state"
  UpdateContent :: "string \<Rightarrow> ContentStatus \<Rightarrow> int \<Rightarrow> ('s, go_error option) state"

record 's PublishTaskStore =
  CreateTask :: "string \<Rightarrow> string \<Rightarrow> ('s, PublishTask result) state"
  GetTask :: "string \<Rightarrow> ('s, PublishTask result) state"
  GetTasksByContent :: "string \<Rightarrow> ('s, PublishTask list result) state"
  GetTaskByContentPlatform :: "string \<Rightarrow> string \<Rightarrow> ('s, PublishTask result) state"
  UpdateTaskStatus :: "string \<Rightarrow> PublishTaskStatus \<Rightarrow> string \<Rightarrow> ('s, go_error option) state"
  IncrementAttemptCount :: "string \<Rightarrow> ('s, go_error option) state"

record 's PublishAttemptStore =
  CreateAttempt :: "string \<Rightarrow> int \<Rightarrow> ('s, PublishAttempt result) state"
  CompleteAttempt :: "string \<Rightarrow> PublishTaskStatus \<Rightarrow> string \<Rightarrow> ('s, go_error option) state"
  GetAttemptsByTask :: "string \<Rightarrow> ('s, PublishAttempt list result) state"

record 's PlatformPostStore =
  CreatePlatformPost ::
    "string \<Rightarrow> string \<Rightarrow> string \<Rightarrow> string \<Rightarrow> string \<Rightarrow> ('s, go_error option) state"
  GetByTask :: "string \<Rightarrow> ('s, PlatformPostRecord result) state"

text \<open>\<open>CreateAsset\<close> fills fields of the asset it is given, which is its first result here.\<close>

record 's AssetStore =
  CreateAsset :: "Asset \<Rightarrow> ('s, Asset \<times> go_error option) state"
  GetAsset :: "string \<Rightarrow> ('s, Asset result) state"
  GetAssetsByContent :: "string \<Rightarrow> ('s, Asset list result) state"

record 's IdempotencyStore =
  Claim :: "IdempotencyKey \<Rightarrow> ('s, bool result) state"
  IdemGet :: "string \<Rightarrow> IdempotencyKeyScope \<Rightarrow> ('s, string result) state"
  Cleanup :: "('s, int result) state"

record 's TxScope =
  txs_content :: "'s ContentStore"
  txs_tasks :: "'s PublishTaskStore"
  txs_attempts :: "'s PublishAttemptStore"
  txs_posts :: "'s PlatformPostStore"
  txs_assets :: "'s AssetStore"

section \<open>Facts about pagination\<close>

lemma Normalize_range:
  "1 \<le> pg_limit (Normalize p)" "pg_limit (Normalize p) \<le> 100" "0 \<le> pg_offset (Normalize p)"
  by (simp_all add: Normalize_def Let_def)

lemma Normalize_id:
  "1 \<le> pg_limit p \<Longrightarrow> pg_limit p \<le> 100 \<Longrightarrow> 0 \<le> pg_offset p \<Longrightarrow> Normalize p = p"
  by (simp add: Normalize_def Let_def)

section \<open>Facts about identifiers\<close>

lemma length_uuid_bytes [simp]: "length (uuid_bytes b) = length b"
  by (simp add: uuid_bytes_def Let_def)

lemma uuid_format_length: "length b = 16 \<Longrightarrow> length (uuid_format b) = 36"
  by (simp add: uuid_format_def)

lemma uuid_format_chars: "set (uuid_format b) \<subseteq> insert (CHR ''-'') (set hex_digits)"
  using set_hex_bytes by (fastforce simp: uuid_format_def)

lemma uuid_no_colon: "CHR '':'' \<notin> set (uuid_format b)"
  using uuid_format_chars [of b] by (auto simp: hex_digits_def)

lemma append_same_length: "u @ s = v @ t \<Longrightarrow> length u = length v \<Longrightarrow> u = v \<and> s = t"
  by simp

lemma split_16:
  fixes xs :: "'b list"
  shows "xs = take 4 xs @ take 2 (drop 4 xs) @ take 2 (drop 6 xs) @ take 2 (drop 8 xs) @ drop 10 xs"
proof -
  have "take 2 (drop n xs) @ drop (n + 2) xs = drop n xs" for n
    by (metis append_take_drop_id drop_drop add.commute)
  from this [of 4] this [of 6] this [of 8] show ?thesis by simp
qed

lemma uuid_format_inject:
  assumes "length a = 16" "length b = 16" "uuid_format a = uuid_format b"
  shows "a = b"
proof -
  have h1: "hex_bytes (take 4 a) = hex_bytes (take 4 b)" and
    r1: "hex_bytes (take 2 (drop 4 a)) @ ''-'' @ hex_bytes (take 2 (drop 6 a)) @ ''-'' @
      hex_bytes (take 2 (drop 8 a)) @ ''-'' @ hex_bytes (drop 10 a) =
      hex_bytes (take 2 (drop 4 b)) @ ''-'' @ hex_bytes (take 2 (drop 6 b)) @ ''-'' @
      hex_bytes (take 2 (drop 8 b)) @ ''-'' @ hex_bytes (drop 10 b)"
    using append_same_length [OF assms(3) [unfolded uuid_format_def]] assms(1,2) by simp_all
  have h2: "hex_bytes (take 2 (drop 4 a)) = hex_bytes (take 2 (drop 4 b))" and
    r2: "hex_bytes (take 2 (drop 6 a)) @ ''-'' @ hex_bytes (take 2 (drop 8 a)) @ ''-'' @
      hex_bytes (drop 10 a) =
      hex_bytes (take 2 (drop 6 b)) @ ''-'' @ hex_bytes (take 2 (drop 8 b)) @ ''-'' @
      hex_bytes (drop 10 b)"
    using append_same_length [OF r1] assms(1,2) by simp_all
  have h3: "hex_bytes (take 2 (drop 6 a)) = hex_bytes (take 2 (drop 6 b))" and
    r3: "hex_bytes (take 2 (drop 8 a)) @ ''-'' @ hex_bytes (drop 10 a) =
      hex_bytes (take 2 (drop 8 b)) @ ''-'' @ hex_bytes (drop 10 b)"
    using append_same_length [OF r2] assms(1,2) by simp_all
  have h4: "hex_bytes (take 2 (drop 8 a)) = hex_bytes (take 2 (drop 8 b))" and
    h5: "hex_bytes (drop 10 a) = hex_bytes (drop 10 b)"
    using append_same_length [OF r3] assms(1,2) by simp_all
  have "take 4 a = take 4 b" "take 2 (drop 4 a) = take 2 (drop 4 b)"
    "take 2 (drop 6 a) = take 2 (drop 6 b)" "take 2 (drop 8 a) = take 2 (drop 8 b)"
    "drop 10 a = drop 10 b"
    using h1 h2 h3 h4 h5 assms(1,2) by (simp_all only: hex_bytes_inject length_take length_drop)
  then show ?thesis by (metis split_16)
qed

lemma run_generateID:
  "run_state generateID e =
     (uuid_format (uuid_bytes (map (entropy e (tick e)) [0..<16])), e\<lparr>tick := Suc (tick e)\<rparr>)"
  by (simp add: generateID_def)

lemma run_nowUTC [simp]: "run_state nowUTC e = (clock e (tick e), e\<lparr>tick := Suc (tick e)\<rparr>)"
  by (simp add: nowUTC_def)

lemma keeps_generateID [keeps_intros]:
  assumes "\<And>s. I s \<Longrightarrow> I (s\<lparr>tick := Suc (tick s)\<rparr>)"
  shows "keeps I generateID" and "keeps I nowUTC"
  using assms by (simp_all add: keepsI run_generateID)

end
