(* ===== verification/TransformIR.thy ===== *)
theory TransformIR
  imports ContractsState
begin

text \<open>
  \<open>internal/transform/ir.go\<close>: the intermediate representation of documents. A Go interface with a
  closed set of implementations is a datatype with one constructor per struct; \<open>Type()\<close> is a
  function on it. No parser or renderer is implemented in the repository, only their interfaces.
\<close>

section \<open>Node types\<close>

datatype NodeType =
    NodeHeading
  | NodeParagraph
  | NodeCodeBlock
  | NodeBlockQuote
  | NodeList
  | NodeImage
  | NodeHorizontalRule
  | NodeText
  | NodeBold
  | NodeItalic
  | NodeInlineCode
  | NodeLink
  | NodeImageInline

fun NodeType_string :: "NodeType \<Rightarrow> string" where
  "NodeType_string NodeHeading = ''heading''"
| "NodeType_string NodeParagraph = ''paragraph''"
| "NodeType_string NodeCodeBlock = ''code_block''"
| "NodeType_string NodeBlockQuote = ''blockquote''"
| "NodeType_string NodeList = ''list''"
| "NodeType_string NodeImage = ''image''"
| "NodeType_string NodeHorizontalRule = ''horizontal_rule''"
| "NodeType_string NodeText = ''text''"
| "NodeType_string NodeBold = ''bold''"
| "NodeType_string NodeItalic = ''italic''"
| "NodeType_string NodeInlineCode = ''inline_code''"
| "NodeType_string NodeLink = ''link''"
| "NodeType_string NodeImageInline = ''image_inline''"

section \<open>Nodes\<close>

datatype InlineNode =
    Text string
  | Bold "InlineNode list"
  | Italic "InlineNode list"
  | InlineCode string
  | Link string string string        \<comment> \<open>URL, text, title\<close>
  | ImageInline string string        \<comment> \<open>URL, alternative text\<close>

datatype BlockNode =
    Heading int string
  | Paragraph "InlineNode list"
  | CodeBlock string string          \<comment> \<open>language, code\<close>
  | BlockQuote "BlockNode list"
  | ListNode bool "ListItem list"
  | Image string string string       \<comment> \<open>URL, alternative text, title\<close>
  | HorizontalRule
and ListItem = ListItem "BlockNode list"

fun InlineNode_Type :: "InlineNode \<Rightarrow> NodeType" where
  "InlineNode_Type (Text _) = NodeText"
| "InlineNode_Type (Bold _) = NodeBold"
| "InlineNode_Type (Italic _) = NodeItalic"
| "InlineNode_Type (InlineCode _) = NodeInlineCode"
| "InlineNode_Type (Link _ _ _) = NodeLink"
| "InlineNode_Type (ImageInline _ _) = NodeImageInline"

fun BlockNode_Type :: "BlockNode \<Rightarrow> NodeType" where
  "BlockNode_Type (Heading _ _) = NodeHeading"
| "BlockNode_Type (Paragraph _) = NodeParagraph"
| "BlockNode_Type (CodeBlock _ _) = NodeCodeBlock"
| "BlockNode_Type (BlockQuote _) = NodeBlockQuote"
| "BlockNode_Type (ListNode _ _) = NodeList"
| "BlockNode_Type (Image _ _ _) = NodeImage"
| "BlockNode_Type HorizontalRule = NodeHorizontalRule"

section \<open>Documents, assets, payloads\<close>

record Document =
  doc_title :: string
  doc_blocks :: "BlockNode list"
  doc_tags :: "string list"
  doc_metadata :: Metadata

datatype AssetType = AssetTypeImage | AssetTypeVideo | AssetTypeFile | OtherAssetType string

record AssetRef =
  ar_id :: string
  ar_url :: string
  ar_original_url :: string
  ar_platform_id :: string
  ar_type :: AssetType

record PlatformPayload =
  pl_title :: string
  pl_body :: string
  pl_tags :: "string list"
  pl_assets :: "AssetRef list"
  pl_metadata :: Metadata

section \<open>Facts\<close>

lemma NodeType_string_inject [simp]: "NodeType_string a = NodeType_string b \<longleftrightarrow> a = b"
  by (cases a; cases b; simp)

text \<open>Block nodes and inline nodes have different types.\<close>

lemma block_inline_types: "BlockNode_Type b \<noteq> InlineNode_Type i"
  by (cases b; cases i; simp)

end
