(* ===== verification/Platform.thy ===== *)
theory Platform
  imports TransformIR "HOL-Library.List_Lexorder" "HOL-Library.Char_ord"
begin

text \<open>
  \<open>internal/platform/platform.go\<close> and \<open>registry.go\<close>: the adapter interface, as a record of its
  methods over the state \<open>'s\<close> of the program, and the registry of adapters. \<open>Name\<close> and
  \<open>Capabilities\<close> take no context and return no error: they are values here. A successful
  \<open>Publish\<close> returns a result and no error, a failed one an error, so the pair of Go results is a
  sum. The registry is filled while the program starts, so it is a value too; a panic is the
  error \<open>Panic\<close>.
\<close>

section \<open>The adapter interface\<close>

datatype AuthType = AuthTypeOAuth2 | AuthTypeCookie | AuthTypeAPIKey | OtherAuthType string

record Capabilities =
  cap_supported_nodes :: "NodeType list"
  cap_max_title_length :: int
  cap_max_body_length :: int
  cap_max_tags :: int
  cap_max_images :: int
  cap_requires_cover :: bool
  cap_supports_video :: bool
  cap_auth_type :: AuthType

record PostResult =
  por_platform_post_id :: string
  por_platform_url :: string
  por_published_at :: Time
  por_response :: string

record Credentials =
  cred_access_token :: string
  cred_refresh_token :: string
  cred_expiry :: Time
  cred_cookie :: string
  cred_api_key :: string

text \<open>\<open>&platform.Credentials{}\<close>.\<close>

definition no_credentials :: Credentials where
  "no_credentials =
     \<lparr>cred_access_token = '''', cred_refresh_token = '''', cred_expiry = 0, cred_cookie = '''',
      cred_api_key = ''''\<rparr>"

record 's Platform =
  pf_Name :: string
  pf_Validate :: "Document \<Rightarrow> ('s, go_error option) state"
  pf_UploadAssets :: "AssetRef list \<Rightarrow> ('s, AssetRef list result) state"
  pf_Publish :: "Document \<Rightarrow> Credentials \<Rightarrow> ('s, PostResult result) state"
  pf_Delete :: "string \<Rightarrow> Credentials \<Rightarrow> ('s, go_error option) state"
  pf_Capabilities :: Capabilities

section \<open>The registry\<close>

record 's Registry =
  rg_platforms :: "'s Platform gomap"

definition NewRegistry :: "'s Registry" where
  "NewRegistry = \<lparr>rg_platforms = DAList.empty\<rparr>"

definition Register :: "'s Registry \<Rightarrow> 's Platform \<Rightarrow> 's Registry result" where
  "Register r p =
     (let name = pf_Name p
      in case DAList.lookup (rg_platforms r) name of
           Some _ \<Rightarrow> Inl (Panic (''platform already registered: '' @ name))
         | None \<Rightarrow> Inr (r\<lparr>rg_platforms := DAList.update name p (rg_platforms r)\<rparr>))"

definition Registry_Get :: "'s Registry \<Rightarrow> string \<Rightarrow> 's Platform result" where
  "Registry_Get r name =
     (case DAList.lookup (rg_platforms r) name of
        None \<Rightarrow> Inl (Errorf (''platform not found: '' @ name))
      | Some p \<Rightarrow> Inr p)"

definition MustGet :: "'s Registry \<Rightarrow> string \<Rightarrow> 's Platform result" where
  "MustGet r name =
     (case Registry_Get r name of
        Inl err \<Rightarrow> Inl (Panic (Error err))
      | Inr p \<Rightarrow> Inr p)"

definition Registry_List :: "'s Registry \<Rightarrow> ('a env_scheme, string list) state" where
  "Registry_List r = do {
     entries \<leftarrow> range_map (rg_platforms r);
     let names = map fst entries;
     ret (sort names)
   }"

definition Has :: "'s Registry \<Rightarrow> string \<Rightarrow> bool" where
  "Has r name \<longleftrightarrow> DAList.lookup (rg_platforms r) name \<noteq> None"

definition Count :: "'s Registry \<Rightarrow> int" where
  "Count r = int (map_len (rg_platforms r))"

text \<open>Registering a list of adapters, as the program's start does.\<close>

fun register_all :: "'s Registry \<Rightarrow> 's Platform list \<Rightarrow> 's Registry result" where
  "register_all r [] = Inr r"
| "register_all r (p # ps) =
     (case Register r p of Inl err \<Rightarrow> Inl err | Inr r' \<Rightarrow> register_all r' ps)"

section \<open>Properties of the registry\<close>

definition registered :: "'s Registry \<Rightarrow> string set" where
  "registered r = dom (DAList.lookup (rg_platforms r))"

lemma Has_registered: "Has r name \<longleftrightarrow> name \<in> registered r"
  by (auto simp: Has_def registered_def)

lemma registered_Register: "Register r p = Inr r' \<Longrightarrow> registered r' = insert (pf_Name p) (registered r)"
  by (auto simp: Register_def registered_def Let_def DAList.lookup_update split: option.splits if_splits)

lemma Get_Register:
  "Register r p = Inr r' \<Longrightarrow>
     Registry_Get r' n = (if n = pf_Name p then Inr p else Registry_Get r n)"
  by (auto simp: Register_def Registry_Get_def Let_def DAList.lookup_update split: option.splits if_splits)

lemma Get_NewRegistry: "Registry_Get NewRegistry n = Inl (Errorf (''platform not found: '' @ n))"
  by (simp add: Registry_Get_def NewRegistry_def)

lemma register_all_keeps:
  "register_all r ps = Inr r' \<Longrightarrow> n \<notin> pf_Name ` set ps \<Longrightarrow> Registry_Get r' n = Registry_Get r n"
  by (induction ps arbitrary: r) (auto split: sum.splits simp: Get_Register)

lemma register_all_ok:
  "(\<exists>r'. register_all r ps = Inr r') \<longleftrightarrow>
     distinct (map pf_Name ps) \<and> registered r \<inter> pf_Name ` set ps = {}"
proof (induction ps arbitrary: r)
  case (Cons p ps)
  show ?case
  proof (cases "Register r p")
    case (Inl err)
    then have "pf_Name p \<in> registered r"
      by (auto simp: Register_def registered_def Let_def split: option.splits)
    with Inl show ?thesis by auto
  next
    case (Inr r1)
    then have "pf_Name p \<notin> registered r"
      by (auto simp: Register_def registered_def Let_def split: option.splits)
    with Inr Cons.IH [of r1] registered_Register [OF Inr] show ?thesis by auto
  qed
qed simp

text \<open>
  C39. Adapter registry (\<open>Register\<close>, \<open>Get\<close>, \<open>Has\<close>): registering adapters at start panics precisely
  when two of them share a name; otherwise each is found under its name, and any other name is
  reported as an error.
\<close>

theorem registry_get_registered:
  "(\<exists>r'. register_all NewRegistry ps = Inr r') = distinct (map pf_Name ps) \<and>
   (register_all NewRegistry ps = Inr r \<longrightarrow>
      Registry_Get r n =
        (case find (\<lambda>p. pf_Name p = n) ps of
           Some p \<Rightarrow> Inr p | None \<Rightarrow> Inl (Errorf (''platform not found: '' @ n))) \<and>
      (Has r n \<longleftrightarrow> n \<in> pf_Name ` set ps))"
proof
  show "(\<exists>r'. register_all NewRegistry ps = Inr r') = distinct (map pf_Name ps)"
    by (simp add: register_all_ok registered_def NewRegistry_def)
  have get: "Registry_Get r n =
      (case find (\<lambda>p. pf_Name p = n) ps of Some p \<Rightarrow> Inr p | None \<Rightarrow> Registry_Get r0 n)"
    if "register_all r0 ps = Inr r" for r0 :: "'s Registry" and ps r
    using that
  proof (induction ps arbitrary: r0)
    case (Cons p ps)
    then obtain r1 where r1: "Register r0 p = Inr r1" "register_all r1 ps = Inr r"
      by (auto split: sum.splits)
    have "pf_Name p \<in> registered r1" using registered_Register [OF r1(1)] by simp
    then have "pf_Name p \<notin> pf_Name ` set ps" using register_all_ok [of r1 ps] r1(2) by blast
    with Cons.IH [OF r1(2)] r1 register_all_keeps [OF r1(2)] Get_Register [OF r1(1)]
    show ?case by (cases "pf_Name p = n") (auto split: option.split)
  qed simp
  show "register_all NewRegistry ps = Inr r \<longrightarrow>
      Registry_Get r n =
        (case find (\<lambda>p. pf_Name p = n) ps of
           Some p \<Rightarrow> Inr p | None \<Rightarrow> Inl (Errorf (''platform not found: '' @ n))) \<and>
      (Has r n \<longleftrightarrow> n \<in> pf_Name ` set ps)"
  proof (intro impI conjI)
    assume r: "register_all NewRegistry ps = Inr r"
    show *: "Registry_Get r n =
        (case find (\<lambda>p. pf_Name p = n) ps of
           Some p \<Rightarrow> Inr p | None \<Rightarrow> Inl (Errorf (''platform not found: '' @ n)))"
      using get [OF r] by (cases "find (\<lambda>p. pf_Name p = n) ps") (simp_all add: Get_NewRegistry)
    have "Has r n \<longleftrightarrow> (\<exists>p. Registry_Get r n = Inr p)"
      by (simp add: Has_def Registry_Get_def split: option.split)
    with * show "Has r n \<longleftrightarrow> n \<in> pf_Name ` set ps"
      by (auto simp: find_None_iff split: option.splits dest: find_SomeD)
  qed
qed

definition example_adapter :: "string \<Rightarrow> 's Platform" where
  "example_adapter name =
     \<lparr>pf_Name = name, pf_Validate = (\<lambda>_. ret None), pf_UploadAssets = (\<lambda>as. ret (Inr as)),
      pf_Publish = (\<lambda>_ _. ret (Inl (Errorf ''unavailable''))), pf_Delete = (\<lambda>_ _. ret None),
      pf_Capabilities = \<lparr>cap_supported_nodes = [], cap_max_title_length = 0, cap_max_body_length = 0,
        cap_max_tags = 0, cap_max_images = 0, cap_requires_cover = False, cap_supports_video = False,
        cap_auth_type = AuthTypeAPIKey\<rparr>\<rparr>"

lemma example_adapter_name [simp]: "pf_Name (example_adapter n) = n"
  by (simp add: example_adapter_def)

theorem registry_get_registered_witness:
  "\<exists>r. register_all NewRegistry [example_adapter ''a'', example_adapter ''b'' :: env Platform] = Inr r \<and>
       Registry_Get r ''b'' = Inr (example_adapter ''b'') \<and> \<not> Has r ''c''"
proof -
  let ?ps = "[example_adapter ''a'', example_adapter ''b'' :: env Platform]"
  have "distinct (map pf_Name ?ps)" by simp
  then obtain r where r: "register_all NewRegistry ?ps = Inr r"
    using registry_get_registered [of ?ps] by blast
  have "Registry_Get r ''b'' = Inr (example_adapter ''b'')" "\<not> Has r ''c''"
    using registry_get_registered [of ?ps r "''b''"] registry_get_registered [of ?ps r "''c''"] r
    by (simp_all del: register_all.simps)
  with r show ?thesis by blast
qed

text \<open>
  Listing adapters (\<open>List\<close>, \<open>Count\<close>): for every iteration order of the map the list is the same,
  sorted and without duplicates, it names exactly the registered adapters, and \<open>Count\<close> is its length.
\<close>

lemma registry_list_sorted:
  "res (Registry_List r) e = sorted_list_of_set (registered r) \<and>
   Count r = int (length (res (Registry_List r) e))"
proof -
  let ?names = "map fst (shuffle (range_order e (tick e)) (DAList.impl_of (rg_platforms r)))"
  have "mset ?names = mset (map fst (DAList.impl_of (rg_platforms r)))" by simp
  then have "distinct ?names" by (metis DAList.impl_of_distinct mset_eq_imp_distinct_iff)
  moreover have "set ?names = registered r"
    by (simp add: registered_def DAList.lookup.rep_eq dom_map_of_conv_image_fst)
  ultimately have "sort ?names = sorted_list_of_set (registered r)"
    by (metis sorted_list_of_set_sort_remdups distinct_remdups_id)
  moreover have "card (registered r) = map_len (rg_platforms r)"
    by (simp add: registered_def map_len_card)
  moreover have "res (Registry_List r) e = sort ?names"
    by (simp add: Registry_List_def Let_def)
  ultimately show ?thesis by (simp add: Count_def)
qed

end
