(* ===== verification/PublishService.thy ===== *)
theory PublishService
  imports StorageTypes Platform
begin

text \<open>
  \<open>internal/publish/service.go\<close>: the publish workflow over the store and adapter interfaces. The
  service keeps no state of its own: it is a function of its dependencies \<open>Deps\<close>, and everything it
  changes, it changes through them. Log calls have no effect on what is modelled and are left out.
  Errors the code ignores (\<open>_ = ...\<close>, or logs only) are ignored here too. \<open>int\<close> counters are
  unbounded; they stay far below the width of a Go \<open>int\<close> for the policies the stores create.
\<close>

section \<open>Dependencies\<close>

record 's Deps =
  d_ContentStore :: "'s ContentStore"
  d_TaskStore :: "'s PublishTaskStore"
  d_AttemptStore :: "'s PublishAttemptStore"
  d_PostStore :: "'s PlatformPostStore"
  d_IdempotencyStore :: "'s IdempotencyStore"
  d_Platforms :: "'s Registry"

section \<open>Pure helpers\<close>

definition convertToDocument :: "Content \<Rightarrow> Document" where
  "convertToDocument content =
     \<lparr>doc_title = ct_title content, doc_blocks = [Paragraph [Text (ct_body content)]],
      doc_tags = ct_tags content, doc_metadata = ct_metadata content\<rparr>"

definition count_status :: "TaskStatus list \<Rightarrow> int \<times> int" where
  "count_status tasks =
     foldl (\<lambda>(succeeded, failed) t.
        if ts_status t = PublishTaskStatusSucceeded then (succeeded + 1, failed)
        else if ts_status t = PublishTaskStatusFailed \<or> ts_status t = PublishTaskStatusDead
             then (succeeded, failed + 1)
        else (succeeded, failed)) (0, 0) tasks"

definition aggregateStatus :: "TaskStatus list \<Rightarrow> ContentStatus" where
  "aggregateStatus tasks =
     (if tasks = [] then ContentStatusFailed
      else
        let (succeeded, failed) = count_status tasks
        in if succeeded = int (length tasks) then ContentStatusPublished
           else if succeeded > 0 then ContentStatusPartiallyPublished
           else ContentStatusFailed)"

section \<open>Content transitions\<close>

definition updateContentStatus ::
  "'s Deps \<Rightarrow> string \<Rightarrow> ContentStatus \<Rightarrow> ('s, go_error option) state" where
  "updateContentStatus s contentID target = UpdateContent (d_ContentStore s) contentID target 0"

definition transitionContent ::
  "'s Deps \<Rightarrow> string \<Rightarrow> ContentStatus \<Rightarrow> ContentStatus \<Rightarrow> ('s, go_error option) state" where
  "transitionContent s contentID from to = do {
     r \<leftarrow> GetContent (d_ContentStore s) contentID;
     case r of
       Inl err \<Rightarrow> ret (Some (Wrapf ''fetch content for transition: '' err))
     | Inr content \<Rightarrow>
         if ct_status content \<noteq> from then
           ret (Some (Errorf (''expected status '' @ quote (ContentStatus_string from) @ '', got '' @
             quote (ContentStatus_string (ct_status content)))))
         else updateContentStatus s contentID to
   }"

section \<open>One attempt and the retry loop\<close>

type_synonym attempt_outcome = "PostResult option \<times> PublishTaskStatus \<times> go_error option"

text \<open>\<open>if attemptRec != nil { _ = CompleteAttempt(...) }\<close>\<close>

definition complete_attempt ::
  "'s Deps \<Rightarrow> PublishAttempt result \<Rightarrow> PublishTaskStatus \<Rightarrow> string \<Rightarrow> ('s, unit) state" where
  "complete_attempt s attemptRec status errMsg =
     (case attemptRec of
        Inl _ \<Rightarrow> ret ()
      | Inr a \<Rightarrow> do {
          _ \<leftarrow> CompleteAttempt (d_AttemptStore s) (pa_id a) status errMsg;
          ret ()
        })"

text \<open>The end of an attempt by a permanent failure before or after \<open>adapter.Publish\<close>.\<close>

definition fail_attempt ::
  "'s Deps \<Rightarrow> PublishTask \<Rightarrow> PublishAttempt result \<Rightarrow> string \<Rightarrow> ('s, attempt_outcome option) state" where
  "fail_attempt s task attemptRec errMsg = do {
     _ \<leftarrow> UpdateTaskStatus (d_TaskStore s) (pt_id task) PublishTaskStatusFailed errMsg;
     complete_attempt s attemptRec PublishTaskStatusFailed errMsg;
     ret (Some (None, PublishTaskStatusFailed, Some (Errorf errMsg)))
   }"

text \<open>The branch \<open>if err == nil\<close>.\<close>

definition succeed_attempt ::
  "'s Deps \<Rightarrow> PublishTask \<Rightarrow> PublishAttempt result \<Rightarrow> PostResult \<Rightarrow> ('s, attempt_outcome option) state" where
  "succeed_attempt s task attemptRec result = do {
     _ \<leftarrow> UpdateTaskStatus (d_TaskStore s) (pt_id task) PublishTaskStatusSucceeded '''';
     complete_attempt s attemptRec PublishTaskStatusSucceeded '''';
     _ \<leftarrow> CreatePlatformPost (d_PostStore s) (pt_id task) (pt_platform task)
            (por_platform_post_id result) (por_platform_url result) (por_response result);
     ret (Some (Some result, PublishTaskStatusSucceeded, None))
   }"

text \<open>The rest of the loop body after \<open>adapter.Publish\<close> returned an error.\<close>

definition is_retryable :: "go_error \<Rightarrow> bool" where
  "is_retryable err =
     (case errors_As_PlatformError err of
        Some platErr \<Rightarrow> PlatformError_IsRetryable platErr
      | None \<Rightarrow> False)"

definition retry_or_give_up ::
  "('a env_scheme) Deps \<Rightarrow> PublishTask \<Rightarrow> PublishAttempt result \<Rightarrow> int \<Rightarrow> go_error \<Rightarrow>
     ('a env_scheme, attempt_outcome option) state" where
  "retry_or_give_up s task attemptRec attempt err = do {
     complete_attempt s attemptRec PublishTaskStatusFailed (Error err);
     let maxRetries = rp_max_retries (pt_retry_policy task);
     if \<not> is_retryable err then do {
       let errMsg = ''permanent failure: '' @ Error err;
       _ \<leftarrow> UpdateTaskStatus (d_TaskStore s) (pt_id task) PublishTaskStatusFailed errMsg;
       ret (Some (None, PublishTaskStatusFailed, Some (Errorf errMsg)))
     } else if attempt \<ge> maxRetries then do {
       let errMsg = ''max retries ('' @ itoa maxRetries @ '') exhausted: '' @ Error err;
       _ \<leftarrow> UpdateTaskStatus (d_TaskStore s) (pt_id task) PublishTaskStatusDead errMsg;
       ret (Some (None, PublishTaskStatusDead, Some (Errorf errMsg)))
     } else do {
       _ \<leftarrow> UpdateTaskStatus (d_TaskStore s) (pt_id task) PublishTaskStatusRetrying (Error err);
       _ \<leftarrow> CalculateBackoff (pt_retry_policy task) attempt;
       ret None
     }
   }"

text \<open>The loop body: \<open>Some\<close> is a return from it, \<open>None\<close> the next iteration.\<close>

definition attempt_body ::
  "('a env_scheme) Deps \<Rightarrow> PublishTask \<Rightarrow> Content \<Rightarrow> ('a env_scheme) Platform \<Rightarrow> int \<Rightarrow>
     ('a env_scheme, attempt_outcome option) state" where
  "attempt_body s task content adapter attempt = do {
     let attemptNum = attempt + 1;
     _ \<leftarrow> IncrementAttemptCount (d_TaskStore s) (pt_id task);
     attemptRec \<leftarrow> CreateAttempt (d_AttemptStore s) (pt_id task) attemptNum;
     _ \<leftarrow> UpdateTaskStatus (d_TaskStore s) (pt_id task) PublishTaskStatusProcessing '''';
     let doc = convertToDocument content;
     v \<leftarrow> pf_Validate adapter doc;
     case v of
       Some err \<Rightarrow> fail_attempt s task attemptRec (''validation failed: '' @ Error err)
     | None \<Rightarrow> do {
         u \<leftarrow> pf_UploadAssets adapter [];
         case u of
           Inl err \<Rightarrow> fail_attempt s task attemptRec (''asset upload failed: '' @ Error err)
         | Inr _ \<Rightarrow> do {
             r \<leftarrow> pf_Publish adapter doc no_credentials;
             case r of
               Inr result \<Rightarrow> succeed_attempt s task attemptRec result
             | Inl err \<Rightarrow> retry_or_give_up s task attemptRec attempt err
           }
       }
   }"

function retry_loop ::
  "('a env_scheme) Deps \<Rightarrow> PublishTask \<Rightarrow> Content \<Rightarrow> ('a env_scheme) Platform \<Rightarrow> int \<Rightarrow>
     ('a env_scheme, attempt_outcome) state" where
  "retry_loop s task content adapter attempt =
     (if attempt \<le> rp_max_retries (pt_retry_policy task) then do {
        r \<leftarrow> attempt_body s task content adapter attempt;
        case r of
          Some out \<Rightarrow> ret out
        | None \<Rightarrow> retry_loop s task content adapter (attempt + 1)
      } else
        ret (None, PublishTaskStatusFailed,
          Some (Errorf ''unexpected: retry loop exited without result'')))"
  by pat_completeness auto
termination
  by (relation "measure (\<lambda>(s, task, content, adapter, attempt).
       nat (rp_max_retries (pt_retry_policy task) + 1 - attempt))") auto

declare retry_loop.simps [simp del]

definition executeWithRetry ::
  "('a env_scheme) Deps \<Rightarrow> PublishTask \<Rightarrow> Content \<Rightarrow> ('a env_scheme) Platform \<Rightarrow>
     ('a env_scheme, attempt_outcome) state" where
  "executeWithRetry s task content adapter = retry_loop s task content adapter 0"

section \<open>One platform\<close>

definition failed_status :: "string \<Rightarrow> string \<Rightarrow> ('a env_scheme, TaskStatus) state" where
  "failed_status platformName errMsg = do {
     created \<leftarrow> time_Now;
     updated \<leftarrow> time_Now;
     ret \<lparr>ts_task_id = '''', ts_platform = platformName, ts_status = PublishTaskStatusFailed,
          ts_platform_post_id = '''', ts_platform_url = '''', ts_error = errMsg,
          ts_created_at = created, ts_updated_at = updated\<rparr>
   }"

definition existing_status :: "string \<Rightarrow> PublishTask \<Rightarrow> TaskStatus" where
  "existing_status platformName existing =
     \<lparr>ts_task_id = pt_id existing, ts_platform = platformName, ts_status = pt_status existing,
      ts_platform_post_id = '''', ts_platform_url = '''', ts_error = pt_error existing,
      ts_created_at = pt_created_at existing, ts_updated_at = pt_updated_at existing\<rparr>"

text \<open>From the created task to the returned status.\<close>

definition run_created_task ::
  "('a env_scheme) Deps \<Rightarrow> string \<Rightarrow> PublishTask \<Rightarrow> Content \<Rightarrow> ('a env_scheme) Platform \<Rightarrow>
     ('a env_scheme, TaskStatus) state" where
  "run_created_task s platformName task content adapter = do {
     (result, finalStatus, taskErr) \<leftarrow> executeWithRetry s task content adapter;
     updated \<leftarrow> time_Now;
     let ts = \<lparr>ts_task_id = pt_id task, ts_platform = platformName, ts_status = finalStatus,
               ts_platform_post_id = '''', ts_platform_url = '''', ts_error = '''',
               ts_created_at = pt_created_at task, ts_updated_at = updated\<rparr>;
     case taskErr of
       Some err \<Rightarrow> ret (ts\<lparr>ts_error := Error err\<rparr>)
     | None \<Rightarrow>
         (case result of
            Some r \<Rightarrow> ret (ts\<lparr>ts_platform_post_id := por_platform_post_id r,
                             ts_platform_url := por_platform_url r\<rparr>)
          | None \<Rightarrow> ret ts)
   }"

definition executePlatformTask ::
  "('a env_scheme) Deps \<Rightarrow> string \<Rightarrow> string \<Rightarrow> Content \<Rightarrow> ('a env_scheme, TaskStatus) state" where
  "executePlatformTask s contentID platformName content =
     (case Registry_Get (d_Platforms s) platformName of
        Inl err \<Rightarrow> failed_status platformName (''platform not found: '' @ platformName)
      | Inr adapter \<Rightarrow> do {
          let taskIDKey = contentID @ '':'' @ platformName;
          now \<leftarrow> time_Now;
          c \<leftarrow> Claim (d_IdempotencyStore s)
                 \<lparr>ik_key = taskIDKey, ik_scope = IdempotencyScopeTask, ik_entity_id = taskIDKey,
                  ik_created_at = now, ik_ttl = 24 * Hour\<rparr>;
          case c of
            Inl err \<Rightarrow> failed_status platformName (''idempotency error: '' @ Error err)
          | Inr claimed \<Rightarrow>
              if \<not> claimed then do {
                r \<leftarrow> GetTaskByContentPlatform (d_TaskStore s) contentID platformName;
                case r of
                  Inl err \<Rightarrow> failed_status platformName (''idempotency lookup failed: '' @ Error err)
                | Inr existing \<Rightarrow> ret (existing_status platformName existing)
              } else do {
                t \<leftarrow> CreateTask (d_TaskStore s) contentID platformName;
                case t of
                  Inr task \<Rightarrow> run_created_task s platformName task content adapter
                | Inl err \<Rightarrow>
                    if errors_Is err ErrConflict then do {
                      r \<leftarrow> GetTaskByContentPlatform (d_TaskStore s) contentID platformName;
                      case r of
                        Inr existing \<Rightarrow> ret (existing_status platformName existing)
                      | Inl _ \<Rightarrow> failed_status platformName (''create task: '' @ Error err)
                    } else failed_status platformName (''create task: '' @ Error err)
              }
        })"

section \<open>Publish\<close>

fun execute_platforms ::
  "('a env_scheme) Deps \<Rightarrow> string \<Rightarrow> Content \<Rightarrow> string list \<Rightarrow> ('a env_scheme, TaskStatus list) state" where
  "execute_platforms s contentID content [] = ret []"
| "execute_platforms s contentID content (p # ps) = do {
     ts \<leftarrow> executePlatformTask s contentID p content;
     rest \<leftarrow> execute_platforms s contentID content ps;
     ret (ts # rest)
   }"

definition Publish :: "('a env_scheme) Deps \<Rightarrow> PublishIntent \<Rightarrow> ('a env_scheme, PublishStatus result) state" where
  "Publish s intent = do {
     r \<leftarrow> GetContent (d_ContentStore s) (pi_content_id intent);
     case r of
       Inl err \<Rightarrow> ret (Inl (Wrapf ''fetch content: '' err))
     | Inr content \<Rightarrow>
         if \<not> ContentStatus_CanTransitionTo (ct_status content) ContentStatusPublishing then
           ret (Inl (Errorf (''content in status '' @ quote (ContentStatus_string (ct_status content)) @
             '' cannot transition to publishing'')))
         else do {
           e \<leftarrow> transitionContent s (pi_content_id intent) (ct_status content) ContentStatusPublishing;
           case e of
             Some err \<Rightarrow> ret (Inl (Wrapf ''transition to publishing: '' err))
           | None \<Rightarrow> do {
               taskStatuses \<leftarrow>
                 execute_platforms s (pi_content_id intent) content (pi_platforms intent);
               let finalStatus = aggregateStatus taskStatuses;
               _ \<leftarrow> transitionContent s (pi_content_id intent) ContentStatusPublishing finalStatus;
               ret (Inr \<lparr>ps_content_id = pi_content_id intent, ps_status = finalStatus,
                         ps_tasks = taskStatuses\<rparr>)
             }
         }
   }"

end
