(* ===== verification/ServiceProcesses.thy ===== *)
theory ServiceProcesses
  imports Processes PublishService
begin

text \<open>
  Concurrent publishes. Each function of \<open>internal/publish/service.go\<close> once more, as a process
  that may be interrupted between any two of its calls to stores, adapters and clock; its last
  argument is what the caller goes on with. Alone a process runs as the function of \<open>PublishService\<close>
  (\<open>publish_alone\<close>), so the processes are that code cut at its calls, and nothing else.
\<close>

section \<open>The functions of the service as processes\<close>

definition p_transitionContent ::
  "'s Deps \<Rightarrow> string \<Rightarrow> ContentStatus \<Rightarrow> ContentStatus \<Rightarrow> (go_error option \<Rightarrow> ('s, 'b) proc) \<Rightarrow> ('s, 'b) proc" where
  "p_transitionContent s contentID from to k =
     call (GetContent (d_ContentStore s) contentID) (\<lambda>r. case r of
       Inl err \<Rightarrow> k (Some (Wrapf ''fetch content for transition: '' err))
     | Inr content \<Rightarrow>
         if ct_status content \<noteq> from then
           k (Some (Errorf (''expected status '' @ quote (ContentStatus_string from) @ '', got '' @
             quote (ContentStatus_string (ct_status content)))))
         else call (UpdateContent (d_ContentStore s) contentID to 0) k)"

definition p_complete_attempt ::
  "'s Deps \<Rightarrow> PublishAttempt result \<Rightarrow> PublishTaskStatus \<Rightarrow> string \<Rightarrow> ('s, 'b) proc \<Rightarrow> ('s, 'b) proc" where
  "p_complete_attempt s attemptRec status errMsg k =
     (case attemptRec of
        Inl _ \<Rightarrow> k
      | Inr a \<Rightarrow> call (CompleteAttempt (d_AttemptStore s) (pa_id a) status errMsg) (\<lambda>_. k))"

definition p_fail_attempt ::
  "'s Deps \<Rightarrow> PublishTask \<Rightarrow> PublishAttempt result \<Rightarrow> string \<Rightarrow> (attempt_outcome option \<Rightarrow> ('s, 'b) proc) \<Rightarrow>
     ('s, 'b) proc" where
  "p_fail_attempt s task attemptRec errMsg k =
     call (UpdateTaskStatus (d_TaskStore s) (pt_id task) PublishTaskStatusFailed errMsg) (\<lambda>_.
     p_complete_attempt s attemptRec PublishTaskStatusFailed errMsg
       (k (Some (None, PublishTaskStatusFailed, Some (Errorf errMsg)))))"

definition p_succeed_attempt ::
  "'s Deps \<Rightarrow> PublishTask \<Rightarrow> PublishAttempt result \<Rightarrow> PostResult \<Rightarrow>
     (attempt_outcome option \<Rightarrow> ('s, 'b) proc) \<Rightarrow> ('s, 'b) proc" where
  "p_succeed_attempt s task attemptRec result k =
     call (UpdateTaskStatus (d_TaskStore s) (pt_id task) PublishTaskStatusSucceeded '''') (\<lambda>_.
     p_complete_attempt s attemptRec PublishTaskStatusSucceeded ''''
       (call (CreatePlatformPost (d_PostStore s) (pt_id task) (pt_platform task)
                (por_platform_post_id result) (por_platform_url result) (por_response result)) (\<lambda>_.
        k (Some (Some result, PublishTaskStatusSucceeded, None)))))"

definition p_retry_or_give_up ::
  "('a env_scheme) Deps \<Rightarrow> PublishTask \<Rightarrow> PublishAttempt result \<Rightarrow> int \<Rightarrow> go_error \<Rightarrow>
     (attempt_outcome option \<Rightarrow> ('a env_scheme, 'b) proc) \<Rightarrow> ('a env_scheme, 'b) proc" where
  "p_retry_or_give_up s task attemptRec attempt err k =
     p_complete_attempt s attemptRec PublishTaskStatusFailed (Error err)
     (let maxRetries = rp_max_retries (pt_retry_policy task) in
      if \<not> is_retryable err then
        (let errMsg = ''permanent failure: '' @ Error err in
         call (UpdateTaskStatus (d_TaskStore s) (pt_id task) PublishTaskStatusFailed errMsg) (\<lambda>_.
         k (Some (None, PublishTaskStatusFailed, Some (Errorf errMsg)))))
      else if attempt \<ge> maxRetries then
        (let errMsg = ''max retries ('' @ itoa maxRetries @ '') exhausted: '' @ Error err in
         call (UpdateTaskStatus (d_TaskStore s) (pt_id task) PublishTaskStatusDead errMsg) (\<lambda>_.
         k (Some (None, PublishTaskStatusDead, Some (Errorf errMsg)))))
      else
        call (UpdateTaskStatus (d_TaskStore s) (pt_id task) PublishTaskStatusRetrying (Error err)) (\<lambda>_.
        call (CalculateBackoff (pt_retry_policy task) attempt) (\<lambda>_.
        k None)))"

definition p_attempt_body ::
  "('a env_scheme) Deps \<Rightarrow> PublishTask \<Rightarrow> Content \<Rightarrow> ('a env_scheme) Platform \<Rightarrow> int \<Rightarrow>
     (attempt_outcome option \<Rightarrow> ('a env_scheme, 'b) proc) \<Rightarrow> ('a env_scheme, 'b) proc" where
  "p_attempt_body s task content adapter attempt k =
     (let attemptNum = attempt + 1 in
      call (IncrementAttemptCount (d_TaskStore s) (pt_id task)) (\<lambda>_.
      call (CreateAttempt (d_AttemptStore s) (pt_id task) attemptNum) (\<lambda>attemptRec.
      call (UpdateTaskStatus (d_TaskStore s) (pt_id task) PublishTaskStatusProcessing '''') (\<lambda>_.
      let doc = convertToDocument content in
      call (pf_Validate adapter doc) (\<lambda>v. case v of
        Some err \<Rightarrow> p_fail_attempt s task attemptRec (''validation failed: '' @ Error err) k
      | None \<Rightarrow>
          call (pf_UploadAssets adapter []) (\<lambda>u. case u of
            Inl err \<Rightarrow> p_fail_attempt s task attemptRec (''asset upload failed: '' @ Error err) k
          | Inr _ \<Rightarrow>
              call (pf_Publish adapter doc no_credentials) (\<lambda>r. case r of
                Inr result \<Rightarrow> p_succeed_attempt s task attemptRec result k
              | Inl err \<Rightarrow> p_retry_or_give_up s task attemptRec attempt err k)))))))"

function p_retry_loop ::
  "('a env_scheme) Deps \<Rightarrow> PublishTask \<Rightarrow> Content \<Rightarrow> ('a env_scheme) Platform \<Rightarrow> int \<Rightarrow>
     (attempt_outcome \<Rightarrow> ('a env_scheme, 'b) proc) \<Rightarrow> ('a env_scheme, 'b) proc" where
  "p_retry_loop s task content adapter attempt k =
     (if attempt \<le> rp_max_retries (pt_retry_policy task) then
        p_attempt_body s task content adapter attempt (\<lambda>r. case r of
          Some out \<Rightarrow> k out
        | None \<Rightarrow> p_retry_loop s task content adapter (attempt + 1) k)
      else
        k (None, PublishTaskStatusFailed,
          Some (Errorf ''unexpected: retry loop exited without result'')))"
  by pat_completeness auto
termination
  by (relation "measure (\<lambda>(s, task, content, adapter, attempt, k).
       nat (rp_max_retries (pt_retry_policy task) + 1 - attempt))") auto

declare p_retry_loop.simps [simp del]

definition p_failed_status ::
  "string \<Rightarrow> string \<Rightarrow> (TaskStatus \<Rightarrow> ('a env_scheme, 'b) proc) \<Rightarrow> ('a env_scheme, 'b) proc" where
  "p_failed_status platformName errMsg k =
     call time_Now (\<lambda>created.
     call time_Now (\<lambda>updated.
     k \<lparr>ts_task_id = '''', ts_platform = platformName, ts_status = PublishTaskStatusFailed,
        ts_platform_post_id = '''', ts_platform_url = '''', ts_error = errMsg,
        ts_created_at = created, ts_updated_at = updated\<rparr>))"

definition p_run_created_task ::
  "('a env_scheme) Deps \<Rightarrow> string \<Rightarrow> PublishTask \<Rightarrow> Content \<Rightarrow> ('a env_scheme) Platform \<Rightarrow>
     (TaskStatus \<Rightarrow> ('a env_scheme, 'b) proc) \<Rightarrow> ('a env_scheme, 'b) proc" where
  "p_run_created_task s platformName task content adapter k =
     p_retry_loop s task content adapter 0 (\<lambda>(result, finalStatus, taskErr).
     call time_Now (\<lambda>updated.
     let ts = \<lparr>ts_task_id = pt_id task, ts_platform = platformName, ts_status = finalStatus,
               ts_platform_post_id = '''', ts_platform_url = '''', ts_error = '''',
               ts_created_at = pt_created_at task, ts_updated_at = updated\<rparr>
     in case taskErr of
          Some err \<Rightarrow> k (ts\<lparr>ts_error := Error err\<rparr>)
        | None \<Rightarrow>
            (case result of
               Some r \<Rightarrow> k (ts\<lparr>ts_platform_post_id := por_platform_post_id r,
                              ts_platform_url := por_platform_url r\<rparr>)
             | None \<Rightarrow> k ts)))"

definition p_executePlatformTask ::
  "('a env_scheme) Deps \<Rightarrow> string \<Rightarrow> string \<Rightarrow> Content \<Rightarrow>
     (TaskStatus \<Rightarrow> ('a env_scheme, 'b) proc) \<Rightarrow> ('a env_scheme, 'b) proc" where
  "p_executePlatformTask s contentID platformName content k =
     (case Registry_Get (d_Platforms s) platformName of
        Inl err \<Rightarrow> p_failed_status platformName (''platform not found: '' @ platformName) k
      | Inr adapter \<Rightarrow>
          let taskIDKey = contentID @ '':'' @ platformName in
          call time_Now (\<lambda>now.
          call (Claim (d_IdempotencyStore s)
                 \<lparr>ik_key = taskIDKey, ik_scope = IdempotencyScopeTask, ik_entity_id = taskIDKey,
                  ik_created_at = now, ik_ttl = 24 * Hour\<rparr>) (\<lambda>c. case c of
            Inl err \<Rightarrow> p_failed_status platformName (''idempotency error: '' @ Error err) k
          | Inr claimed \<Rightarrow>
              if \<not> claimed then
                call (GetTaskByContentPlatform (d_TaskStore s) contentID platformName) (\<lambda>r. case r of
                  Inl err \<Rightarrow> p_failed_status platformName (''idempotency lookup failed: '' @ Error err) k
                | Inr existing \<Rightarrow> k (existing_status platformName existing))
              else
                call (CreateTask (d_TaskStore s) contentID platformName) (\<lambda>t. case t of
                  Inr task \<Rightarrow> p_run_created_task s platformName task content adapter k
                | Inl err \<Rightarrow>
                    if errors_Is err ErrConflict then
                      call (GetTaskByContentPlatform (d_TaskStore s) contentID platformName) (\<lambda>r. case r of
                        Inr existing \<Rightarrow> k (existing_status platformName existing)
                      | Inl _ \<Rightarrow> p_failed_status platformName (''create task: '' @ Error err) k)
                    else p_failed_status platformName (''create task: '' @ Error err) k))))"

fun p_execute_platforms ::
  "('a env_scheme) Deps \<Rightarrow> string \<Rightarrow> Content \<Rightarrow> string list \<Rightarrow>
     (TaskStatus list \<Rightarrow> ('a env_scheme, 'b) proc) \<Rightarrow> ('a env_scheme, 'b) proc" where
  "p_execute_platforms s contentID content [] k = k []"
| "p_execute_platforms s contentID content (p # ps) k =
     p_executePlatformTask s contentID p content (\<lambda>ts.
     p_execute_platforms s contentID content ps (\<lambda>rest. k (ts # rest)))"

definition p_Publish ::
  "('a env_scheme) Deps \<Rightarrow> PublishIntent \<Rightarrow> (PublishStatus result \<Rightarrow> ('a env_scheme, 'b) proc) \<Rightarrow>
     ('a env_scheme, 'b) proc" where
  "p_Publish s intent k =
     call (GetContent (d_ContentStore s) (pi_content_id intent)) (\<lambda>r. case r of
       Inl err \<Rightarrow> k (Inl (Wrapf ''fetch content: '' err))
     | Inr content \<Rightarrow>
         if \<not> ContentStatus_CanTransitionTo (ct_status content) ContentStatusPublishing then
           k (Inl (Errorf (''content in status '' @ quote (ContentStatus_string (ct_status content)) @
             '' cannot transition to publishing'')))
         else
           p_transitionContent s (pi_content_id intent) (ct_status content) ContentStatusPublishing (\<lambda>e.
           case e of
             Some err \<Rightarrow> k (Inl (Wrapf ''transition to publishing: '' err))
           | None \<Rightarrow>
               p_execute_platforms s (pi_content_id intent) content (pi_platforms intent) (\<lambda>taskStatuses.
               let finalStatus = aggregateStatus taskStatuses in
               p_transitionContent s (pi_content_id intent) ContentStatusPublishing finalStatus (\<lambda>_.
               k (Inr \<lparr>ps_content_id = pi_content_id intent, ps_status = finalStatus,
                       ps_tasks = taskStatuses\<rparr>)))))"

section \<open>A process alone is the function\<close>

lemma alone_transition:
  "run_alone (p_transitionContent D i st st' k) = transitionContent D i st st' \<bind> (\<lambda>e. run_alone (k e))"
  by (simp add: p_transitionContent_def transitionContent_def updateContentStatus_def alone_simps
      cong: if_cong sum.case_cong)

lemma alone_complete:
  "run_alone (p_complete_attempt D a st msg k) = complete_attempt D a st msg \<bind> (\<lambda>_. run_alone k)"
  by (simp add: p_complete_attempt_def complete_attempt_def alone_simps cong: sum.case_cong)

lemma alone_ends:
  "run_alone (p_fail_attempt D task a msg k) = fail_attempt D task a msg \<bind> (\<lambda>r. run_alone (k r))"
  "run_alone (p_succeed_attempt D task a result k) = succeed_attempt D task a result \<bind> (\<lambda>r. run_alone (k r))"
  by (simp_all add: p_fail_attempt_def fail_attempt_def p_succeed_attempt_def succeed_attempt_def
      alone_complete alone_simps)

lemma alone_retry:
  "run_alone (p_retry_or_give_up D task a n err k) =
     retry_or_give_up D task a n err \<bind> (\<lambda>r. run_alone (k r))"
  by (simp add: p_retry_or_give_up_def retry_or_give_up_def alone_complete alone_simps cong: if_cong)

lemma alone_attempt:
  "run_alone (p_attempt_body D task content P n k) =
     attempt_body D task content P n \<bind> (\<lambda>r. run_alone (k r))"
  by (simp add: p_attempt_body_def attempt_body_def alone_ends alone_retry alone_simps
      cong: option.case_cong sum.case_cong)

lemma alone_retry_loop:
  "run_alone (p_retry_loop D task content P n k) =
     retry_loop D task content P n \<bind> (\<lambda>r. run_alone (k r))"
proof (induction D task content P n k rule: p_retry_loop.induct)
  case (1 D task content P n k)
  then show ?case
    unfolding p_retry_loop.simps [of _ _ _ _ n] retry_loop.simps [of _ _ _ _ n]
    by (simp add: alone_attempt alone_simps cong: if_cong option.case_cong)
qed

lemma alone_failed:
  "run_alone (p_failed_status p msg k) = failed_status p msg \<bind> (\<lambda>ts. run_alone (k ts))"
  by (simp add: p_failed_status_def failed_status_def alone_simps)

lemma alone_created:
  "run_alone (p_run_created_task D p task content P k) =
     run_created_task D p task content P \<bind> (\<lambda>ts. run_alone (k ts))"
  by (simp add: p_run_created_task_def run_created_task_def executeWithRetry_def alone_retry_loop
      alone_simps case_prod_unfold cong: option.case_cong)

lemma alone_platform:
  "run_alone (p_executePlatformTask D i p content k) =
     executePlatformTask D i p content \<bind> (\<lambda>ts. run_alone (k ts))"
  by (cases "Registry_Get (d_Platforms D) p")
    (simp_all add: p_executePlatformTask_def executePlatformTask_def alone_failed alone_created
      alone_simps cong: if_cong sum.case_cong)

lemma alone_platforms:
  "run_alone (p_execute_platforms D i content ps k) =
     execute_platforms D i content ps \<bind> (\<lambda>r. run_alone (k r))"
  by (induction ps arbitrary: k) (simp_all add: alone_platform alone_simps)

text \<open>
  Cutting a publish at its calls changes nothing of it (\<open>Service.Publish\<close> and everything it calls): run
  without interruption, the process answers what the function answers and ends in the same state,
  over any stores and adapters.
\<close>

lemma publish_alone: "run_alone (p_Publish D intent Done) = Publish D intent"
  by (simp add: p_Publish_def Publish_def alone_transition alone_platforms alone_simps
      cong: if_cong option.case_cong sum.case_cong)

section \<open>Properties of the processes\<close>

text \<open>
  A property of processes that the calls of an attempt, except that of the adapter's \<open>Publish\<close>, carry from
  what follows to the whole; and one that all calls for a platform carry.
\<close>

locale attempt_steps =
  fixes ok :: "('a env_scheme, 'b) proc \<Rightarrow> bool" and D :: "('a env_scheme) Deps"
  assumes ok_time: "(\<And>a. ok (k1 a)) \<Longrightarrow> ok (call time_Now k1)"
    and ok_backoff: "(\<And>a. ok (k2 a)) \<Longrightarrow> ok (call (CalculateBackoff pol n) k2)"
    and ok_update: "(\<And>a. ok (k3 a)) \<Longrightarrow> ok (call (UpdateTaskStatus (d_TaskStore D) i ts msg) k3)"
    and ok_complete: "(\<And>a. ok (k4 a)) \<Longrightarrow> ok (call (CompleteAttempt (d_AttemptStore D) i ts msg) k4)"
    and ok_post: "(\<And>a. ok (k5 a)) \<Longrightarrow> ok (call (CreatePlatformPost (d_PostStore D) i p pid url resp) k5)"
begin

lemma ok_complete_attempt: "ok k \<Longrightarrow> ok (p_complete_attempt D a st msg k)"
  by (simp add: p_complete_attempt_def ok_complete split: sum.split)

lemma ok_ends:
  assumes "\<And>r. ok (k r)"
  shows "ok (p_fail_attempt D task a msg k)" "ok (p_succeed_attempt D task a result k)"
    "ok (p_retry_or_give_up D task a j err k)"
  unfolding p_fail_attempt_def p_succeed_attempt_def p_retry_or_give_up_def Let_def
  by (auto intro!: ok_complete_attempt ok_update ok_post ok_backoff assms)

lemma ok_failed: "(\<And>ts. ok (k ts)) \<Longrightarrow> ok (p_failed_status p msg k)"
  unfolding p_failed_status_def by (intro ok_time)

end

locale platform_steps = attempt_steps ok D
  for ok :: "('a env_scheme, 'b) proc \<Rightarrow> bool" and D +
  assumes ok_incr: "(\<And>a. ok (k6 a)) \<Longrightarrow> ok (call (IncrementAttemptCount (d_TaskStore D) i) k6)"
    and ok_attempt_record: "(\<And>a. ok (k7 a)) \<Longrightarrow> ok (call (CreateAttempt (d_AttemptStore D) i n) k7)"
    and ok_claim: "(\<And>a. ok (k8 a)) \<Longrightarrow> ok (call (Claim (d_IdempotencyStore D) K) k8)"
    and ok_get_pair: "(\<And>a. ok (k9 a)) \<Longrightarrow> ok (call (GetTaskByContentPlatform (d_TaskStore D) i p) k9)"
    and ok_create: "(\<And>a. ok (k10 a)) \<Longrightarrow> ok (call (CreateTask (d_TaskStore D) i p) k10)"
    and ok_validate: "Registry_Get (d_Platforms D) p = Inr P \<Longrightarrow> (\<And>a. ok (k11 a)) \<Longrightarrow> ok (call (pf_Validate P doc) k11)"
    and ok_upload: "Registry_Get (d_Platforms D) p = Inr P \<Longrightarrow> (\<And>a. ok (k12 a)) \<Longrightarrow> ok (call (pf_UploadAssets P assets) k12)"
    and ok_publish: "Registry_Get (d_Platforms D) p = Inr P \<Longrightarrow> (\<And>a. ok (k13 a)) \<Longrightarrow> ok (call (pf_Publish P doc creds) k13)"
begin

lemma ok_option: "ok q \<Longrightarrow> (\<And>x. ok (f x)) \<Longrightarrow> ok (case y of None \<Rightarrow> q | Some x \<Rightarrow> f x)"
  by (simp split: option.split)

lemma ok_sum: "(\<And>x. ok (f x)) \<Longrightarrow> (\<And>x. ok (g x)) \<Longrightarrow> ok (case y of Inl x \<Rightarrow> f x | Inr x \<Rightarrow> g x)"
  by (simp split: sum.split)

lemma ok_if: "(b \<Longrightarrow> ok q) \<Longrightarrow> (\<not> b \<Longrightarrow> ok r) \<Longrightarrow> ok (if b then q else r)"
  by simp

lemma ok_attempt:
  assumes P: "Registry_Get (d_Platforms D) p = Inr P" and k: "\<And>r. ok (k r)"
  shows "ok (p_attempt_body D task content P j k)"
  unfolding p_attempt_body_def Let_def
  by (intro ok_incr ok_attempt_record ok_update ok_validate [OF P] ok_option ok_sum ok_upload [OF P]
      ok_publish [OF P] ok_ends k)

lemma ok_retry_loop:
  assumes P: "Registry_Get (d_Platforms D) p = Inr P" and k: "\<And>r. ok (k r)"
  shows "ok (p_retry_loop D task content P j k)"
proof (induction "nat (rp_max_retries (pt_retry_policy task) + 1 - j)" arbitrary: j rule: less_induct)
  case less
  show ?case
    unfolding p_retry_loop.simps [of _ _ _ _ j]
    by (intro ok_if ok_attempt [OF P] ok_option k less) simp
qed

lemma ok_platform:
  assumes "\<And>ts. ok (k ts)"
  shows "ok (p_executePlatformTask D c p content k)"
proof (cases "Registry_Get (d_Platforms D) p")
  case (Inl e)
  then show ?thesis by (simp add: p_executePlatformTask_def ok_failed assms)
next
  case (Inr P)
  have "ok (p_run_created_task D p task content P k)" for task
    unfolding p_run_created_task_def Let_def
    by (rule ok_retry_loop [OF Inr]) (auto intro!: ok_time assms split: option.split)
  then show ?thesis
    unfolding p_executePlatformTask_def Let_def Inr sum.case
    by (intro ok_time ok_claim ok_get_pair ok_create ok_sum ok_if ok_failed assms)
qed

lemma ok_platforms: "(\<And>r. ok (k r)) \<Longrightarrow> ok (p_execute_platforms D c content ps k)"
  by (induction ps arbitrary: k) (simp_all add: ok_platform)

end

end
