(* ===== verification/PublishStorage.thy ===== *)
theory PublishStorage
  imports StorageTypes
begin

text \<open>
  \<open>internal/publish/storage.go\<close>: the in-memory stores the publish service runs on. Unlike the
  stores of \<open>internal/storage\<close> they validate status transitions, take version 0 as "any version",
  index tasks by the text \<open>contentID:platform\<close> and refuse a second platform post for a task. Each
  store is a struct of its own with its own mutex; the model has one state with one instance of
  each, and a method is one atomic operation.
\<close>

section \<open>State\<close>

record contentEntry =
  ce_content :: Content
  ce_version :: int

record idempotencyEntry =
  ie_entity_id :: string
  ie_expires_at :: Time

record PublishMemory = env +
  pm_entries :: "contentEntry gomap"
  pm_tasks :: "PublishTask gomap"
  pm_byCombo :: "string gomap"
  pm_attempts :: "PublishAttempt gomap"
  pm_records :: "PlatformPostRecord gomap"
  pm_idempotency :: "idempotencyEntry gomap"

definition NewPublishMemory :: "env \<Rightarrow> PublishMemory" where
  "NewPublishMemory e = env.extend e
     (PublishMemory.fields DAList.empty DAList.empty DAList.empty DAList.empty DAList.empty
        DAList.empty)"

section \<open>Content store\<close>

definition pcs_CreateContent ::
  "string \<Rightarrow> string \<Rightarrow> string list \<Rightarrow> ('a PublishMemory_scheme, Content result) state" where
  "pcs_CreateContent title body tags = do {
     now \<leftarrow> time_Now;
     ident \<leftarrow> generateID;
     let c = \<lparr>ct_id = ident, ct_title = title, ct_body = body, ct_tags = tags,
              ct_status = ContentStatusDraft, ct_metadata = [],
              ct_created_at = now, ct_updated_at = now\<rparr>;
     modify (\<lambda>s. s\<lparr>pm_entries :=
       DAList.update (ct_id c) \<lparr>ce_content = c, ce_version = 1\<rparr> (pm_entries s)\<rparr>);
     ret (Inr c)
   }"

definition pcs_GetContent :: "string \<Rightarrow> ('a PublishMemory_scheme, Content result) state" where
  "pcs_GetContent ident = do {
     m \<leftarrow> gets pm_entries;
     case DAList.lookup m ident of
       None \<Rightarrow> ret (Inl ErrNotFound)
     | Some entry \<Rightarrow> ret (Inr (ce_content entry))
   }"

text \<open>The bounds and the slice of \<open>ListContent\<close>.\<close>

definition list_page :: "'b list \<Rightarrow> Pagination \<Rightarrow> 'b list" where
  "list_page filtered page =
     (let n = int (length filtered);
          start = pg_offset page;
          start = (if start > n then n else start);
          end' = start + pg_limit page;
          end' = (if end' > n then n else end')
      in take (nat (end' - start)) (drop (nat start) filtered))"

definition pcs_ListContent ::
  "ContentStatus \<Rightarrow> Pagination \<Rightarrow>
     ('a PublishMemory_scheme, (Content list \<times> PageResult) result) state" where
  "pcs_ListContent status page = do {
     let page = Normalize page;
     m \<leftarrow> gets pm_entries;
     entries \<leftarrow> range_map m;
     let filtered = filter (\<lambda>c. ContentStatus_string status = '''' \<or> ct_status c = status)
                      (map (\<lambda>(_, entry). ce_content entry) entries);
     ret (Inr (list_page filtered page,
       \<lparr>pgr_total = int (length filtered), pgr_limit = pg_limit page, pgr_offset = pg_offset page\<rparr>))
   }"

definition pcs_UpdateContent ::
  "string \<Rightarrow> ContentStatus \<Rightarrow> int \<Rightarrow> ('a PublishMemory_scheme, go_error option) state" where
  "pcs_UpdateContent ident status version = do {
     m \<leftarrow> gets pm_entries;
     case DAList.lookup m ident of
       None \<Rightarrow> ret (Some ErrNotFound)
     | Some entry \<Rightarrow>
         if version > 0 \<and> ce_version entry \<noteq> version then ret (Some ErrVersionConflict)
         else if \<not> ContentStatus_CanTransitionTo (ct_status (ce_content entry)) status then
           ret (Some (Errorf (''invalid status transition: '' @
             ContentStatus_string (ct_status (ce_content entry)) @ '' -> '' @
             ContentStatus_string status)))
         else do {
           now \<leftarrow> time_Now;
           modify (\<lambda>s. s\<lparr>pm_entries := DAList.update ident
             (entry\<lparr>ce_content := (ce_content entry)\<lparr>ct_status := status, ct_updated_at := now\<rparr>,
                   ce_version := ce_version entry + 1\<rparr>) (pm_entries s)\<rparr>);
           ret None
         }
   }"

section \<open>Publish task store\<close>

definition combo :: "string \<Rightarrow> string \<Rightarrow> string" where
  "combo contentID platform = contentID @ '':'' @ platform"

text \<open>
  The code returns the stored task itself, not a copy; its callers read only fields that no
  method writes (the identifiers, the policy, the creation time), or read it at once.
\<close>

definition pts_CreateTask ::
  "string \<Rightarrow> string \<Rightarrow> ('a PublishMemory_scheme, PublishTask result) state" where
  "pts_CreateTask contentID platform = do {
     m \<leftarrow> gets pm_byCombo;
     case DAList.lookup m (combo contentID platform) of
       Some _ \<Rightarrow> ret (Inl ErrConflict)
     | None \<Rightarrow> do {
         now \<leftarrow> time_Now;
         ident \<leftarrow> generateID;
         let task = \<lparr>pt_id = ident, pt_content_id = contentID, pt_platform = platform,
                     pt_status = PublishTaskStatusPending, pt_retry_policy = DefaultRetryPolicy,
                     pt_attempt_count = 0, pt_error = '''', pt_created_at = now,
                     pt_updated_at = now\<rparr>;
         modify (\<lambda>s. s\<lparr>pm_tasks := DAList.update (pt_id task) task (pm_tasks s)\<rparr>);
         modify (\<lambda>s. s\<lparr>pm_byCombo :=
           DAList.update (combo contentID platform) (pt_id task) (pm_byCombo s)\<rparr>);
         ret (Inr task)
       }
   }"

definition pts_GetTask :: "string \<Rightarrow> ('a PublishMemory_scheme, PublishTask result) state" where
  "pts_GetTask ident = do {
     m \<leftarrow> gets pm_tasks;
     case DAList.lookup m ident of
       None \<Rightarrow> ret (Inl ErrNotFound)
     | Some task \<Rightarrow> ret (Inr task)
   }"

definition pts_GetTasksByContent ::
  "string \<Rightarrow> ('a PublishMemory_scheme, PublishTask list result) state" where
  "pts_GetTasksByContent contentID = do {
     m \<leftarrow> gets pm_tasks;
     entries \<leftarrow> range_map m;
     ret (Inr (filter (\<lambda>t. pt_content_id t = contentID) (map snd entries)))
   }"

definition pts_GetTaskByContentPlatform ::
  "string \<Rightarrow> string \<Rightarrow> ('a PublishMemory_scheme, PublishTask result) state" where
  "pts_GetTaskByContentPlatform contentID platform = do {
     idx \<leftarrow> gets pm_byCombo;
     m \<leftarrow> gets pm_tasks;
     case DAList.lookup idx (combo contentID platform) of
       None \<Rightarrow> ret (Inl ErrNotFound)
     | Some taskID \<Rightarrow>
         (case DAList.lookup m taskID of
            None \<Rightarrow> ret (Inl (Panic ''nil pointer dereference''))
          | Some task \<Rightarrow> ret (Inr task))
   }"

definition pts_UpdateTaskStatus ::
  "string \<Rightarrow> PublishTaskStatus \<Rightarrow> string \<Rightarrow> ('a PublishMemory_scheme, go_error option) state" where
  "pts_UpdateTaskStatus ident status errMsg = do {
     m \<leftarrow> gets pm_tasks;
     case DAList.lookup m ident of
       None \<Rightarrow> ret (Some ErrNotFound)
     | Some task \<Rightarrow>
         if \<not> PublishTaskStatus_CanTransitionTo (pt_status task) status then
           ret (Some (Errorf (''invalid task status transition: '' @
             PublishTaskStatus_string (pt_status task) @ '' -> '' @ PublishTaskStatus_string status)))
         else do {
           now \<leftarrow> time_Now;
           modify (\<lambda>s. s\<lparr>pm_tasks := DAList.update ident
             (task\<lparr>pt_status := status, pt_error := errMsg, pt_updated_at := now\<rparr>) (pm_tasks s)\<rparr>);
           ret None
         }
   }"

definition pts_IncrementAttemptCount ::
  "string \<Rightarrow> ('a PublishMemory_scheme, go_error option) state" where
  "pts_IncrementAttemptCount ident = do {
     m \<leftarrow> gets pm_tasks;
     case DAList.lookup m ident of
       None \<Rightarrow> ret (Some ErrNotFound)
     | Some task \<Rightarrow> do {
         now \<leftarrow> time_Now;
         modify (\<lambda>s. s\<lparr>pm_tasks := DAList.update ident
           (task\<lparr>pt_attempt_count := pt_attempt_count task + 1, pt_updated_at := now\<rparr>)
           (pm_tasks s)\<rparr>);
         ret None
       }
   }"

section \<open>Publish attempt store\<close>

definition pas_CreateAttempt ::
  "string \<Rightarrow> int \<Rightarrow> ('a PublishMemory_scheme, PublishAttempt result) state" where
  "pas_CreateAttempt taskID attemptNumber = do {
     ident \<leftarrow> generateID;
     now \<leftarrow> time_Now;
     let attempt = \<lparr>pa_id = ident, pa_task_id = taskID, pa_attempt_number = attemptNumber,
                    pa_status = PublishTaskStatusProcessing, pa_error = '''',
                    pa_started_at = now, pa_completed_at = None\<rparr>;
     modify (\<lambda>s. s\<lparr>pm_attempts := DAList.update (pa_id attempt) attempt (pm_attempts s)\<rparr>);
     ret (Inr attempt)
   }"

definition pas_CompleteAttempt ::
  "string \<Rightarrow> PublishTaskStatus \<Rightarrow> string \<Rightarrow> ('a PublishMemory_scheme, go_error option) state" where
  "pas_CompleteAttempt ident status errMsg = do {
     m \<leftarrow> gets pm_attempts;
     case DAList.lookup m ident of
       None \<Rightarrow> ret (Some ErrNotFound)
     | Some attempt \<Rightarrow> do {
         now \<leftarrow> time_Now;
         modify (\<lambda>s. s\<lparr>pm_attempts := DAList.update ident
           (attempt\<lparr>pa_status := status, pa_error := errMsg, pa_completed_at := Some now\<rparr>)
           (pm_attempts s)\<rparr>);
         ret None
       }
   }"

definition pas_GetAttemptsByTask ::
  "string \<Rightarrow> ('a PublishMemory_scheme, PublishAttempt list result) state" where
  "pas_GetAttemptsByTask taskID = do {
     m \<leftarrow> gets pm_attempts;
     entries \<leftarrow> range_map m;
     ret (Inr (filter (\<lambda>a. pa_task_id a = taskID) (map snd entries)))
   }"

section \<open>Platform post store\<close>

definition pps_CreatePlatformPost ::
  "string \<Rightarrow> string \<Rightarrow> string \<Rightarrow> string \<Rightarrow> string \<Rightarrow>
     ('a PublishMemory_scheme, go_error option) state" where
  "pps_CreatePlatformPost taskID platform platformPostID platformURL response = do {
     m \<leftarrow> gets pm_records;
     case DAList.lookup m taskID of
       Some _ \<Rightarrow> ret (Some ErrConflict)
     | None \<Rightarrow> do {
         ident \<leftarrow> generateID;
         let rec = \<lparr>pp_id = ident, pp_task_id = taskID, pp_platform = platform,
                    pp_platform_post_id = platformPostID, pp_platform_url = platformURL,
                    pp_response = response\<rparr>;
         modify (\<lambda>s. s\<lparr>pm_records := DAList.update taskID rec (pm_records s)\<rparr>);
         ret None
       }
   }"

definition pps_GetByTask ::
  "string \<Rightarrow> ('a PublishMemory_scheme, PlatformPostRecord result) state" where
  "pps_GetByTask taskID = do {
     m \<leftarrow> gets pm_records;
     case DAList.lookup m taskID of
       None \<Rightarrow> ret (Inl ErrNotFound)
     | Some rec \<Rightarrow> ret (Inr rec)
   }"

section \<open>Idempotency store\<close>

definition pis_fullKey :: "string \<Rightarrow> IdempotencyKeyScope \<Rightarrow> string" where
  "pis_fullKey key scope = scope_string scope @ '':'' @ key"

text \<open>\<open>exists && time.Now().UTC().Before(...)\<close> reads the clock only when the entry exists.\<close>

definition pis_Claim :: "IdempotencyKey \<Rightarrow> ('a PublishMemory_scheme, bool result) state" where
  "pis_Claim key = do {
     let fullKey = pis_fullKey (ik_key key) (ik_scope key);
     m \<leftarrow> gets pm_idempotency;
     held \<leftarrow> (case DAList.lookup m fullKey of
        None \<Rightarrow> ret False
      | Some entry \<Rightarrow> do {
          now \<leftarrow> time_Now;
          ret (now < ie_expires_at entry)
        });
     if held then ret (Inr False)
     else do {
       now \<leftarrow> time_Now;
       modify (\<lambda>s. s\<lparr>pm_idempotency := DAList.update fullKey
         \<lparr>ie_entity_id = ik_entity_id key, ie_expires_at = now + ik_ttl key\<rparr> (pm_idempotency s)\<rparr>);
       ret (Inr True)
     }
   }"

definition pis_Get ::
  "string \<Rightarrow> IdempotencyKeyScope \<Rightarrow> ('a PublishMemory_scheme, string result) state" where
  "pis_Get key scope = do {
     let fullKey = pis_fullKey key scope;
     m \<leftarrow> gets pm_idempotency;
     case DAList.lookup m fullKey of
       None \<Rightarrow> ret (Inl ErrNotFound)
     | Some entry \<Rightarrow> do {
         now \<leftarrow> time_Now;
         if now > ie_expires_at entry then ret (Inl ErrNotFound)
         else ret (Inr (ie_entity_id entry))
       }
   }"

definition pis_cleanup_loop ::
  "Time \<Rightarrow> (string \<times> idempotencyEntry) list \<Rightarrow> idempotencyEntry gomap \<Rightarrow>
     idempotencyEntry gomap \<times> int" where
  "pis_cleanup_loop now entries m =
     foldl (\<lambda>(m, removed) (k, entry).
              if now > ie_expires_at entry then (DAList.delete k m, removed + 1) else (m, removed))
           (m, 0) entries"

definition pis_Cleanup :: "('a PublishMemory_scheme, int result) state" where
  "pis_Cleanup = do {
     now \<leftarrow> time_Now;
     m \<leftarrow> gets pm_idempotency;
     entries \<leftarrow> range_map m;
     let (m', removed) = pis_cleanup_loop now entries m;
     modify (\<lambda>s. s\<lparr>pm_idempotency := m'\<rparr>);
     ret (Inr removed)
   }"

section \<open>The store interfaces it implements\<close>

definition PubContentStore :: "('a PublishMemory_scheme) ContentStore" where
  "PubContentStore =
     \<lparr>CreateContent = pcs_CreateContent, GetContent = pcs_GetContent,
      ListContent = pcs_ListContent, UpdateContent = pcs_UpdateContent\<rparr>"

definition PubTaskStore :: "('a PublishMemory_scheme) PublishTaskStore" where
  "PubTaskStore =
     \<lparr>CreateTask = pts_CreateTask, GetTask = pts_GetTask,
      GetTasksByContent = pts_GetTasksByContent,
      GetTaskByContentPlatform = pts_GetTaskByContentPlatform,
      UpdateTaskStatus = pts_UpdateTaskStatus,
      IncrementAttemptCount = pts_IncrementAttemptCount\<rparr>"

definition PubAttemptStore :: "('a PublishMemory_scheme) PublishAttemptStore" where
  "PubAttemptStore =
     \<lparr>CreateAttempt = pas_CreateAttempt, CompleteAttempt = pas_CompleteAttempt,
      GetAttemptsByTask = pas_GetAttemptsByTask\<rparr>"

definition PubPostStore :: "('a PublishMemory_scheme) PlatformPostStore" where
  "PubPostStore =
     \<lparr>CreatePlatformPost = pps_CreatePlatformPost, GetByTask = pps_GetByTask\<rparr>"

definition PubIdempotencyStore :: "('a PublishMemory_scheme) IdempotencyStore" where
  "PubIdempotencyStore = \<lparr>Claim = pis_Claim, IdemGet = pis_Get, Cleanup = pis_Cleanup\<rparr>"

end
