(* ===== verification/StoreContracts.thy ===== *)
theory StoreContracts
  imports StorageTypes
begin

text \<open>
  What the code relies on of the store interfaces of \<open>internal/storage\<close>, as locales: the methods,
  a view of the stored data, and the laws a provider promises. Client facts are proved here once
  from the laws. \<open>StorageContracts\<close> and \<open>PublishContracts\<close> interpret every locale on the two
  families of stores the repository has.
\<close>

section \<open>Vocabulary the two families of stores share\<close>

text \<open>Tasks are filed under their identifier, and no two are for the same content and platform.\<close>

definition tasks_ok :: "(string \<Rightarrow> PublishTask option) \<Rightarrow> bool" where
  "tasks_ok m \<longleftrightarrow>
     (\<forall>i t. m i = Some t \<longrightarrow> pt_id t = i) \<and>
     (\<forall>i t j u. m i = Some t \<longrightarrow> m j = Some u \<longrightarrow> pt_content_id t = pt_content_id u \<longrightarrow>
        pt_platform t = pt_platform u \<longrightarrow> i = j)"

lemma tasks_okD:
  "tasks_ok m \<Longrightarrow> m i = Some t \<Longrightarrow> pt_id t = i"
  "tasks_ok m \<Longrightarrow> m i = Some t \<Longrightarrow> m j = Some u \<Longrightarrow> pt_content_id t = pt_content_id u \<Longrightarrow>
     pt_platform t = pt_platform u \<Longrightarrow> i = j"
  unfolding tasks_ok_def by blast+

lemma tasks_ok_insert:
  "tasks_ok m \<Longrightarrow>
     (\<nexists>i u. m i = Some u \<and> pt_content_id u = pt_content_id t \<and> pt_platform u = pt_platform t) \<Longrightarrow>
     tasks_ok (m(pt_id t \<mapsto> t))"
  unfolding tasks_ok_def by (auto split: if_splits) metis

lemma tasks_ok_update:
  "tasks_ok m \<Longrightarrow> m i = Some t \<Longrightarrow> pt_id u = pt_id t \<Longrightarrow> pt_content_id u = pt_content_id t \<Longrightarrow>
     pt_platform u = pt_platform t \<Longrightarrow> tasks_ok (m(i \<mapsto> u))"
  unfolding tasks_ok_def by (auto split: if_splits)

definition pending_task :: "string \<Rightarrow> string \<Rightarrow> PublishTask \<Rightarrow> bool" where
  "pending_task c p t \<longleftrightarrow>
     pt_content_id t = c \<and> pt_platform t = p \<and> pt_status t = PublishTaskStatusPending \<and>
     pt_retry_policy t = DefaultRetryPolicy \<and> pt_attempt_count t = 0 \<and> pt_error t = ''''"

definition new_task :: "string \<Rightarrow> Time \<Rightarrow> string \<Rightarrow> string \<Rightarrow> PublishTask" where
  "new_task ident now c p =
     \<lparr>pt_id = ident, pt_content_id = c, pt_platform = p, pt_status = PublishTaskStatusPending,
      pt_retry_policy = DefaultRetryPolicy, pt_attempt_count = 0, pt_error = '''',
      pt_created_at = now, pt_updated_at = now\<rparr>"

lemma new_task_simps [simp]:
  "pt_id (new_task i now c p) = i" "pt_content_id (new_task i now c p) = c"
  "pt_platform (new_task i now c p) = p" "pending_task c p (new_task i now c p)"
  by (simp_all add: new_task_def pending_task_def)

definition has_pair :: "(string \<Rightarrow> PublishTask option) \<Rightarrow> string \<Rightarrow> string \<Rightarrow> bool" where
  "has_pair m c p \<longleftrightarrow> (\<exists>i t. m i = Some t \<and> pt_content_id t = c \<and> pt_platform t = p)"

text \<open>The identifier and the time \<open>CreateTask\<close> gives a task after \<open>n\<close> earlier readings.\<close>

definition uuid_at :: "'a env_scheme \<Rightarrow> nat \<Rightarrow> string" where
  "uuid_at s n = uuid_format (uuid_bytes (map (entropy s n) [0..<16]))"

definition new_content :: "string \<Rightarrow> Time \<Rightarrow> string \<Rightarrow> string \<Rightarrow> string list \<Rightarrow> Content" where
  "new_content ident now title body tags =
     \<lparr>ct_id = ident, ct_title = title, ct_body = body, ct_tags = tags,
      ct_status = ContentStatusDraft, ct_metadata = [], ct_created_at = now, ct_updated_at = now\<rparr>"

lemma new_content_simps [simp]:
  "ct_id (new_content i n t b g) = i" "ct_title (new_content i n t b g) = t"
  "ct_body (new_content i n t b g) = b" "ct_tags (new_content i n t b g) = g"
  "ct_status (new_content i n t b g) = ContentStatusDraft"
  by (simp_all add: new_content_def)

definition same_but_env :: "'a env_scheme \<Rightarrow> 'a env_scheme \<Rightarrow> bool" where
  "same_but_env s s' \<longleftrightarrow> clock s' = clock s \<and> entropy s' = entropy s \<and> tick s \<le> tick s'"

text \<open>
  Random identifiers can collide, if with a negligible probability. \<open>fresh_until s n\<close> says that
  the first \<open>n\<close> readings of the random source do not; then every identifier in a store was drawn
  before the current reading, so a new one is new.
\<close>

definition fresh_until :: "'a env_scheme \<Rightarrow> nat \<Rightarrow> bool" where
  "fresh_until s n \<longleftrightarrow> inj_on (uuid_at s) {..<n}"

definition drawn :: "'a env_scheme \<Rightarrow> string \<Rightarrow> bool" where
  "drawn s i \<longleftrightarrow> (\<exists>n < tick s. i = uuid_at s n)"

lemma uuid_at_env: "same_but_env s s' \<Longrightarrow> uuid_at s' = uuid_at s"
  by (rule ext) (simp add: same_but_env_def uuid_at_def)

lemma drawn_later: "same_but_env s s' \<Longrightarrow> drawn s i \<Longrightarrow> drawn s' i"
  unfolding drawn_def using uuid_at_env [of s s'] by (auto simp: same_but_env_def intro: order.strict_trans2)

lemma drawn_next:
  "fresh_until s n \<Longrightarrow> tick s \<le> k \<Longrightarrow> k < n \<Longrightarrow> \<not> drawn s (uuid_at s k)"
  unfolding fresh_until_def drawn_def
  by (metis inj_onD lessThan_iff order.strict_trans order.strict_trans2 less_irrefl)

text \<open>The example environment draws distinct identifiers for its first 256 readings.\<close>

lemma fresh_env0:
  assumes "entropy s = entropy env0" "n \<le> 256"
  shows "fresh_until s n"
  unfolding fresh_until_def
proof (rule inj_onI)
  fix x y assume xy: "x \<in> {..<n}" "y \<in> {..<n}" and eq: "uuid_at s x = uuid_at s y"
  let ?b = "\<lambda>k. map (\<lambda>_. of_nat k :: 8 word) [0..<16]"
  have "uuid_bytes (?b x) = uuid_bytes (?b y)"
    using uuid_format_inject [of "uuid_bytes (?b x)" "uuid_bytes (?b y)"] eq assms(1)
    by (simp add: uuid_at_def env0_def)
  then have "uuid_bytes (?b x) ! 0 = uuid_bytes (?b y) ! 0" by simp
  then have "(of_nat x :: 8 word) = of_nat y" by (simp add: uuid_bytes_def Let_def)
  moreover have "x < 2 ^ LENGTH(8)" "y < 2 ^ LENGTH(8)" using xy assms(2) by auto
  ultimately show "x = y" by (metis take_bit_nat_eq_self_iff word_of_nat_eq_iff)
qed

definition content_kept :: "Content \<times> int \<Rightarrow> Content \<times> int \<Rightarrow> bool" where
  "content_kept cv cv' \<longleftrightarrow>
     snd cv \<le> snd cv' \<and> (snd cv' = snd cv \<longrightarrow> fst cv' = fst cv) \<and>
     ct_id (fst cv') = ct_id (fst cv) \<and> ct_title (fst cv') = ct_title (fst cv) \<and>
     ct_body (fst cv') = ct_body (fst cv) \<and> ct_tags (fst cv') = ct_tags (fst cv)"

lemma content_kept_refl [simp]: "content_kept cv cv"
  by (simp add: content_kept_def)

lemma content_kept_trans: "content_kept a b \<Longrightarrow> content_kept b c \<Longrightarrow> content_kept a c"
  by (auto simp: content_kept_def)

section \<open>Runs of an idempotency store\<close>

datatype idem_op = OpClaim IdempotencyKey | OpGet string IdempotencyKeyScope | OpCleanup

fun idem_step :: "'s IdempotencyStore \<Rightarrow> idem_op \<Rightarrow> 's \<Rightarrow> 's" where
  "idem_step IS (OpClaim K) s = fin (Claim IS K) s"
| "idem_step IS (OpGet k sc) s = fin (IdemGet IS k sc) s"
| "idem_step IS OpCleanup s = fin (Cleanup IS) s"

definition idem_run :: "'s IdempotencyStore \<Rightarrow> idem_op list \<Rightarrow> 's \<Rightarrow> 's" where
  "idem_run IS ops s = fold (idem_step IS) ops s"

section \<open>Idempotency stores\<close>

locale idempotency_store =
  fixes IS :: "('a env_scheme) IdempotencyStore"
    and fullkey :: "string \<Rightarrow> IdempotencyKeyScope \<Rightarrow> string"
    and entry :: "'a env_scheme \<Rightarrow> string \<Rightarrow> (string \<times> Time) option"
  assumes claim_held:
    "entry s (fullkey (ik_key K) (ik_scope K)) = Some (ent, x) \<Longrightarrow> clock s (tick s) < x \<Longrightarrow>
       res (Claim IS K) s = Inr False \<and> entry (fin (Claim IS K) s) = entry s"
    and claim_free:
    "(\<And>ent x. entry s (fullkey (ik_key K) (ik_scope K)) = Some (ent, x) \<Longrightarrow> x \<le> clock s (tick s)) \<Longrightarrow>
       res (Claim IS K) s = Inr True \<and>
       (\<exists>n \<ge> tick s. entry (fin (Claim IS K) s) =
          (entry s)(fullkey (ik_key K) (ik_scope K) \<mapsto> (ik_entity_id K, clock s n + ik_ttl K)))"
    and get_live:
    "entry s (fullkey k sc) = Some (ent, x) \<Longrightarrow> clock s (tick s) \<le> x \<Longrightarrow>
       res (IdemGet IS k sc) s = Inr ent"
    and get_dead:
    "(\<And>ent x. entry s (fullkey k sc) = Some (ent, x) \<Longrightarrow> x < clock s (tick s)) \<Longrightarrow>
       \<exists>e. res (IdemGet IS k sc) s = Inl e \<and> errors_Is e ErrNotFound"
    and get_entry: "entry (fin (IdemGet IS k sc) s) = entry s"
    and cleanup_entry:
    "entry (fin (Cleanup IS) s) k =
       (case entry s k of None \<Rightarrow> None
        | Some (ent, x) \<Rightarrow> if x < clock s (tick s) then None else Some (ent, x))"
    and idem_env:
    "clock (idem_step IS op s) = clock s \<and> tick s \<le> tick (idem_step IS op s)"
begin

text \<open>A live entry survives every operation until its deadline.\<close>

lemma step_keeps_live:
  assumes mono: "clock_mono s" and e: "entry s fk = Some (ent, x)"
    and live: "clock s (tick s) < x"
  shows "entry (idem_step IS op s) fk = Some (ent, x)"
proof (cases op)
  case (OpClaim K)
  let ?fk = "fullkey (ik_key K) (ik_scope K)"
  show ?thesis
  proof (cases "\<exists>ent' x'. entry s ?fk = Some (ent', x') \<and> clock s (tick s) < x'")
    case True
    then show ?thesis using claim_held OpClaim e by fastforce
  next
    case False
    then have "?fk \<noteq> fk" using e live by blast
    moreover have "x' \<le> clock s (tick s)" if "entry s ?fk = Some (ent', x')" for ent' x'
      using False that by force
    ultimately show ?thesis using claim_free [of s K] OpClaim e by force
  qed
qed (use assms in \<open>simp_all add: get_entry cleanup_entry\<close>)

lemma run_env:
  "clock (idem_run IS ops s) = clock s \<and> tick s \<le> tick (idem_run IS ops s)"
proof (induction ops arbitrary: s)
  case (Cons op ops)
  from Cons.IH [of "idem_step IS op s"] idem_env [of op s] show ?case
    by (auto simp: idem_run_def)
qed (simp add: idem_run_def)

lemma run_keeps_live:
  assumes "clock_mono s" "entry s fk = Some (ent, x)" "clock s (tick (idem_run IS ops s)) < x"
  shows "entry (idem_run IS ops s) fk = Some (ent, x)"
  using assms
proof (induction ops arbitrary: s)
  case Nil
  then show ?case by (simp add: idem_run_def)
next
  case (Cons op ops)
  let ?s' = "idem_step IS op s"
  have run: "idem_run IS (op # ops) s = idem_run IS ops ?s'" by (simp add: idem_run_def)
  have env: "clock ?s' = clock s" by (simp add: idem_env)
  have "tick s \<le> tick (idem_run IS (op # ops) s)" using run_env by blast
  with Cons.prems(1,3) have "clock s (tick s) < x"
    by (meson clock_mono_def order.strict_trans1)
  with Cons.prems(1,2) have "entry ?s' fk = Some (ent, x)" by (rule step_keeps_live)
  moreover have "clock_mono ?s'" using Cons.prems(1) env by (simp add: clock_mono_def)
  ultimately show ?case using Cons.IH [of ?s'] Cons.prems(3) env by (simp add: run)
qed

lemma claim_entry:
  assumes "res (Claim IS K) s = Inr True"
  shows "\<exists>n \<ge> tick s. entry (fin (Claim IS K) s) =
     (entry s)(fullkey (ik_key K) (ik_scope K) \<mapsto> (ik_entity_id K, clock s n + ik_ttl K))"
proof -
  have "x \<le> clock s (tick s)" if "entry s (fullkey (ik_key K) (ik_scope K)) = Some (ent, x)" for ent x
    using claim_held [OF that] assms by force
  then show ?thesis using claim_free by blast
qed

lemma claim_env: "clock (fin (Claim IS K) s) = clock s" "tick s \<le> tick (fin (Claim IS K) s)"
  using idem_env [of "OpClaim K" s] by simp_all

text \<open>
  Mutual exclusion: after a successful claim, whatever operations follow, a claim of the same
  key before the deadline fails, and the key reads back as the entity that claimed it.
\<close>

lemma claim_exclusive:
  assumes "clock_mono s" "res (Claim IS K) s = Inr True"
    and "s2 = idem_run IS ops (fin (Claim IS K) s)"
    and "clock s (tick s2) < clock s (tick s) + ik_ttl K"
    and same: "fullkey (ik_key K') (ik_scope K') = fullkey (ik_key K) (ik_scope K)"
  shows "res (Claim IS K') s2 = Inr False"
    and "res (IdemGet IS (ik_key K) (ik_scope K)) s2 = Inr (ik_entity_id K)"
proof -
  let ?s1 = "fin (Claim IS K) s" and ?fk = "fullkey (ik_key K) (ik_scope K)"
  obtain n where n: "tick s \<le> n" "entry ?s1 ?fk = Some (ik_entity_id K, clock s n + ik_ttl K)"
    using claim_entry [OF assms(2)] by auto
  have "clock s (tick s) \<le> clock s n" using assms(1) n(1) by (simp add: clock_mono_def)
  with assms(4) have lt: "clock s (tick s2) < clock s n + ik_ttl K" by simp
  have mono1: "clock_mono ?s1" using assms(1) claim_env by (simp add: clock_mono_def)
  have e: "entry s2 ?fk = Some (ik_entity_id K, clock s n + ik_ttl K)"
    using run_keeps_live [OF mono1 n(2)] lt by (simp add: assms(3) claim_env)
  have "clock s2 = clock s" using run_env [of ops ?s1] by (simp add: assms(3) claim_env)
  with lt have "clock s2 (tick s2) < clock s n + ik_ttl K" by simp
  with e same show "res (Claim IS K') s2 = Inr False" using claim_held by metis
  show "res (IdemGet IS (ik_key K) (ik_scope K)) s2 = Inr (ik_entity_id K)"
    using get_live [OF e] lt \<open>clock s2 = clock s\<close> by simp
qed

end

section \<open>Publish task stores\<close>

text \<open>
  \<open>accepts\<close> says which status updates the store admits; \<open>good\<close> restricts content identifiers to
  those the store can tell apart.
\<close>

locale task_store =
  fixes TS :: "'s PublishTaskStore"
    and tasks :: "'s \<Rightarrow> string \<Rightarrow> PublishTask option"
    and inv :: "'s \<Rightarrow> bool"
    and good :: "string \<Rightarrow> bool"
    and accepts :: "PublishTaskStatus \<Rightarrow> PublishTaskStatus \<Rightarrow> bool"
  assumes create_new:
    "inv s \<Longrightarrow> good c \<Longrightarrow>
       (\<nexists>i t. tasks s i = Some t \<and> pt_content_id t = c \<and> pt_platform t = p) \<Longrightarrow>
       \<exists>t. res (CreateTask TS c p) s = Inr t \<and> pending_task c p t \<and>
           (tasks s (pt_id t) = None \<longrightarrow>
              inv (fin (CreateTask TS c p) s) \<and>
              tasks (fin (CreateTask TS c p) s) = (tasks s)(pt_id t \<mapsto> t))"
    and create_dup:
    "inv s \<Longrightarrow> good c \<Longrightarrow> tasks s i = Some t \<Longrightarrow> pt_content_id t = c \<Longrightarrow> pt_platform t = p \<Longrightarrow>
       (\<exists>e. res (CreateTask TS c p) s = Inl e \<and> errors_Is e ErrConflict) \<and>
       inv (fin (CreateTask TS c p) s) \<and> tasks (fin (CreateTask TS c p) s) = tasks s"
    and lookup_pair:
    "inv s \<Longrightarrow> good c \<Longrightarrow>
       res (GetTaskByContentPlatform TS c p) s = Inr t \<longleftrightarrow>
         (\<exists>i. tasks s i = Some t \<and> pt_content_id t = c \<and> pt_platform t = p)"
    and lookup_frame:
    "inv s \<Longrightarrow> inv (fin (GetTaskByContentPlatform TS c p) s) \<and>
       tasks (fin (GetTaskByContentPlatform TS c p) s) = tasks s"
    and update_ok:
    "inv s \<Longrightarrow> tasks s i = Some t \<Longrightarrow> accepts (pt_status t) st \<Longrightarrow>
       res (UpdateTaskStatus TS i st msg) s = None \<and> inv (fin (UpdateTaskStatus TS i st msg) s) \<and>
       (\<exists>now. tasks (fin (UpdateTaskStatus TS i st msg) s) =
          (tasks s)(i \<mapsto> t\<lparr>pt_status := st, pt_error := msg, pt_updated_at := now\<rparr>))"
    and update_rejected:
    "inv s \<Longrightarrow> tasks s i = None \<or> (\<exists>t. tasks s i = Some t \<and> \<not> accepts (pt_status t) st) \<Longrightarrow>
       res (UpdateTaskStatus TS i st msg) s \<noteq> None \<and> inv (fin (UpdateTaskStatus TS i st msg) s) \<and>
       tasks (fin (UpdateTaskStatus TS i st msg) s) = tasks s"
    and incr_ok:
    "inv s \<Longrightarrow> tasks s i = Some t \<Longrightarrow>
       res (IncrementAttemptCount TS i) s = None \<and> inv (fin (IncrementAttemptCount TS i) s) \<and>
       (\<exists>now. tasks (fin (IncrementAttemptCount TS i) s) =
          (tasks s)(i \<mapsto> t\<lparr>pt_attempt_count := pt_attempt_count t + 1, pt_updated_at := now\<rparr>))"
begin

text \<open>One task per content and platform: creating again conflicts, looking up finds the first.\<close>

lemma create_then:
  assumes "inv s" "good c"
    and none: "\<nexists>i t. tasks s i = Some t \<and> pt_content_id t = c \<and> pt_platform t = p"
    and run: "run_state (CreateTask TS c p) s = (Inr t, s1)"
    and fresh: "tasks s (pt_id t) = None"
  shows "res (GetTaskByContentPlatform TS c p) s1 = Inr t"
    and "\<exists>e. res (CreateTask TS c p) s1 = Inl e \<and> errors_Is e ErrConflict"
    and "tasks (fin (CreateTask TS c p) s1) = tasks s1"
proof -
  obtain t' where t': "res (CreateTask TS c p) s = Inr t'" "pending_task c p t'"
    "tasks s (pt_id t') = None \<longrightarrow> inv (fin (CreateTask TS c p) s) \<and>
       tasks (fin (CreateTask TS c p) s) = (tasks s)(pt_id t' \<mapsto> t')"
    using create_new [OF assms(1-3)] by (elim exE conjE) (rule that)
  have "res (CreateTask TS c p) s = Inr t" and fin: "fin (CreateTask TS c p) s = s1"
    by (simp_all only: run fst_conv snd_conv)
  with t'(1) have eq: "t' = t" by simp
  note t' = t'(2,3) [unfolded eq fin]
  from t'(2) fresh have s1: "inv s1" "tasks s1 (pt_id t) = Some t" by simp_all
  from t'(1) have t: "pt_content_id t = c" "pt_platform t = p" by (simp_all add: pending_task_def)
  show "res (GetTaskByContentPlatform TS c p) s1 = Inr t"
    using lookup_pair [OF s1(1) assms(2)] s1(2) t by blast
  show "\<exists>e. res (CreateTask TS c p) s1 = Inl e \<and> errors_Is e ErrConflict"
    and "tasks (fin (CreateTask TS c p) s1) = tasks s1"
    using create_dup [OF s1(1) assms(2) s1(2) t] by blast+
qed

end

text \<open>A store that checks every update against the task machine.\<close>

locale validating_task_store = task_store +
  assumes accepts_valid: "accepts s t \<longleftrightarrow> PublishTaskStatus_CanTransitionTo s t"
begin

lemma terminal_frozen:
  assumes "inv s" "tasks s i = Some t" "PublishTaskStatus_IsTerminal (pt_status t)"
  shows "res (UpdateTaskStatus TS i st msg) s \<noteq> None"
    and "tasks (fin (UpdateTaskStatus TS i st msg) s) = tasks s"
proof -
  have "\<not> accepts (pt_status t) st"
    using assms(3) task_step_from [of "pt_status t" st]
    by (auto simp: accepts_valid PublishTaskStatus_IsTerminal_def)
  with assms(1,2) show "res (UpdateTaskStatus TS i st msg) s \<noteq> None"
    and "tasks (fin (UpdateTaskStatus TS i st msg) s) = tasks s"
    using update_rejected by blast+
qed

end

section \<open>Content stores\<close>

text \<open>The view of a content store: each content with its version counter.\<close>

locale content_store =
  fixes CS :: "'s ContentStore"
    and contents :: "'s \<Rightarrow> string \<Rightarrow> (Content \<times> int) option"
    and accepts :: "Content \<Rightarrow> int \<Rightarrow> ContentStatus \<Rightarrow> int \<Rightarrow> bool"
  assumes create_content:
    "\<exists>c. res (CreateContent CS title body tags) s = Inr c \<and>
         ct_title c = title \<and> ct_body c = body \<and> ct_tags c = tags \<and>
         ct_status c = ContentStatusDraft \<and>
         contents (fin (CreateContent CS title body tags) s) = (contents s)(ct_id c \<mapsto> (c, 1))"
    and get_content:
    "res (GetContent CS i) s = Inr c \<longleftrightarrow> (\<exists>v. contents s i = Some (c, v))"
    and get_missing:
    "contents s i = None \<Longrightarrow> \<exists>e. res (GetContent CS i) s = Inl e \<and> errors_Is e ErrNotFound"
    and get_content_frame: "contents (fin (GetContent CS i) s) = contents s"
    and update_content_ok:
    "contents s i = Some (c, v) \<Longrightarrow> accepts c v st w \<Longrightarrow>
       res (UpdateContent CS i st w) s = None \<and>
       (\<exists>now. contents (fin (UpdateContent CS i st w) s) =
          (contents s)(i \<mapsto> (c\<lparr>ct_status := st, ct_updated_at := now\<rparr>, v + 1)))"
    and update_content_rejected:
    "contents s i = None \<or> (\<exists>c v. contents s i = Some (c, v) \<and> \<not> accepts c v st w) \<Longrightarrow>
       res (UpdateContent CS i st w) s \<noteq> None \<and>
       contents (fin (UpdateContent CS i st w) s) = contents s"
    and stale_rejected: "0 < w \<Longrightarrow> w \<noteq> v \<Longrightarrow> \<not> accepts c v st w"
begin

text \<open>
  No lost update: of two updates that present the same version, the second fails, and what the
  first wrote is what stays.
\<close>

lemma second_update_rejected:
  assumes "contents s i = Some (c, v)" "0 < v" "res (UpdateContent CS i st v) s = None"
  shows "res (UpdateContent CS i st' v) (fin (UpdateContent CS i st v) s) \<noteq> None"
    and "contents (fin (UpdateContent CS i st' v) (fin (UpdateContent CS i st v) s)) =
         contents (fin (UpdateContent CS i st v) s)"
proof -
  let ?s1 = "fin (UpdateContent CS i st v) s"
  have "accepts c v st v" using update_content_rejected assms(1,3) by metis
  then obtain c' where "contents ?s1 i = Some (c', v + 1)"
    using update_content_ok [OF assms(1)] by fastforce
  moreover have "\<not> accepts c' (v + 1) st' v" using stale_rejected assms(2) by simp
  ultimately show "res (UpdateContent CS i st' v) ?s1 \<noteq> None"
    and "contents (fin (UpdateContent CS i st' v) ?s1) = contents ?s1"
    using update_content_rejected [of ?s1 i st' v] by blast+
qed

end

text \<open>A store as the publish service needs it: version 0 stands for any version.\<close>

locale wildcard_content_store = content_store +
  assumes accepts_wildcard:
    "accepts c v st 0 \<longleftrightarrow> ContentStatus_CanTransitionTo (ct_status c) st"
begin

lemma wildcard_update:
  assumes "contents s i = Some (c, v)"
  shows "res (UpdateContent CS i st 0) s = None \<longleftrightarrow>
           ContentStatus_CanTransitionTo (ct_status c) st"
  using update_content_ok [OF assms] update_content_rejected [of s i st 0] assms accepts_wildcard
  by metis

end

end
