(* ===== verification/PublishContracts.thy ===== *)
theory PublishContracts
  imports PublishStorage StoreContracts
begin

text \<open>
  The stores of \<open>internal/publish/storage.go\<close> meet the contracts of \<open>StoreContracts\<close>: the task store
  validates every status update, the content store takes version 0 for any version. Over runs the
  stores refine the two status machines of \<open>internal/contracts\<close>.
\<close>

section \<open>Views and invariant\<close>

definition pm_contents :: "'a PublishMemory_scheme \<Rightarrow> string \<Rightarrow> (Content \<times> int) option" where
  "pm_contents s i =
     map_option (\<lambda>e. (ce_content e, ce_version e)) (DAList.lookup (pm_entries s) i)"

definition pm_task_map :: "'a PublishMemory_scheme \<Rightarrow> string \<Rightarrow> PublishTask option" where
  "pm_task_map s = DAList.lookup (pm_tasks s)"

definition pm_combos :: "'a PublishMemory_scheme \<Rightarrow> string \<Rightarrow> string option" where
  "pm_combos s = DAList.lookup (pm_byCombo s)"

definition pm_idem_map :: "'a PublishMemory_scheme \<Rightarrow> string \<Rightarrow> (string \<times> Time) option" where
  "pm_idem_map s k =
     map_option (\<lambda>e. (ie_entity_id e, ie_expires_at e)) (DAList.lookup (pm_idempotency s) k)"

text \<open>
  Content identifiers without a colon keep the index keys apart; the generated ones have none
  (\<open>uuid_no_colon\<close>).
\<close>

definition colon_free :: "string \<Rightarrow> bool" where
  "colon_free c \<longleftrightarrow> CHR '':'' \<notin> set c"

definition index_ok :: "(string \<Rightarrow> PublishTask option) \<Rightarrow> (string \<Rightarrow> string option) \<Rightarrow> bool" where
  "index_ok m idx \<longleftrightarrow>
     (\<forall>k i. idx k = Some i \<longleftrightarrow>
        (\<exists>t. m i = Some t \<and> k = combo (pt_content_id t) (pt_platform t))) \<and>
     (\<forall>i t. m i = Some t \<longrightarrow> pt_id t = i \<and> colon_free (pt_content_id t))"

definition pm_inv :: "'a PublishMemory_scheme \<Rightarrow> bool" where
  "pm_inv s \<longleftrightarrow> index_ok (pm_task_map s) (pm_combos s)"

lemma append_colon_inject:
  "colon_free a \<Longrightarrow> colon_free b \<Longrightarrow> a @ '':'' @ p = b @ '':'' @ q \<Longrightarrow> a = b \<and> p = q"
proof (induction a arbitrary: b)
  case Nil
  then show ?case by (cases b) (auto simp: colon_free_def)
next
  case (Cons x a)
  from Cons.prems obtain y b' where b: "b = y # b'"
    by (cases b) (auto simp: colon_free_def)
  with Cons.prems have "colon_free a" "colon_free b'" "a @ '':'' @ p = b' @ '':'' @ q" "x = y"
    by (auto simp: colon_free_def)
  from Cons.IH [OF this(1-3)] b this(4) show ?case by simp
qed

lemma combo_inject:
  "colon_free c \<Longrightarrow> colon_free c' \<Longrightarrow> combo c p = combo c' p' \<longleftrightarrow> c = c' \<and> p = p'"
  using append_colon_inject [of c c' p p'] by (auto simp: combo_def)

lemma index_ok_lookup:
  assumes "index_ok m idx" "colon_free c"
  shows "idx (combo c p) = Some i \<longleftrightarrow> (\<exists>t. m i = Some t \<and> pt_content_id t = c \<and> pt_platform t = p)"
proof -
  have "idx (combo c p) = Some i \<longleftrightarrow>
      (\<exists>t. m i = Some t \<and> combo c p = combo (pt_content_id t) (pt_platform t))"
    using assms(1) by (simp add: index_ok_def)
  also have "\<dots> \<longleftrightarrow> (\<exists>t. m i = Some t \<and> pt_content_id t = c \<and> pt_platform t = p)"
  proof -
    have "combo c p = combo (pt_content_id t) (pt_platform t) \<longleftrightarrow>
        pt_content_id t = c \<and> pt_platform t = p" if "m i = Some t" for t
      using assms that combo_inject [of c "pt_content_id t"] by (auto simp: index_ok_def)
    then show ?thesis by blast
  qed
  finally show ?thesis .
qed

lemma index_ok_id: "index_ok m idx \<Longrightarrow> m i = Some t \<Longrightarrow> pt_id t = i \<and> colon_free (pt_content_id t)"
  by (simp add: index_ok_def)

lemma index_ok_insert:
  assumes "index_ok m idx" "colon_free (pt_content_id t)" "m (pt_id t) = None"
    and "idx (combo (pt_content_id t) (pt_platform t)) = None"
  shows "index_ok (m(pt_id t \<mapsto> t)) (idx(combo (pt_content_id t) (pt_platform t) \<mapsto> pt_id t))"
  using assms unfolding index_ok_def by (auto split: if_splits) (metis option.distinct(1))

lemma index_ok_update:
  assumes "index_ok m idx" "m i = Some t" "pt_id u = pt_id t" "pt_content_id u = pt_content_id t"
    and "pt_platform u = pt_platform t"
  shows "index_ok (m(i \<mapsto> u)) idx"
  using assms unfolding index_ok_def by auto

lemma pm_views_tick [simp]:
  "pm_contents (s\<lparr>tick := n\<rparr>) = pm_contents s" "pm_task_map (s\<lparr>tick := n\<rparr>) = pm_task_map s"
  "pm_combos (s\<lparr>tick := n\<rparr>) = pm_combos s"
  "pm_idem_map (s\<lparr>tick := n\<rparr>) = pm_idem_map s" "pm_inv (s\<lparr>tick := n\<rparr>) = pm_inv s"
  by (simp_all add: pm_contents_def pm_task_map_def pm_combos_def pm_idem_map_def pm_inv_def fun_eq_iff)

lemma pm_views_update [simp]:
  "pm_idem_map (s\<lparr>tick := n, pm_idempotency := DAList.update k r (pm_idempotency s)\<rparr>) =
     (pm_idem_map s)(k \<mapsto> (ie_entity_id r, ie_expires_at r))"
  "pm_task_map (s\<lparr>tick := n, pm_tasks := DAList.update i t (pm_tasks s)\<rparr>) = (pm_task_map s)(i \<mapsto> t)"
  "pm_combos (s\<lparr>tick := n, pm_tasks := m\<rparr>) = pm_combos s"
  "pm_task_map (s\<lparr>tick := n, pm_tasks := DAList.update i t (pm_tasks s), pm_byCombo := x\<rparr>) =
     (pm_task_map s)(i \<mapsto> t)"
  "pm_combos (s\<lparr>tick := n, pm_tasks := m, pm_byCombo := DAList.update k i (pm_byCombo s)\<rparr>) =
     (pm_combos s)(k \<mapsto> i)"
  "pm_contents (s\<lparr>tick := n, pm_entries := DAList.update i e (pm_entries s)\<rparr>) =
     (pm_contents s)(i \<mapsto> (ce_content e, ce_version e))"
  by (simp_all add: pm_idem_map_def pm_task_map_def pm_combos_def pm_contents_def fun_eq_iff)

section \<open>The idempotency store\<close>

lemma run_pis_Claim:
  "run_state (pis_Claim K) s =
     (case pm_idem_map s (pis_fullKey (ik_key K) (ik_scope K)) of
        Some (ent, x) \<Rightarrow>
          if clock s (tick s) < x then (Inr False, s\<lparr>tick := Suc (tick s)\<rparr>)
          else (Inr True, s\<lparr>tick := Suc (Suc (tick s)),
            pm_idempotency := DAList.update (pis_fullKey (ik_key K) (ik_scope K))
              \<lparr>ie_entity_id = ik_entity_id K, ie_expires_at = clock s (Suc (tick s)) + ik_ttl K\<rparr>
              (pm_idempotency s)\<rparr>)
      | None \<Rightarrow> (Inr True, s\<lparr>tick := Suc (tick s),
            pm_idempotency := DAList.update (pis_fullKey (ik_key K) (ik_scope K))
              \<lparr>ie_entity_id = ik_entity_id K, ie_expires_at = clock s (tick s) + ik_ttl K\<rparr>
              (pm_idempotency s)\<rparr>))"
  by (cases "DAList.lookup (pm_idempotency s) (pis_fullKey (ik_key K) (ik_scope K))")
    (simp_all add: pis_Claim_def Let_def pm_idem_map_def)

lemma run_pis_Get:
  "run_state (pis_Get k sc) s =
     (case pm_idem_map s (pis_fullKey k sc) of
        None \<Rightarrow> (Inl ErrNotFound, s)
      | Some (ent, x) \<Rightarrow>
          (if x < clock s (tick s) then Inl ErrNotFound else Inr ent, s\<lparr>tick := Suc (tick s)\<rparr>))"
  by (simp add: pis_Get_def Let_def pm_idem_map_def split: option.split)

lemma run_pis_Cleanup:
  "(\<exists>n. res pis_Cleanup s = Inr n) \<and>
   clock (fin pis_Cleanup s) = clock s \<and> tick (fin pis_Cleanup s) = Suc (Suc (tick s)) \<and>
   pm_idem_map (fin pis_Cleanup s) k =
     (case pm_idem_map s k of None \<Rightarrow> None
      | Some (ent, x) \<Rightarrow> if x < clock s (tick s) then None else Some (ent, x))"
proof -
  let ?now = "clock s (tick s)"
    and ?es = "shuffle (range_order s (Suc (tick s))) (DAList.impl_of (pm_idempotency s))"
  obtain m' r' where loop: "pis_cleanup_loop ?now ?es (pm_idempotency s) = (m', r')" by fastforce
  note facts = foldl_delete [OF loop [unfolded pis_cleanup_loop_def]]
  show ?thesis
    using facts
    by (cases "DAList.lookup (pm_idempotency s) k")
      (auto simp: pis_Cleanup_def Let_def loop pm_idem_map_def)
qed

lemma PubIdempotencyStore_simps [simp]:
  "Claim PubIdempotencyStore = pis_Claim" "IdemGet PubIdempotencyStore = pis_Get"
  "Cleanup PubIdempotencyStore = pis_Cleanup"
  by (simp_all add: PubIdempotencyStore_def)

interpretation pis: idempotency_store "PubIdempotencyStore" pis_fullKey pm_idem_map
proof (unfold_locales, goal_cases)
  case (1 s K ent x)
  then show ?case by (simp add: run_pis_Claim)
next
  case (2 s K)
  show ?case
  proof (cases "pm_idem_map s (pis_fullKey (ik_key K) (ik_scope K))")
    case None
    then show ?thesis by (auto simp: run_pis_Claim)
  next
    case (Some p)
    then obtain ent x where p: "pm_idem_map s (pis_fullKey (ik_key K) (ik_scope K)) = Some (ent, x)"
      by fastforce
    from 2 [OF p] p show ?thesis by (auto simp: run_pis_Claim intro!: exI [of _ "Suc (tick s)"])
  qed
next
  case (3 s k sc ent x)
  then show ?case by (simp add: run_pis_Get)
next
  case (4 s k sc)
  then show ?case by (cases "pm_idem_map s (pis_fullKey k sc)") (auto simp: run_pis_Get)
next
  case (5 k sc s)
  then show ?case by (auto simp: run_pis_Get split: option.split)
next
  case (6 s k)
  then show ?case using run_pis_Cleanup [of s k] by simp
next
  case (7 op' s)
  then show ?case
    using run_pis_Cleanup [of s]
    by (cases op') (auto simp: run_pis_Claim run_pis_Get split: option.split)
qed

section \<open>The task store\<close>

lemma run_pts_CreateTask:
  "run_state (pts_CreateTask c p) s =
     (case pm_combos s (combo c p) of
        Some _ \<Rightarrow> (Inl ErrConflict, s)
      | None \<Rightarrow>
          (let t = new_task (uuid_at s (tick s + 1)) (clock s (tick s)) c p
           in (Inr t, s\<lparr>tick := tick s + 2, pm_tasks := DAList.update (pt_id t) t (pm_tasks s),
                       pm_byCombo := DAList.update (combo c p) (pt_id t) (pm_byCombo s)\<rparr>)))"
  by (cases "DAList.lookup (pm_byCombo s) (combo c p)")
    (simp_all add: pts_CreateTask_def pm_combos_def run_generateID Let_def new_task_def uuid_at_def)

lemma run_pts_GetTask:
  "run_state (pts_GetTask i) s =
     (case pm_task_map s i of None \<Rightarrow> Inl ErrNotFound | Some t \<Rightarrow> Inr t, s)"
  by (simp add: pts_GetTask_def pm_task_map_def split: option.split)

lemma run_pts_GetTaskByContentPlatform:
  "run_state (pts_GetTaskByContentPlatform c p) s =
     (case pm_combos s (combo c p) of
        None \<Rightarrow> Inl ErrNotFound
      | Some i \<Rightarrow>
          (case pm_task_map s i of
             None \<Rightarrow> Inl (Panic ''nil pointer dereference'')
           | Some t \<Rightarrow> Inr t), s)"
  by (simp add: pts_GetTaskByContentPlatform_def pm_combos_def pm_task_map_def split: option.split)

definition transition_error :: "PublishTaskStatus \<Rightarrow> PublishTaskStatus \<Rightarrow> go_error" where
  "transition_error st st' =
     Errorf (''invalid task status transition: '' @ PublishTaskStatus_string st @ '' -> '' @
       PublishTaskStatus_string st')"

lemma run_pts_UpdateTaskStatus:
  "run_state (pts_UpdateTaskStatus i st msg) s =
     (case pm_task_map s i of
        None \<Rightarrow> (Some ErrNotFound, s)
      | Some t \<Rightarrow>
          if PublishTaskStatus_CanTransitionTo (pt_status t) st
          then (None, s\<lparr>tick := Suc (tick s), pm_tasks := DAList.update i
            (t\<lparr>pt_status := st, pt_error := msg, pt_updated_at := clock s (tick s)\<rparr>) (pm_tasks s)\<rparr>)
          else (Some (transition_error (pt_status t) st), s))"
  by (simp add: pts_UpdateTaskStatus_def pm_task_map_def transition_error_def split: option.split)

lemma run_pts_IncrementAttemptCount:
  "run_state (pts_IncrementAttemptCount i) s =
     (case pm_task_map s i of
        None \<Rightarrow> (Some ErrNotFound, s)
      | Some t \<Rightarrow> (None, s\<lparr>tick := Suc (tick s), pm_tasks := DAList.update i
          (t\<lparr>pt_attempt_count := pt_attempt_count t + 1, pt_updated_at := clock s (tick s)\<rparr>)
          (pm_tasks s)\<rparr>))"
  by (simp add: pts_IncrementAttemptCount_def pm_task_map_def split: option.split)

lemma PubTaskStore_simps [simp]:
  "CreateTask PubTaskStore = pts_CreateTask" "GetTask PubTaskStore = pts_GetTask"
  "GetTaskByContentPlatform PubTaskStore = pts_GetTaskByContentPlatform"
  "UpdateTaskStatus PubTaskStore = pts_UpdateTaskStatus"
  "IncrementAttemptCount PubTaskStore = pts_IncrementAttemptCount"
  by (simp_all add: PubTaskStore_def)

interpretation pts: validating_task_store "PubTaskStore" pm_task_map pm_inv colon_free
  PublishTaskStatus_CanTransitionTo
proof (unfold_locales, goal_cases)
  case (1 s c p)
  then have none: "pm_combos s (combo c p) = None"
    using index_ok_lookup [of "pm_task_map s" "pm_combos s" c p]
    by (metis not_Some_eq pm_inv_def)
  let ?t = "new_task (uuid_at s (tick s + 1)) (clock s (tick s)) c p"
  have "index_ok ((pm_task_map s)(pt_id ?t \<mapsto> ?t))
      ((pm_combos s)(combo (pt_content_id ?t) (pt_platform ?t) \<mapsto> pt_id ?t))"
    if "pm_task_map s (pt_id ?t) = None"
    by (rule index_ok_insert) (use 1 none that in \<open>simp_all add: pm_inv_def\<close>)
  with none show ?case by (simp add: run_pts_CreateTask Let_def pm_inv_def)
next
  case (2 s c i t p)
  then have "pm_combos s (combo c p) = Some i"
    using index_ok_lookup [of "pm_task_map s" "pm_combos s" c p i] by (auto simp: pm_inv_def)
  with 2 show ?case by (simp add: run_pts_CreateTask)
next
  case (3 s c p t)
  then have ix: "pm_combos s (combo c p) = Some i \<longleftrightarrow>
      (\<exists>t. pm_task_map s i = Some t \<and> pt_content_id t = c \<and> pt_platform t = p)" for i
    using index_ok_lookup by (simp add: pm_inv_def)
  show ?case
  proof (cases "pm_combos s (combo c p)")
    case None
    with ix show ?thesis by (auto simp: run_pts_GetTaskByContentPlatform)
  next
    case (Some i)
    then obtain t' where t': "pm_task_map s i = Some t'" "pt_content_id t' = c" "pt_platform t' = p"
      using ix by blast
    have "j = i" if "pm_task_map s j = Some t" "pt_content_id t = c" "pt_platform t = p" for j
      using ix [of j] that Some by auto
    with Some t' show ?thesis by (auto simp: run_pts_GetTaskByContentPlatform)
  qed
next
  case (4 s c p)
  then show ?case by (simp add: run_pts_GetTaskByContentPlatform)
next
  case (5 s i t st msg)
  then show ?case
    by (auto simp: run_pts_UpdateTaskStatus pm_inv_def intro!: index_ok_update)
next
  case (6 s i st msg)
  then show ?case by (auto simp: run_pts_UpdateTaskStatus)
next
  case (7 s i t)
  then show ?case
    by (auto simp: run_pts_IncrementAttemptCount pm_inv_def intro!: index_ok_update)
qed simp

section \<open>The content store\<close>

lemma run_pcs_CreateContent:
  "run_state (pcs_CreateContent title body tags) s =
     (let c = new_content (uuid_at s (tick s + 1)) (clock s (tick s)) title body tags
      in (Inr c, s\<lparr>tick := tick s + 2,
            pm_entries := DAList.update (ct_id c) \<lparr>ce_content = c, ce_version = 1\<rparr> (pm_entries s)\<rparr>))"
  by (simp add: pcs_CreateContent_def run_generateID Let_def new_content_def uuid_at_def)

lemma run_pcs_GetContent:
  "run_state (pcs_GetContent i) s =
     (case pm_contents s i of None \<Rightarrow> Inl ErrNotFound | Some (c, _) \<Rightarrow> Inr c, s)"
  by (cases "DAList.lookup (pm_entries s) i") (simp_all add: pcs_GetContent_def pm_contents_def)

definition content_transition_error :: "ContentStatus \<Rightarrow> ContentStatus \<Rightarrow> go_error" where
  "content_transition_error st st' =
     Errorf (''invalid status transition: '' @ ContentStatus_string st @ '' -> '' @
       ContentStatus_string st')"

lemma contentEntry_fields:
  "(z :: contentEntry)\<lparr>ce_content := c, ce_version := v\<rparr> = \<lparr>ce_content = c, ce_version = v\<rparr>"
  by (cases z) simp

lemma run_pcs_UpdateContent:
  "run_state (pcs_UpdateContent i st w) s =
     (case pm_contents s i of
        None \<Rightarrow> (Some ErrNotFound, s)
      | Some (c, v) \<Rightarrow>
          if 0 < w \<and> v \<noteq> w then (Some ErrVersionConflict, s)
          else if ContentStatus_CanTransitionTo (ct_status c) st
          then (None, s\<lparr>tick := Suc (tick s), pm_entries := DAList.update i
            \<lparr>ce_content = c\<lparr>ct_status := st, ct_updated_at := clock s (tick s)\<rparr>, ce_version = v + 1\<rparr>
            (pm_entries s)\<rparr>)
          else (Some (content_transition_error (ct_status c) st), s))"
  by (cases "DAList.lookup (pm_entries s) i")
    (simp_all add: pcs_UpdateContent_def pm_contents_def content_transition_error_def contentEntry_fields)

lemma PubContentStore_simps [simp]:
  "CreateContent PubContentStore = pcs_CreateContent"
  "GetContent PubContentStore = pcs_GetContent"
  "UpdateContent PubContentStore = pcs_UpdateContent"
  by (simp_all add: PubContentStore_def)

interpretation pcs: wildcard_content_store "PubContentStore" pm_contents
  "\<lambda>c v st w. (0 < w \<longrightarrow> w = v) \<and> ContentStatus_CanTransitionTo (ct_status c) st"
proof (unfold_locales, goal_cases)
  case (1 title body tags s)
  then show ?case by (auto simp: run_pcs_CreateContent Let_def)
next
  case (2 i s c)
  then show ?case by (auto simp: run_pcs_GetContent split: option.split)
next
  case (3 s i)
  then show ?case by (simp add: run_pcs_GetContent)
next
  case (4 i s)
  then show ?case by (simp add: run_pcs_GetContent)
next
  case (5 s i c v st w)
  then show ?case by (auto simp: run_pcs_UpdateContent)
next
  case (6 s i st w)
  then show ?case by (auto simp: run_pcs_UpdateContent)
qed simp_all

section \<open>Steps of the publish stores\<close>

inductive pm_step :: "'a PublishMemory_scheme \<Rightarrow> 'a PublishMemory_scheme \<Rightarrow> bool" where
  "pm_step s (fin (pcs_CreateContent title body tags) s)"
| "pm_step s (fin (pcs_UpdateContent i st v) s)"
| "pm_step s (fin (pts_CreateTask c p) s)"
| "pm_step s (fin (pts_UpdateTaskStatus i ts msg) s)"
| "pm_step s (fin (pts_IncrementAttemptCount i) s)"
| "pm_step s (fin (pps_CreatePlatformPost i p pid url r) s)"
| "pm_step s (fin (pcs_GetContent i) s)"
| "pm_step s (fin (pcs_ListContent st pg) s)"
| "pm_step s (fin (pts_GetTask i) s)"
| "pm_step s (fin (pts_GetTasksByContent c) s)"
| "pm_step s (fin (pts_GetTaskByContentPlatform c p) s)"
| "pm_step s (fin (pas_CreateAttempt i n) s)"
| "pm_step s (fin (pas_CompleteAttempt i ts msg) s)"
| "pm_step s (fin (pas_GetAttemptsByTask i) s)"
| "pm_step s (fin (pps_GetByTask i) s)"
| "pm_step s (fin (pis_Claim K) s)"
| "pm_step s (fin (pis_Get k sc) s)"
| "pm_step s (fin pis_Cleanup s)"

definition pm_quiet :: "'a PublishMemory_scheme \<Rightarrow> 'a PublishMemory_scheme \<Rightarrow> bool" where
  "pm_quiet s s' \<longleftrightarrow> same_but_env s s' \<and> pm_entries s' = pm_entries s \<and> pm_tasks s' = pm_tasks s \<and>
     pm_byCombo s' = pm_byCombo s \<and> pm_records s' = pm_records s"

lemmas publish_defs =
  pcs_GetContent_def pcs_ListContent_def pts_GetTask_def pts_GetTasksByContent_def
  pts_GetTaskByContentPlatform_def pas_CreateAttempt_def pas_CompleteAttempt_def
  pas_GetAttemptsByTask_def pps_GetByTask_def pis_Claim_def pis_Get_def pis_Cleanup_def

lemma pm_quiet_keeps: "keeps (pm_quiet s) m \<Longrightarrow> pm_quiet s (fin m s)"
  by (erule keepsD) (simp add: pm_quiet_def same_but_env_def)

lemma quiet_ops:
  "keeps (pm_quiet s) (pcs_GetContent i)" "keeps (pm_quiet s) (pcs_ListContent st pg)"
  "keeps (pm_quiet s) (pts_GetTask i)" "keeps (pm_quiet s) (pts_GetTasksByContent c)"
  "keeps (pm_quiet s) (pts_GetTaskByContentPlatform c p)"
  "keeps (pm_quiet s) (pas_CreateAttempt i n)" "keeps (pm_quiet s) (pas_CompleteAttempt i ts msg)"
  "keeps (pm_quiet s) (pas_GetAttemptsByTask i)" "keeps (pm_quiet s) (pps_GetByTask i)"
  "keeps (pm_quiet s) (pis_Claim K)" "keeps (pm_quiet s) (pis_Get k sc)"
  "keeps (pm_quiet s) pis_Cleanup"
  by (unfold publish_defs; intro keeps_intros; simp add: pm_quiet_def same_but_env_def)+

text \<open>What a run keeps of a task, and the history of the stored data.\<close>

definition task_kept :: "PublishTask \<Rightarrow> PublishTask \<Rightarrow> bool" where
  "task_kept t t' \<longleftrightarrow>
     pt_id t' = pt_id t \<and> pt_content_id t' = pt_content_id t \<and> pt_platform t' = pt_platform t \<and>
     pt_retry_policy t' = pt_retry_policy t \<and> pt_attempt_count t \<le> pt_attempt_count t' \<and>
     task_step\<^sup>*\<^sup>* (pt_status t) (pt_status t')"

definition content_moved :: "Content \<times> int \<Rightarrow> Content \<times> int \<Rightarrow> bool" where
  "content_moved cv cv' \<longleftrightarrow>
     content_kept cv cv' \<and> content_step\<^sup>*\<^sup>* (ct_status (fst cv)) (ct_status (fst cv'))"

definition pm_history :: "'a PublishMemory_scheme \<Rightarrow> 'a PublishMemory_scheme \<Rightarrow> bool" where
  "pm_history s s' \<longleftrightarrow> same_but_env s s' \<and>
     (\<forall>i cv. pm_contents s i = Some cv \<longrightarrow> (\<exists>cv'. pm_contents s' i = Some cv' \<and> content_moved cv cv')) \<and>
     (\<forall>i t. pm_task_map s i = Some t \<longrightarrow> (\<exists>t'. pm_task_map s' i = Some t' \<and> task_kept t t')) \<and>
     (\<forall>k i. pm_combos s k = Some i \<longrightarrow> pm_combos s' k = Some i) \<and>
     (\<forall>i r. DAList.lookup (pm_records s) i = Some r \<longrightarrow> DAList.lookup (pm_records s') i = Some r)"

definition pm_wf :: "'a PublishMemory_scheme \<Rightarrow> bool" where
  "pm_wf s \<longleftrightarrow>
     (\<forall>i cv. pm_contents s i = Some cv \<longrightarrow> drawn s i \<and> ct_id (fst cv) = i \<and> 1 \<le> snd cv) \<and>
     (\<forall>i t. pm_task_map s i = Some t \<longrightarrow> drawn s i \<and> pt_id t = i)"

lemma task_kept_refl [simp]: "task_kept t t"
  by (simp add: task_kept_def)

lemma task_kept_trans: "task_kept a b \<Longrightarrow> task_kept b c \<Longrightarrow> task_kept a c"
  by (auto simp: task_kept_def)

lemma content_moved_refl [simp]: "content_moved cv cv"
  by (simp add: content_moved_def)

lemma content_moved_trans: "content_moved a b \<Longrightarrow> content_moved b c \<Longrightarrow> content_moved a c"
  by (auto simp: content_moved_def intro: content_kept_trans)

lemma pm_history_refl: "pm_history s s"
  by (simp add: pm_history_def same_but_env_def)

lemma pm_history_trans:
  assumes "pm_history s t" "pm_history t u"
  shows "pm_history s u"
proof -
  have "same_but_env s u" using assms by (auto simp: pm_history_def same_but_env_def)
  moreover have "\<exists>cv'. pm_contents u i = Some cv' \<and> content_moved cv cv'"
    if "pm_contents s i = Some cv" for i cv
    using assms that unfolding pm_history_def by (metis content_moved_trans)
  moreover have "\<exists>t'. pm_task_map u i = Some t' \<and> task_kept k t'" if "pm_task_map s i = Some k" for i k
    using assms that unfolding pm_history_def by (metis task_kept_trans)
  moreover have "pm_combos u k = Some i" if "pm_combos s k = Some i" for k i
    using assms that by (simp add: pm_history_def)
  moreover have "DAList.lookup (pm_records u) i = Some r" if "DAList.lookup (pm_records s) i = Some r" for i r
    using assms that by (simp add: pm_history_def)
  ultimately show ?thesis unfolding pm_history_def by blast
qed

lemma pm_quiet_wf:
  assumes "pm_quiet s s'" "pm_wf s"
  shows "pm_wf s' \<and> pm_history s s'"
proof -
  have "pm_contents s' = pm_contents s" "pm_task_map s' = pm_task_map s" "pm_combos s' = pm_combos s"
    using assms(1) by (simp_all add: pm_quiet_def pm_contents_def pm_task_map_def pm_combos_def fun_eq_iff)
  with assms show ?thesis
    by (auto simp: pm_wf_def pm_history_def pm_quiet_def intro: drawn_later)
qed

lemma pm_create_content_wf:
  assumes "pm_wf s" "fresh_until s (tick (fin (pcs_CreateContent title body tags) s))"
  shows "pm_wf (fin (pcs_CreateContent title body tags) s) \<and>
         pm_history s (fin (pcs_CreateContent title body tags) s)"
proof -
  let ?s' = "fin (pcs_CreateContent title body tags) s" and ?i = "uuid_at s (tick s + 1)"
  have env: "same_but_env s ?s'" by (simp add: run_pcs_CreateContent Let_def same_but_env_def)
  have view: "pm_contents ?s' = (pm_contents s)(?i \<mapsto> (new_content ?i (clock s (tick s)) title body tags, 1))"
    "pm_task_map ?s' = pm_task_map s" "pm_combos ?s' = pm_combos s" "pm_records ?s' = pm_records s"
    and tick: "tick ?s' = tick s + 2"
    by (simp_all add: run_pcs_CreateContent Let_def pm_task_map_def pm_combos_def)
  have "\<not> drawn s ?i" using drawn_next [OF assms(2), of "tick s + 1"] tick by simp
  then have none: "pm_contents s ?i = None" using assms(1)
    by (cases "pm_contents s ?i") (auto simp: pm_wf_def)
  have "drawn ?s' ?i"
    unfolding drawn_def using tick uuid_at_env [OF env] by (intro exI [of _ "tick s + 1"]) simp
  with assms(1) env view none show ?thesis
    by (auto simp: pm_wf_def pm_history_def intro: drawn_later)
qed

lemma pm_update_content_wf:
  assumes "pm_wf s"
  shows "pm_wf (fin (pcs_UpdateContent i st w) s) \<and> pm_history s (fin (pcs_UpdateContent i st w) s)"
proof (cases "res (pcs_UpdateContent i st w) s")
  case (Some err)
  then have "fin (pcs_UpdateContent i st w) s = s"
    by (auto simp: run_pcs_UpdateContent split: option.splits if_splits)
  with assms show ?thesis by (simp add: pm_history_refl)
next
  case None
  then obtain c v where c: "pm_contents s i = Some (c, v)"
    and acc: "0 < w \<longrightarrow> v = w" "ContentStatus_CanTransitionTo (ct_status c) st"
    by (auto simp: run_pcs_UpdateContent split: option.splits if_splits)
  let ?s' = "fin (pcs_UpdateContent i st w) s"
  let ?c = "c\<lparr>ct_status := st, ct_updated_at := clock s (tick s)\<rparr>"
  have env: "same_but_env s ?s'" and view: "pm_contents ?s' = (pm_contents s)(i \<mapsto> (?c, v + 1))"
    "pm_task_map ?s' = pm_task_map s" "pm_combos ?s' = pm_combos s" "pm_records ?s' = pm_records s"
    using c acc by (auto simp: run_pcs_UpdateContent same_but_env_def pm_task_map_def pm_combos_def)
  have moved: "content_moved (c, v) (?c, v + 1)"
    using acc(2) by (auto simp: content_moved_def content_kept_def)
  have "0 \<le> v" using assms c by (force simp: pm_wf_def)
  with assms c env view moved show ?thesis
    by (auto simp: pm_wf_def pm_history_def intro: drawn_later)
qed

lemma pm_create_task_wf:
  assumes "pm_wf s" "fresh_until s (tick (fin (pts_CreateTask c p) s))"
  shows "pm_wf (fin (pts_CreateTask c p) s) \<and> pm_history s (fin (pts_CreateTask c p) s)"
proof (cases "pm_combos s (combo c p)")
  case (Some i)
  with assms show ?thesis by (simp add: run_pts_CreateTask pm_history_refl)
next
  case None
  let ?s' = "fin (pts_CreateTask c p) s" and ?i = "uuid_at s (tick s + 1)"
  let ?t = "new_task ?i (clock s (tick s)) c p"
  have env: "same_but_env s ?s'" and view: "pm_contents ?s' = pm_contents s"
    "pm_task_map ?s' = (pm_task_map s)(?i \<mapsto> ?t)" "pm_combos ?s' = (pm_combos s)(combo c p \<mapsto> ?i)"
    "pm_records ?s' = pm_records s" and tick: "tick ?s' = tick s + 2"
    using None by (simp_all add: run_pts_CreateTask Let_def same_but_env_def pm_contents_def fun_eq_iff)
  have "\<not> drawn s ?i" using drawn_next [OF assms(2), of "tick s + 1"] tick by simp
  then have new: "pm_task_map s ?i = None" using assms(1)
    by (cases "pm_task_map s ?i") (auto simp: pm_wf_def)
  have "drawn ?s' ?i"
    unfolding drawn_def using tick uuid_at_env [OF env] by (intro exI [of _ "tick s + 1"]) simp
  with assms(1) env view None new show ?thesis
    by (auto simp: pm_wf_def pm_history_def intro: drawn_later)
qed

lemma pm_task_update_wf:
  assumes "pm_wf s" "pm_task_map s i = Some t" "task_kept t u"
    and "same_but_env s s'" "pm_contents s' = pm_contents s" "pm_task_map s' = (pm_task_map s)(i \<mapsto> u)"
    and "pm_combos s' = pm_combos s" "pm_records s' = pm_records s"
  shows "pm_wf s' \<and> pm_history s s'"
proof -
  have "pt_id u = i" using assms(1-3) by (simp add: pm_wf_def task_kept_def)
  with assms show ?thesis by (auto simp: pm_wf_def pm_history_def intro: drawn_later)
qed

lemma pm_status_wf:
  assumes "pm_wf s"
  shows "pm_wf (fin (pts_UpdateTaskStatus i st msg) s) \<and> pm_history s (fin (pts_UpdateTaskStatus i st msg) s)"
proof (cases "res (pts_UpdateTaskStatus i st msg) s")
  case (Some err)
  then have "fin (pts_UpdateTaskStatus i st msg) s = s"
    by (auto simp: run_pts_UpdateTaskStatus split: option.splits if_splits)
  with assms show ?thesis by (simp add: pm_history_refl)
next
  case None
  then obtain t where t: "pm_task_map s i = Some t" "PublishTaskStatus_CanTransitionTo (pt_status t) st"
    by (auto simp: run_pts_UpdateTaskStatus split: option.splits if_splits)
  let ?u = "t\<lparr>pt_status := st, pt_error := msg, pt_updated_at := clock s (tick s)\<rparr>"
  have "task_kept t ?u" using t(2) by (auto simp: task_kept_def)
  then show ?thesis
    by (rule pm_task_update_wf [OF assms t(1)])
      (use t in \<open>simp_all add: run_pts_UpdateTaskStatus same_but_env_def pm_contents_def fun_eq_iff\<close>)
qed

lemma pm_incr_wf:
  assumes "pm_wf s"
  shows "pm_wf (fin (pts_IncrementAttemptCount i) s) \<and> pm_history s (fin (pts_IncrementAttemptCount i) s)"
proof (cases "pm_task_map s i")
  case None
  with assms show ?thesis by (simp add: run_pts_IncrementAttemptCount pm_history_refl)
next
  case (Some t)
  let ?u = "t\<lparr>pt_attempt_count := pt_attempt_count t + 1, pt_updated_at := clock s (tick s)\<rparr>"
  have "task_kept t ?u" by (simp add: task_kept_def)
  then show ?thesis
    by (rule pm_task_update_wf [OF assms Some])
      (use Some in \<open>simp_all add: run_pts_IncrementAttemptCount same_but_env_def pm_contents_def fun_eq_iff\<close>)
qed

lemma run_pps_CreatePlatformPost:
  "run_state (pps_CreatePlatformPost t p pid url r) s =
     (case DAList.lookup (pm_records s) t of
        Some _ \<Rightarrow> (Some ErrConflict, s)
      | None \<Rightarrow> (None, s\<lparr>tick := Suc (tick s), pm_records := DAList.update t
          \<lparr>pp_id = uuid_at s (tick s), pp_task_id = t, pp_platform = p, pp_platform_post_id = pid,
           pp_platform_url = url, pp_response = r\<rparr> (pm_records s)\<rparr>))"
  by (simp add: pps_CreatePlatformPost_def run_generateID Let_def uuid_at_def split: option.split)

lemma pm_post_wf:
  assumes "pm_wf s"
  shows "pm_wf (fin (pps_CreatePlatformPost t p pid url r) s) \<and>
         pm_history s (fin (pps_CreatePlatformPost t p pid url r) s)"
proof -
  let ?s' = "fin (pps_CreatePlatformPost t p pid url r) s"
  have env: "same_but_env s ?s'" and view: "pm_contents ?s' = pm_contents s"
    "pm_task_map ?s' = pm_task_map s" "pm_combos ?s' = pm_combos s"
    by (simp_all add: run_pps_CreatePlatformPost same_but_env_def pm_contents_def pm_task_map_def
        pm_combos_def fun_eq_iff split: option.split)
  have "DAList.lookup (pm_records ?s') i = Some x" if "DAList.lookup (pm_records s) i = Some x" for i x
    using that by (auto simp: run_pps_CreatePlatformPost DAList.lookup_update split: option.split)
  with assms env view show ?thesis
    by (auto simp: pm_wf_def pm_history_def intro: drawn_later)
qed

lemma pm_step_wf:
  "pm_step s s' \<Longrightarrow> fresh_until s (tick s') \<Longrightarrow> pm_wf s \<Longrightarrow> pm_wf s' \<and> pm_history s s'"
proof (induction rule: pm_step.induct)
  case (1 s title body tags)
  then show ?case by (intro pm_create_content_wf)
next
  case (2 s i st v)
  then show ?case by (intro pm_update_content_wf)
next
  case (3 s c p)
  then show ?case by (intro pm_create_task_wf)
next
  case (4 s i ts msg)
  then show ?case by (intro pm_status_wf)
next
  case (5 s i)
  then show ?case by (intro pm_incr_wf)
next
  case (6 s i p pid url r)
  then show ?case by (intro pm_post_wf)
qed (rule pm_quiet_wf; (rule pm_quiet_keeps, rule quiet_ops | assumption))+

lemma pm_quiet_env: "pm_quiet s s' \<Longrightarrow> same_but_env s s'"
  by (simp add: pm_quiet_def)

lemma pm_step_env: "pm_step s s' \<Longrightarrow> same_but_env s s'"
proof (induction rule: pm_step.induct)
  case (1 s title body tags)
  then show ?case by (simp add: run_pcs_CreateContent Let_def same_but_env_def)
next
  case (2 s i st v)
  then show ?case by (auto simp: run_pcs_UpdateContent same_but_env_def split: option.split)
next
  case (3 s c p)
  then show ?case by (simp add: run_pts_CreateTask Let_def same_but_env_def split: option.split)
next
  case (4 s i ts msg)
  then show ?case by (simp add: run_pts_UpdateTaskStatus same_but_env_def split: option.split)
next
  case (5 s i)
  then show ?case by (simp add: run_pts_IncrementAttemptCount same_but_env_def split: option.split)
next
  case (6 s i p pid url r)
  then show ?case by (simp add: run_pps_CreatePlatformPost same_but_env_def split: option.split)
qed (rule pm_quiet_env, rule pm_quiet_keeps, rule quiet_ops)+

text \<open>Runs whose steps are calls of the stores, or leave what they keep of contents and tasks alone.\<close>

definition pm_move :: "'a PublishMemory_scheme \<Rightarrow> 'a PublishMemory_scheme \<Rightarrow> bool" where
  "pm_move s s' \<longleftrightarrow> pm_step s s' \<or> pm_quiet s s'"

lemma pm_move_env: "pm_move s s' \<Longrightarrow> same_but_env s s'"
  by (auto simp: pm_move_def dest: pm_step_env pm_quiet_env)

lemma pm_moves_wf:
  assumes "pm_move\<^sup>*\<^sup>* s s'" "fresh_until s (tick s')" "pm_wf s"
  shows "pm_wf s' \<and> pm_history s s'"
  using assms
proof (induction rule: rtranclp_induct)
  case base
  then show ?case by (simp add: pm_history_refl)
next
  case (step t u)
  have env: "same_but_env t u" using pm_move_env [OF step.hyps(2)] .
  then have "fresh_until s (tick t)"
    using step.prems(1) by (auto simp: fresh_until_def same_but_env_def elim: inj_on_subset)
  with step.IH step.prems have t: "pm_wf t" "pm_history s t" by blast+
  then have "fresh_until t (tick u)"
    using step.prems(1) uuid_at_env [of s t] by (simp add: fresh_until_def pm_history_def)
  with step.hyps(2) t(1) have "pm_wf u \<and> pm_history t u"
    unfolding pm_move_def using pm_step_wf pm_quiet_wf by blast
  with pm_history_trans [OF t(2)] show ?case by blast
qed

lemma pm_run_wf:
  assumes "pm_step\<^sup>*\<^sup>* s s'" "fresh_until s (tick s')" "pm_wf s"
  shows "pm_wf s' \<and> pm_history s s'"
proof -
  have "pm_move\<^sup>*\<^sup>* s s'"
    by (rule rtranclp_mono [THEN predicate2D, OF _ assms(1)]) (auto simp: pm_move_def)
  then show ?thesis by (rule pm_moves_wf) (rule assms(2,3))+
qed

lemma new_publish_simps [simp]:
  "pm_contents (NewPublishMemory e) i = None" "pm_task_map (NewPublishMemory e) i = None"
  "pm_combos (NewPublishMemory e) k = None" "pm_idem_map (NewPublishMemory e) k = None"
  "DAList.lookup (pm_records (NewPublishMemory e)) i = None"
  "tick (NewPublishMemory e) = tick e"
  "clock (NewPublishMemory e) = clock e" "entropy (NewPublishMemory e) = entropy e"
  by (simp_all add: NewPublishMemory_def pm_contents_def pm_task_map_def pm_combos_def
      pm_idem_map_def PublishMemory.defs env.defs)

lemma new_publish_wf: "pm_wf (NewPublishMemory e)" "pm_inv (NewPublishMemory e)"
  by (simp_all add: pm_wf_def pm_inv_def index_ok_def)

section \<open>Properties of the publish stores\<close>

text \<open>
  C4. Refinement of the status machines (\<open>UpdateContent\<close>, \<open>UpdateTaskStatus\<close> and every other
  method of the publish stores): along any sequence of calls of any clients the status of each
  content and of each task only moves along the transition tables, texts and identifiers never
  change, versions and attempt counts never go down, a terminal task stays terminal, and a recorded
  platform post is never replaced.
\<close>

theorem stores_follow_machines:
  fixes s :: PublishMemory
  assumes "pm_step\<^sup>*\<^sup>* (NewPublishMemory e) s" and "pm_step\<^sup>*\<^sup>* s s'"
    and "fresh_until (NewPublishMemory e) (tick s')"
  shows "(pm_contents s i = Some cv \<longrightarrow> (\<exists>cv'. pm_contents s' i = Some cv' \<and> content_moved cv cv')) \<and>
         (pm_task_map s j = Some t \<longrightarrow>
            (\<exists>t'. pm_task_map s' j = Some t' \<and> task_kept t t' \<and>
                  (PublishTaskStatus_IsTerminal (pt_status t) \<longrightarrow> pt_status t' = pt_status t))) \<and>
         (DAList.lookup (pm_records s) j = Some r \<longrightarrow> DAList.lookup (pm_records s') j = Some r)"
proof -
  have env: "same_but_env s s'" if "pm_step\<^sup>*\<^sup>* s s'" for s s' :: PublishMemory
    using that by (induction rule: rtranclp_induct) (auto dest!: pm_step_env simp: same_but_env_def)
  have "fresh_until (NewPublishMemory e) (tick s)"
    using assms(3) env [OF assms(2)] by (auto simp: fresh_until_def same_but_env_def elim: inj_on_subset)
  then have wf: "pm_wf s" using pm_run_wf [OF assms(1) _ new_publish_wf(1)] by blast
  have "fresh_until s (tick s')"
    using assms(3) uuid_at_env [OF env [OF assms(1)]] by (simp add: fresh_until_def)
  then have hist: "pm_history s s'" using pm_run_wf [OF assms(2) _ wf] by blast
  have "pt_status t' = pt_status t"
    if "task_kept t t'" "PublishTaskStatus_IsTerminal (pt_status t)" for t'
    using that task_terminal_stuck by (simp add: task_kept_def)
  with hist show ?thesis unfolding pm_history_def by blast
qed

definition pm_example :: PublishMemory where
  "pm_example = fin (pts_CreateTask ''c'' ''x'') (NewPublishMemory env0)"

lemma pm_example_run: "pm_step\<^sup>*\<^sup>* (NewPublishMemory env0) pm_example"
  unfolding pm_example_def by (intro r_into_rtranclp pm_step.intros)

lemma fresh_publish_env0: "n \<le> 256 \<Longrightarrow> fresh_until (NewPublishMemory env0) n"
  by (rule fresh_env0) simp_all

definition pm_example_id :: string where
  "pm_example_id = uuid_at env0 1"

lemma pm_example_simps [simp]:
  "tick pm_example = 2" "pm_task_map pm_example pm_example_id = Some (new_task pm_example_id 0 ''c'' ''x'')"
  by (simp_all add: pm_example_def run_pts_CreateTask Let_def env0_def uuid_at_def pm_example_id_def)

theorem stores_follow_machines_witness:
  "\<exists>t'. pm_task_map (fin (pts_UpdateTaskStatus pm_example_id PublishTaskStatusCancelled '''') pm_example)
     pm_example_id = Some t' \<and> task_kept (new_task pm_example_id 0 ''c'' ''x'') t'"
proof -
  let ?s' = "fin (pts_UpdateTaskStatus pm_example_id PublishTaskStatusCancelled '''') pm_example"
  have "pm_step\<^sup>*\<^sup>* pm_example ?s'" by (intro r_into_rtranclp pm_step.intros)
  moreover have "fresh_until (NewPublishMemory env0) (tick ?s')"
    by (rule fresh_publish_env0) (simp add: run_pts_UpdateTaskStatus)
  ultimately show ?thesis
    using stores_follow_machines [OF pm_example_run, of ?s' undefined undefined pm_example_id
        "new_task pm_example_id 0 ''c'' ''x''"] pm_example_simps(2) by blast
qed

end
