(* ===== verification/StorageMemory.thy ===== *)
theory StorageMemory
  imports StorageTypes
begin

text \<open>
  \<open>internal/storage/memory.go\<close>: the in-memory storage layer behind the API server. One
  \<open>MemoryStorage\<close> holds all maps; every method runs under the shared mutex, so a method is one
  atomic operation on the state. Records are copied on the way out (\<open>copyContent\<close>, \<open>copyTask\<close>,
  \<open>copyAttempt\<close>), which is the identity on values. The code iterates a map where the model calls
  \<open>range_map\<close>, in the order the environment picks; \<open>sort.Slice\<close> leaves equal elements in any order,
  which \<open>sort_key\<close> on an arbitrarily ordered list covers.
\<close>

section \<open>State\<close>

record contentRecord =
  cr_content :: Content
  cr_version :: int

record idempotencyRecord =
  ir_entity_id :: string
  ir_expires_at :: Time

record MemoryStorage = env +
  ms_content :: "contentRecord gomap"
  ms_tasks :: "PublishTask gomap"
  ms_attempts :: "PublishAttempt gomap"
  ms_posts :: "PlatformPostRecord gomap"
  ms_assets :: "Asset gomap"
  ms_idempotency :: "idempotencyRecord gomap"

definition NewMemoryStorage :: "env \<Rightarrow> MemoryStorage" where
  "NewMemoryStorage e = env.extend e
     (MemoryStorage.fields DAList.empty DAList.empty DAList.empty DAList.empty DAList.empty
        DAList.empty)"

definition copyContent :: "Content \<Rightarrow> Content" where
  "copyContent c = c"

definition copyTask :: "PublishTask \<Rightarrow> PublishTask" where
  "copyTask t = t"

definition copyAttempt :: "PublishAttempt \<Rightarrow> PublishAttempt" where
  "copyAttempt a = a"

section \<open>Content store\<close>

definition mcs_CreateContent ::
  "string \<Rightarrow> string \<Rightarrow> string list \<Rightarrow> ('a MemoryStorage_scheme, Content result) state" where
  "mcs_CreateContent title body tags = do {
     now \<leftarrow> nowUTC;
     ident \<leftarrow> generateID;
     let c = \<lparr>ct_id = ident, ct_title = title, ct_body = body, ct_tags = tags,
              ct_status = ContentStatusDraft, ct_metadata = [],
              ct_created_at = now, ct_updated_at = now\<rparr>;
     modify (\<lambda>s. s\<lparr>ms_content :=
       DAList.update (ct_id c) \<lparr>cr_content = c, cr_version = 1\<rparr> (ms_content s)\<rparr>);
     ret (Inr (copyContent c))
   }"

definition mcs_GetContent :: "string \<Rightarrow> ('a MemoryStorage_scheme, Content result) state" where
  "mcs_GetContent ident = do {
     m \<leftarrow> gets ms_content;
     case DAList.lookup m ident of
       None \<Rightarrow> ret (Inl (Wrapf (''content '' @ ident @ '': '') ErrNotFound))
     | Some rec \<Rightarrow> ret (Inr (copyContent (cr_content rec)))
   }"

text \<open>The page \<open>filtered[start:end]\<close> of \<open>ListContent\<close>.\<close>

definition page_bounds :: "Pagination \<Rightarrow> int \<Rightarrow> int \<times> int" where
  "page_bounds page n =
     (let start = pg_offset page;
          start = (if start > n then n else start);
          end' = start + pg_limit page;
          end' = (if end' > n then n else end')
      in (start, end'))"

definition go_slice :: "'b list \<Rightarrow> int \<Rightarrow> int \<Rightarrow> 'b list" where
  "go_slice xs i j = take (nat (j - i)) (drop (nat i) xs)"

definition mcs_ListContent ::
  "ContentStatus \<Rightarrow> Pagination \<Rightarrow>
     ('a MemoryStorage_scheme, (Content list \<times> PageResult) result) state" where
  "mcs_ListContent status page = do {
     m \<leftarrow> gets ms_content;
     entries \<leftarrow> range_map m;
     let page = Normalize page;
     let filtered = filter (\<lambda>c. ct_status c = status) (map (\<lambda>(_, rec). cr_content rec) entries);
     let filtered = sort_key (\<lambda>c. - ct_created_at c) filtered;
     let n = int (length filtered);
     let (start, end') = page_bounds page n;
     let result = map copyContent (go_slice filtered start end');
     ret (Inr (result, \<lparr>pgr_total = n, pgr_limit = pg_limit page, pgr_offset = pg_offset page\<rparr>))
   }"

definition mcs_UpdateContent ::
  "string \<Rightarrow> ContentStatus \<Rightarrow> int \<Rightarrow> ('a MemoryStorage_scheme, go_error option) state" where
  "mcs_UpdateContent ident status version = do {
     m \<leftarrow> gets ms_content;
     case DAList.lookup m ident of
       None \<Rightarrow> ret (Some (Wrapf (''content '' @ ident @ '': '') ErrNotFound))
     | Some rec \<Rightarrow>
         if cr_version rec \<noteq> version then
           ret (Some (Wrapf (''content '' @ ident @ '': expected version '' @ itoa version @
             '', got '' @ itoa (cr_version rec) @ '': '') ErrVersionConflict))
         else do {
           now \<leftarrow> nowUTC;
           modify (\<lambda>s. s\<lparr>ms_content := DAList.update ident
             (rec\<lparr>cr_content := (cr_content rec)\<lparr>ct_status := status, ct_updated_at := now\<rparr>,
                 cr_version := cr_version rec + 1\<rparr>) (ms_content s)\<rparr>);
           ret None
         }
   }"

definition mcs_GetContentVersioned ::
  "string \<Rightarrow> ('a MemoryStorage_scheme, (Content \<times> int) result) state" where
  "mcs_GetContentVersioned ident = do {
     m \<leftarrow> gets ms_content;
     case DAList.lookup m ident of
       None \<Rightarrow> ret (Inl (Wrapf (''content '' @ ident @ '': '') ErrNotFound))
     | Some rec \<Rightarrow> ret (Inr (copyContent (cr_content rec), cr_version rec))
   }"

section \<open>Publish task store\<close>

definition mts_CreateTask ::
  "string \<Rightarrow> string \<Rightarrow> ('a MemoryStorage_scheme, PublishTask result) state" where
  "mts_CreateTask contentID platform = do {
     m \<leftarrow> gets ms_tasks;
     entries \<leftarrow> range_map m;
     if list_ex (\<lambda>(_, t). pt_content_id t = contentID \<and> pt_platform t = platform) entries then
       ret (Inl (Wrapf (''task for '' @ contentID @ ''/'' @ platform @ '' already exists: '')
         ErrConflict))
     else do {
       now \<leftarrow> nowUTC;
       ident \<leftarrow> generateID;
       let task = \<lparr>pt_id = ident, pt_content_id = contentID, pt_platform = platform,
                   pt_status = PublishTaskStatusPending, pt_retry_policy = DefaultRetryPolicy,
                   pt_attempt_count = 0, pt_error = '''', pt_created_at = now, pt_updated_at = now\<rparr>;
       modify (\<lambda>s. s\<lparr>ms_tasks := DAList.update (pt_id task) task (ms_tasks s)\<rparr>);
       ret (Inr (copyTask task))
     }
   }"

definition mts_GetTask :: "string \<Rightarrow> ('a MemoryStorage_scheme, PublishTask result) state" where
  "mts_GetTask ident = do {
     m \<leftarrow> gets ms_tasks;
     case DAList.lookup m ident of
       None \<Rightarrow> ret (Inl (Wrapf (''task '' @ ident @ '': '') ErrNotFound))
     | Some task \<Rightarrow> ret (Inr (copyTask task))
   }"

definition mts_GetTasksByContent ::
  "string \<Rightarrow> ('a MemoryStorage_scheme, PublishTask list result) state" where
  "mts_GetTasksByContent contentID = do {
     m \<leftarrow> gets ms_tasks;
     entries \<leftarrow> range_map m;
     let result = map copyTask (filter (\<lambda>t. pt_content_id t = contentID) (map snd entries));
     ret (Inr (sort_key pt_created_at result))
   }"

definition mts_GetTaskByContentPlatform ::
  "string \<Rightarrow> string \<Rightarrow> ('a MemoryStorage_scheme, PublishTask result) state" where
  "mts_GetTaskByContentPlatform contentID platform = do {
     m \<leftarrow> gets ms_tasks;
     entries \<leftarrow> range_map m;
     case find (\<lambda>t. pt_content_id t = contentID \<and> pt_platform t = platform) (map snd entries) of
       None \<Rightarrow> ret (Inl (Wrapf (''task for '' @ contentID @ ''/'' @ platform @ '': '') ErrNotFound))
     | Some t \<Rightarrow> ret (Inr (copyTask t))
   }"

definition mts_UpdateTaskStatus ::
  "string \<Rightarrow> PublishTaskStatus \<Rightarrow> string \<Rightarrow> ('a MemoryStorage_scheme, go_error option) state" where
  "mts_UpdateTaskStatus ident status errMsg = do {
     m \<leftarrow> gets ms_tasks;
     case DAList.lookup m ident of
       None \<Rightarrow> ret (Some (Wrapf (''task '' @ ident @ '': '') ErrNotFound))
     | Some task \<Rightarrow> do {
         now \<leftarrow> nowUTC;
         modify (\<lambda>s. s\<lparr>ms_tasks := DAList.update ident
           (task\<lparr>pt_status := status, pt_error := errMsg, pt_updated_at := now\<rparr>) (ms_tasks s)\<rparr>);
         ret None
       }
   }"

definition mts_IncrementAttemptCount ::
  "string \<Rightarrow> ('a MemoryStorage_scheme, go_error option) state" where
  "mts_IncrementAttemptCount ident = do {
     m \<leftarrow> gets ms_tasks;
     case DAList.lookup m ident of
       None \<Rightarrow> ret (Some (Wrapf (''task '' @ ident @ '': '') ErrNotFound))
     | Some task \<Rightarrow> do {
         now \<leftarrow> nowUTC;
         modify (\<lambda>s. s\<lparr>ms_tasks := DAList.update ident
           (task\<lparr>pt_attempt_count := pt_attempt_count task + 1, pt_updated_at := now\<rparr>)
           (ms_tasks s)\<rparr>);
         ret None
       }
   }"

section \<open>Publish attempt store\<close>

definition mas_CreateAttempt ::
  "string \<Rightarrow> int \<Rightarrow> ('a MemoryStorage_scheme, PublishAttempt result) state" where
  "mas_CreateAttempt taskID attemptNumber = do {
     ident \<leftarrow> generateID;
     now \<leftarrow> nowUTC;
     let attempt = \<lparr>pa_id = ident, pa_task_id = taskID, pa_attempt_number = attemptNumber,
                    pa_status = PublishTaskStatusProcessing, pa_error = '''',
                    pa_started_at = now, pa_completed_at = None\<rparr>;
     modify (\<lambda>s. s\<lparr>ms_attempts := DAList.update (pa_id attempt) attempt (ms_attempts s)\<rparr>);
     ret (Inr (copyAttempt attempt))
   }"

definition mas_CompleteAttempt ::
  "string \<Rightarrow> PublishTaskStatus \<Rightarrow> string \<Rightarrow> ('a MemoryStorage_scheme, go_error option) state" where
  "mas_CompleteAttempt ident status errMsg = do {
     m \<leftarrow> gets ms_attempts;
     case DAList.lookup m ident of
       None \<Rightarrow> ret (Some (Wrapf (''attempt '' @ ident @ '': '') ErrNotFound))
     | Some attempt \<Rightarrow> do {
         now \<leftarrow> nowUTC;
         modify (\<lambda>s. s\<lparr>ms_attempts := DAList.update ident
           (attempt\<lparr>pa_status := status, pa_error := errMsg, pa_completed_at := Some now\<rparr>)
           (ms_attempts s)\<rparr>);
         ret None
       }
   }"

definition mas_GetAttemptsByTask ::
  "string \<Rightarrow> ('a MemoryStorage_scheme, PublishAttempt list result) state" where
  "mas_GetAttemptsByTask taskID = do {
     m \<leftarrow> gets ms_attempts;
     entries \<leftarrow> range_map m;
     let result = map copyAttempt (filter (\<lambda>a. pa_task_id a = taskID) (map snd entries));
     ret (Inr (sort_key pa_attempt_number result))
   }"

section \<open>Platform post store\<close>

definition mps_CreatePlatformPost ::
  "string \<Rightarrow> string \<Rightarrow> string \<Rightarrow> string \<Rightarrow> string \<Rightarrow>
     ('a MemoryStorage_scheme, go_error option) state" where
  "mps_CreatePlatformPost taskID platform platformPostID platformURL response = do {
     ident \<leftarrow> generateID;
     let rec = \<lparr>pp_id = ident, pp_task_id = taskID, pp_platform = platform,
                pp_platform_post_id = platformPostID, pp_platform_url = platformURL,
                pp_response = response\<rparr>;
     modify (\<lambda>s. s\<lparr>ms_posts := DAList.update taskID rec (ms_posts s)\<rparr>);
     ret None
   }"

definition mps_GetByTask :: "string \<Rightarrow> ('a MemoryStorage_scheme, PlatformPostRecord result) state" where
  "mps_GetByTask taskID = do {
     m \<leftarrow> gets ms_posts;
     case DAList.lookup m taskID of
       None \<Rightarrow> ret (Inl (Wrapf (''platform post for task '' @ taskID @ '': '') ErrNotFound))
     | Some rec \<Rightarrow> ret (Inr rec)
   }"

section \<open>Asset store\<close>

definition mass_CreateAsset :: "Asset \<Rightarrow> ('a MemoryStorage_scheme, Asset \<times> go_error option) state" where
  "mass_CreateAsset asset = do {
     asset \<leftarrow> (if as_id asset = '''' then do {
                  ident \<leftarrow> generateID;
                  ret (asset\<lparr>as_id := ident\<rparr>)
                } else ret asset);
     asset \<leftarrow> (if as_created_at asset = 0 then do {
                  now \<leftarrow> nowUTC;
                  ret (asset\<lparr>as_created_at := now\<rparr>)
                } else ret asset);
     modify (\<lambda>s. s\<lparr>ms_assets := DAList.update (as_id asset) asset (ms_assets s)\<rparr>);
     ret (asset, None)
   }"

definition mass_GetAsset :: "string \<Rightarrow> ('a MemoryStorage_scheme, Asset result) state" where
  "mass_GetAsset ident = do {
     m \<leftarrow> gets ms_assets;
     case DAList.lookup m ident of
       None \<Rightarrow> ret (Inl (Wrapf (''asset '' @ ident @ '': '') ErrNotFound))
     | Some a \<Rightarrow> ret (Inr a)
   }"

definition mass_GetAssetsByContent ::
  "string \<Rightarrow> ('a MemoryStorage_scheme, Asset list result) state" where
  "mass_GetAssetsByContent contentID = do {
     m \<leftarrow> gets ms_assets;
     entries \<leftarrow> range_map m;
     let result = filter (\<lambda>a. as_content_id a = contentID) (map snd entries);
     ret (Inr (sort_key as_created_at result))
   }"

section \<open>Idempotency store\<close>

definition mis_composite :: "string \<Rightarrow> IdempotencyKeyScope \<Rightarrow> string" where
  "mis_composite key scope = key @ '':'' @ scope_string scope"

definition mis_Claim :: "IdempotencyKey \<Rightarrow> ('a MemoryStorage_scheme, bool result) state" where
  "mis_Claim key = do {
     let composite = mis_composite (ik_key key) (ik_scope key);
     m \<leftarrow> gets ms_idempotency;
     held \<leftarrow> (case DAList.lookup m composite of
        Some existing \<Rightarrow> do {
          now \<leftarrow> nowUTC;
          ret (now < ir_expires_at existing)
        }
      | None \<Rightarrow> ret False);
     if held then ret (Inr False)
     else do {
       now \<leftarrow> nowUTC;
       modify (\<lambda>s. s\<lparr>ms_idempotency := DAList.update composite
         \<lparr>ir_entity_id = ik_entity_id key, ir_expires_at = now + ik_ttl key\<rparr> (ms_idempotency s)\<rparr>);
       ret (Inr True)
     }
   }"

definition mis_Get :: "string \<Rightarrow> IdempotencyKeyScope \<Rightarrow> ('a MemoryStorage_scheme, string result) state" where
  "mis_Get key scope = do {
     let composite = mis_composite key scope;
     m \<leftarrow> gets ms_idempotency;
     case DAList.lookup m composite of
       None \<Rightarrow> ret (Inl (Wrapf (''idempotency key '' @ key @ '': '') ErrNotFound))
     | Some rec \<Rightarrow> do {
         now \<leftarrow> nowUTC;
         if now > ir_expires_at rec then
           ret (Inl (Wrapf (''idempotency key '' @ key @ '': '') ErrNotFound))
         else ret (Inr (ir_entity_id rec))
       }
   }"

text \<open>The loop of \<open>Cleanup\<close> deletes expired entries of the map it iterates.\<close>

definition cleanup_loop ::
  "Time \<Rightarrow> (string \<times> idempotencyRecord) list \<Rightarrow> idempotencyRecord gomap \<Rightarrow>
     idempotencyRecord gomap \<times> int" where
  "cleanup_loop now entries m =
     foldl (\<lambda>(m, removed) (k, rec).
              if now > ir_expires_at rec then (DAList.delete k m, removed + 1) else (m, removed))
           (m, 0) entries"

definition mis_Cleanup :: "('a MemoryStorage_scheme, int result) state" where
  "mis_Cleanup = do {
     now \<leftarrow> nowUTC;
     m \<leftarrow> gets ms_idempotency;
     entries \<leftarrow> range_map m;
     let (m', removed) = cleanup_loop now entries m;
     modify (\<lambda>s. s\<lparr>ms_idempotency := m'\<rparr>);
     ret (Inr removed)
   }"

section \<open>The store interfaces it implements, and the transaction\<close>

definition MemoryContentStore :: "('a MemoryStorage_scheme) ContentStore" where
  "MemoryContentStore =
     \<lparr>CreateContent = mcs_CreateContent, GetContent = mcs_GetContent,
      ListContent = mcs_ListContent, UpdateContent = mcs_UpdateContent\<rparr>"

definition MemoryPublishTaskStore :: "('a MemoryStorage_scheme) PublishTaskStore" where
  "MemoryPublishTaskStore =
     \<lparr>CreateTask = mts_CreateTask, GetTask = mts_GetTask,
      GetTasksByContent = mts_GetTasksByContent,
      GetTaskByContentPlatform = mts_GetTaskByContentPlatform,
      UpdateTaskStatus = mts_UpdateTaskStatus,
      IncrementAttemptCount = mts_IncrementAttemptCount\<rparr>"

definition MemoryPublishAttemptStore :: "('a MemoryStorage_scheme) PublishAttemptStore" where
  "MemoryPublishAttemptStore =
     \<lparr>CreateAttempt = mas_CreateAttempt, CompleteAttempt = mas_CompleteAttempt,
      GetAttemptsByTask = mas_GetAttemptsByTask\<rparr>"

definition MemoryPlatformPostStore :: "('a MemoryStorage_scheme) PlatformPostStore" where
  "MemoryPlatformPostStore =
     \<lparr>CreatePlatformPost = mps_CreatePlatformPost, GetByTask = mps_GetByTask\<rparr>"

definition MemoryAssetStore :: "('a MemoryStorage_scheme) AssetStore" where
  "MemoryAssetStore =
     \<lparr>CreateAsset = mass_CreateAsset, GetAsset = mass_GetAsset,
      GetAssetsByContent = mass_GetAssetsByContent\<rparr>"

definition MemoryIdempotencyStore :: "('a MemoryStorage_scheme) IdempotencyStore" where
  "MemoryIdempotencyStore =
     \<lparr>Claim = mis_Claim, IdemGet = mis_Get, Cleanup = mis_Cleanup\<rparr>"

text \<open>\<open>MemoryTx.Run\<close> hands the stores themselves to the callback.\<close>

definition MemoryTx_Run ::
  "(('a MemoryStorage_scheme) TxScope \<Rightarrow> ('a MemoryStorage_scheme, go_error option) state) \<Rightarrow>
     ('a MemoryStorage_scheme, go_error option) state" where
  "MemoryTx_Run fn =
     (let scope = \<lparr>txs_content = MemoryContentStore, txs_tasks = MemoryPublishTaskStore,
                   txs_attempts = MemoryPublishAttemptStore, txs_posts = MemoryPlatformPostStore,
                   txs_assets = MemoryAssetStore\<rparr>
      in fn scope)"

end
