(* ===== verification/StorageContracts.thy ===== *)
theory StorageContracts
  imports StorageMemory StoreContracts
begin

text \<open>
  The stores of \<open>internal/storage/memory.go\<close> meet the contracts of \<open>StoreContracts\<close>: the views of
  \<open>MemoryStorage\<close>, the equations of its operations over these views, the interpretations, and the
  properties of the storage layer.
\<close>

section \<open>Views and invariant\<close>

definition ms_contents :: "'a MemoryStorage_scheme \<Rightarrow> string \<Rightarrow> (Content \<times> int) option" where
  "ms_contents s i =
     map_option (\<lambda>rec. (cr_content rec, cr_version rec)) (DAList.lookup (ms_content s) i)"

definition ms_task_map :: "'a MemoryStorage_scheme \<Rightarrow> string \<Rightarrow> PublishTask option" where
  "ms_task_map s = DAList.lookup (ms_tasks s)"

definition ms_idem_map :: "'a MemoryStorage_scheme \<Rightarrow> string \<Rightarrow> (string \<times> Time) option" where
  "ms_idem_map s k =
     map_option (\<lambda>rec. (ir_entity_id rec, ir_expires_at rec)) (DAList.lookup (ms_idempotency s) k)"

definition ms_inv :: "'a MemoryStorage_scheme \<Rightarrow> bool" where
  "ms_inv s \<longleftrightarrow> tasks_ok (ms_task_map s)"

lemma ms_views_tick [simp]:
  "ms_contents (s\<lparr>tick := n\<rparr>) = ms_contents s" "ms_task_map (s\<lparr>tick := n\<rparr>) = ms_task_map s"
  "ms_idem_map (s\<lparr>tick := n\<rparr>) = ms_idem_map s" "ms_inv (s\<lparr>tick := n\<rparr>) = ms_inv s"
  by (simp_all add: ms_contents_def ms_task_map_def ms_idem_map_def ms_inv_def fun_eq_iff)

lemma ms_idem_map_update [simp]:
  "ms_idem_map (s\<lparr>ms_idempotency := DAList.update k r (ms_idempotency s)\<rparr>) =
     (ms_idem_map s)(k \<mapsto> (ir_entity_id r, ir_expires_at r))"
  "ms_idem_map (s\<lparr>tick := n, ms_idempotency := DAList.update k r (ms_idempotency s)\<rparr>) =
     (ms_idem_map s)(k \<mapsto> (ir_entity_id r, ir_expires_at r))"
  by (simp_all add: ms_idem_map_def fun_eq_iff)

section \<open>The idempotency store\<close>

lemma run_mis_Claim:
  "run_state (mis_Claim K) s =
     (case ms_idem_map s (mis_composite (ik_key K) (ik_scope K)) of
        Some (ent, x) \<Rightarrow>
          if clock s (tick s) < x then (Inr False, s\<lparr>tick := Suc (tick s)\<rparr>)
          else (Inr True, s\<lparr>tick := Suc (Suc (tick s)),
            ms_idempotency := DAList.update (mis_composite (ik_key K) (ik_scope K))
              \<lparr>ir_entity_id = ik_entity_id K, ir_expires_at = clock s (Suc (tick s)) + ik_ttl K\<rparr>
              (ms_idempotency s)\<rparr>)
      | None \<Rightarrow> (Inr True, s\<lparr>tick := Suc (tick s),
            ms_idempotency := DAList.update (mis_composite (ik_key K) (ik_scope K))
              \<lparr>ir_entity_id = ik_entity_id K, ir_expires_at = clock s (tick s) + ik_ttl K\<rparr>
              (ms_idempotency s)\<rparr>))"
  by (cases "DAList.lookup (ms_idempotency s) (mis_composite (ik_key K) (ik_scope K))")
    (simp_all add: mis_Claim_def Let_def ms_idem_map_def)

lemma run_mis_Get:
  "run_state (mis_Get k sc) s =
     (case ms_idem_map s (mis_composite k sc) of
        None \<Rightarrow> (Inl (Wrapf (''idempotency key '' @ k @ '': '') ErrNotFound), s)
      | Some (ent, x) \<Rightarrow>
          (if x < clock s (tick s) then Inl (Wrapf (''idempotency key '' @ k @ '': '') ErrNotFound)
           else Inr ent, s\<lparr>tick := Suc (tick s)\<rparr>))"
  by (simp add: mis_Get_def Let_def ms_idem_map_def split: option.split)

definition expired :: "'a MemoryStorage_scheme \<Rightarrow> string set" where
  "expired s = {k. \<exists>ent x. ms_idem_map s k = Some (ent, x) \<and> x < clock s (tick s)}"

lemma expired_eq:
  "expired s = {k. \<exists>v. DAList.lookup (ms_idempotency s) k = Some v \<and> ir_expires_at v < clock s (tick s)}"
  by (auto simp: expired_def ms_idem_map_def)

lemma run_mis_Cleanup:
  "res mis_Cleanup s = Inr (int (card (expired s))) \<and>
   clock (fin mis_Cleanup s) = clock s \<and> tick (fin mis_Cleanup s) = Suc (Suc (tick s)) \<and>
   ms_idem_map (fin mis_Cleanup s) k = (if k \<in> expired s then None else ms_idem_map s k)"
proof -
  let ?now = "clock s (tick s)" and ?es = "shuffle (range_order s (Suc (tick s))) (DAList.impl_of (ms_idempotency s))"
  obtain m' r' where loop: "cleanup_loop ?now ?es (ms_idempotency s) = (m', r')" by fastforce
  note facts = foldl_delete [OF loop [unfolded cleanup_loop_def]]
  have "length (filter (\<lambda>(_, v). ir_expires_at v < ?now) ?es) =
      length (filter (\<lambda>(_, v). ir_expires_at v < ?now) (DAList.impl_of (ms_idempotency s)))"
    by (metis mset_filter mset_shuffle size_mset)
  also have "\<dots> = card (expired s)"
    by (simp add: filter_impl_of_length expired_eq)
  finally have r': "r' = int (card (expired s))" using facts by simp
  show ?thesis
    using facts r' by (auto simp: mis_Cleanup_def Let_def loop ms_idem_map_def expired_def)
qed

interpretation mis: idempotency_store "MemoryIdempotencyStore" mis_composite ms_idem_map
proof (unfold_locales, goal_cases)
  case (1 s K ent x)
  then show ?case by (simp add: MemoryIdempotencyStore_def run_mis_Claim)
next
  case (2 s K)
  show ?case
  proof (cases "ms_idem_map s (mis_composite (ik_key K) (ik_scope K))")
    case None
    then show ?thesis
      by (auto simp: MemoryIdempotencyStore_def run_mis_Claim)
  next
    case (Some p)
    then obtain ent x where p: "ms_idem_map s (mis_composite (ik_key K) (ik_scope K)) = Some (ent, x)"
      by fastforce
    from 2 [OF p] p show ?thesis
      by (auto simp: MemoryIdempotencyStore_def run_mis_Claim intro!: exI [of _ "Suc (tick s)"])
  qed
next
  case (3 s k sc ent x)
  then show ?case by (simp add: MemoryIdempotencyStore_def run_mis_Get)
next
  case (4 s k sc)
  then show ?case
    by (cases "ms_idem_map s (mis_composite k sc)")
      (auto simp: MemoryIdempotencyStore_def run_mis_Get)
next
  case (5 k sc s)
  then show ?case
    by (auto simp: MemoryIdempotencyStore_def run_mis_Get split: option.split)
next
  case (6 s k)
  then show ?case
    using run_mis_Cleanup [of s k]
    by (auto simp: MemoryIdempotencyStore_def expired_def split: option.split)
next
  case (7 op' s)
  then show ?case
    using run_mis_Cleanup [of s]
    by (cases op') (auto simp: MemoryIdempotencyStore_def run_mis_Claim run_mis_Get split: option.split)
qed

section \<open>The task store\<close>

lemma ms_task_map_update [simp]:
  "ms_task_map (s\<lparr>ms_tasks := DAList.update k t (ms_tasks s)\<rparr>) = (ms_task_map s)(k \<mapsto> t)"
  "ms_task_map (s\<lparr>tick := n, ms_tasks := DAList.update k t (ms_tasks s)\<rparr>) =
     (ms_task_map s)(k \<mapsto> t)"
  by (simp_all add: ms_task_map_def fun_eq_iff)

lemma run_mts_CreateTask:
  "run_state (mts_CreateTask c p) s =
     (if has_pair (ms_task_map s) c p
      then (Inl (Wrapf (''task for '' @ c @ ''/'' @ p @ '' already exists: '') ErrConflict),
            s\<lparr>tick := Suc (tick s)\<rparr>)
      else let t = new_task (uuid_at s (tick s + 2)) (clock s (tick s + 1)) c p
           in (Inr t, s\<lparr>tick := tick s + 3, ms_tasks := DAList.update (pt_id t) t (ms_tasks s)\<rparr>))"
proof -
  have "list_ex (\<lambda>(_, t). pt_content_id t = c \<and> pt_platform t = p)
          (shuffle (range_order s (tick s)) (DAList.impl_of (ms_tasks s))) \<longleftrightarrow>
        has_pair (ms_task_map s) c p"
    by (simp add: list_ex_values has_pair_def ms_task_map_def)
  then show ?thesis
    by (simp add: mts_CreateTask_def run_generateID Let_def copyTask_def new_task_def uuid_at_def)
qed

lemma run_mts_GetTaskByContentPlatform:
  "\<exists>r. run_state (mts_GetTaskByContentPlatform c p) s = (r, s\<lparr>tick := Suc (tick s)\<rparr>) \<and>
     (case r of Inl e \<Rightarrow> \<not> has_pair (ms_task_map s) c p \<and>
                  e = Wrapf (''task for '' @ c @ ''/'' @ p @ '': '') ErrNotFound
      | Inr t \<Rightarrow> (\<exists>i. ms_task_map s i = Some t) \<and> pt_content_id t = c \<and> pt_platform t = p)"
proof -
  let ?es = "map snd (shuffle (range_order s (tick s)) (DAList.impl_of (ms_tasks s)))"
  let ?P = "\<lambda>t. pt_content_id t = c \<and> pt_platform t = p"
  have mem: "t \<in> set ?es \<longleftrightarrow> (\<exists>i. ms_task_map s i = Some t)" for t
    by (simp add: ms_task_map_def)
  show ?thesis
  proof (cases "find ?P ?es")
    case None
    have "\<not> has_pair (ms_task_map s) c p"
      using None by (auto simp: find_None_iff has_pair_def ms_task_map_def)
    with None show ?thesis by (simp add: mts_GetTaskByContentPlatform_def)
  next
    case (Some t)
    then have "t \<in> set ?es" "?P t" by (blast dest: find_SomeD)+
    with Some mem show ?thesis
      by (simp add: mts_GetTaskByContentPlatform_def copyTask_def)
  qed
qed

lemma run_mts_UpdateTaskStatus:
  "run_state (mts_UpdateTaskStatus i st msg) s =
     (case ms_task_map s i of
        None \<Rightarrow> (Some (Wrapf (''task '' @ i @ '': '') ErrNotFound), s)
      | Some t \<Rightarrow> (None, s\<lparr>tick := Suc (tick s), ms_tasks := DAList.update i
          (t\<lparr>pt_status := st, pt_error := msg, pt_updated_at := clock s (tick s)\<rparr>) (ms_tasks s)\<rparr>))"
  by (simp add: mts_UpdateTaskStatus_def ms_task_map_def split: option.split)

lemma run_mts_IncrementAttemptCount:
  "run_state (mts_IncrementAttemptCount i) s =
     (case ms_task_map s i of
        None \<Rightarrow> (Some (Wrapf (''task '' @ i @ '': '') ErrNotFound), s)
      | Some t \<Rightarrow> (None, s\<lparr>tick := Suc (tick s), ms_tasks := DAList.update i
          (t\<lparr>pt_attempt_count := pt_attempt_count t + 1, pt_updated_at := clock s (tick s)\<rparr>)
          (ms_tasks s)\<rparr>))"
  by (simp add: mts_IncrementAttemptCount_def ms_task_map_def split: option.split)

lemma MemoryPublishTaskStore_simps [simp]:
  "CreateTask MemoryPublishTaskStore = mts_CreateTask"
  "GetTaskByContentPlatform MemoryPublishTaskStore = mts_GetTaskByContentPlatform"
  "UpdateTaskStatus MemoryPublishTaskStore = mts_UpdateTaskStatus"
  "IncrementAttemptCount MemoryPublishTaskStore = mts_IncrementAttemptCount"
  by (simp_all add: MemoryPublishTaskStore_def)

interpretation mts: task_store "MemoryPublishTaskStore" ms_task_map ms_inv "\<lambda>_. True" "\<lambda>_ _. True"
proof (unfold_locales, goal_cases)
  case (1 s c p)
  then have none: "\<not> has_pair (ms_task_map s) c p" by (simp add: has_pair_def)
  with 1 show ?case
    by (auto simp: run_mts_CreateTask Let_def ms_inv_def intro!: tasks_ok_insert
        [where t = "new_task i n c p" for i n, simplified])
next
  case (2 s c i t p)
  then have "has_pair (ms_task_map s) c p" by (auto simp: has_pair_def)
  with 2 show ?case by (simp add: run_mts_CreateTask)
next
  case (3 s c p t)
  obtain r where r: "run_state (mts_GetTaskByContentPlatform c p) s = (r, s\<lparr>tick := Suc (tick s)\<rparr>)"
    "case r of Inl e \<Rightarrow> \<not> has_pair (ms_task_map s) c p \<and>
                  e = Wrapf (''task for '' @ c @ ''/'' @ p @ '': '') ErrNotFound
      | Inr t \<Rightarrow> (\<exists>i. ms_task_map s i = Some t) \<and> pt_content_id t = c \<and> pt_platform t = p"
    using run_mts_GetTaskByContentPlatform by blast
  with 3 show ?case
    using tasks_okD(2) [of "ms_task_map s"]
    by (cases r) (auto simp: has_pair_def ms_inv_def, metis option.inject)
next
  case (4 s c p)
  then show ?case using run_mts_GetTaskByContentPlatform [of c p s] by auto
next
  case (5 s i t st msg)
  then show ?case
    by (auto simp: run_mts_UpdateTaskStatus ms_inv_def intro!: tasks_ok_update)
next
  case (6 s i st msg)
  then show ?case by (auto simp: run_mts_UpdateTaskStatus)
next
  case (7 s i t)
  then show ?case
    by (auto simp: run_mts_IncrementAttemptCount ms_inv_def intro!: tasks_ok_update)
qed

section \<open>The content store\<close>

lemma ms_contents_update [simp]:
  "ms_contents (s\<lparr>ms_content := DAList.update k r (ms_content s)\<rparr>) =
     (ms_contents s)(k \<mapsto> (cr_content r, cr_version r))"
  "ms_contents (s\<lparr>tick := n, ms_content := DAList.update k r (ms_content s)\<rparr>) =
     (ms_contents s)(k \<mapsto> (cr_content r, cr_version r))"
  by (simp_all add: ms_contents_def fun_eq_iff)

lemma run_mcs_CreateContent:
  "run_state (mcs_CreateContent title body tags) s =
     (let c = new_content (uuid_at s (tick s + 1)) (clock s (tick s)) title body tags
      in (Inr c, s\<lparr>tick := tick s + 2,
            ms_content := DAList.update (ct_id c) \<lparr>cr_content = c, cr_version = 1\<rparr> (ms_content s)\<rparr>))"
  by (simp add: mcs_CreateContent_def run_generateID Let_def copyContent_def new_content_def uuid_at_def)

lemma run_mcs_GetContent:
  "run_state (mcs_GetContent i) s =
     (case ms_contents s i of
        None \<Rightarrow> Inl (Wrapf (''content '' @ i @ '': '') ErrNotFound)
      | Some (c, _) \<Rightarrow> Inr c, s)"
  by (cases "DAList.lookup (ms_content s) i")
    (simp_all add: mcs_GetContent_def ms_contents_def copyContent_def)

lemma run_mcs_GetContentVersioned:
  "run_state (mcs_GetContentVersioned i) s =
     (case ms_contents s i of
        None \<Rightarrow> Inl (Wrapf (''content '' @ i @ '': '') ErrNotFound)
      | Some cv \<Rightarrow> Inr cv, s)"
  by (cases "DAList.lookup (ms_content s) i")
    (simp_all add: mcs_GetContentVersioned_def ms_contents_def copyContent_def)

definition version_error :: "string \<Rightarrow> int \<Rightarrow> int \<Rightarrow> go_error" where
  "version_error i w v =
     Wrapf (''content '' @ i @ '': expected version '' @ itoa w @ '', got '' @ itoa v @ '': '')
       ErrVersionConflict"

lemma contentRecord_fields:
  "(z :: contentRecord)\<lparr>cr_content := c, cr_version := v\<rparr> = \<lparr>cr_content = c, cr_version = v\<rparr>"
  by (cases z) simp

lemma run_mcs_UpdateContent:
  "ms_contents s i = None \<Longrightarrow>
     run_state (mcs_UpdateContent i st w) s =
       (Some (Wrapf (''content '' @ i @ '': '') ErrNotFound), s)"
  "ms_contents s i = Some (c, v) \<Longrightarrow> w \<noteq> v \<Longrightarrow>
     run_state (mcs_UpdateContent i st w) s = (Some (version_error i w v), s)"
  "ms_contents s i = Some (c, v) \<Longrightarrow>
     run_state (mcs_UpdateContent i st v) s =
       (None, s\<lparr>tick := Suc (tick s), ms_content := DAList.update i
          \<lparr>cr_content = c\<lparr>ct_status := st, ct_updated_at := clock s (tick s)\<rparr>, cr_version = v + 1\<rparr>
          (ms_content s)\<rparr>)"
  by (auto simp: mcs_UpdateContent_def ms_contents_def version_error_def contentRecord_fields)

lemma MemoryContentStore_simps [simp]:
  "CreateContent MemoryContentStore = mcs_CreateContent"
  "GetContent MemoryContentStore = mcs_GetContent"
  "ListContent MemoryContentStore = mcs_ListContent"
  "UpdateContent MemoryContentStore = mcs_UpdateContent"
  by (simp_all add: MemoryContentStore_def)

interpretation mcs: content_store "MemoryContentStore" ms_contents "\<lambda>c v st w. w = v"
proof (unfold_locales, goal_cases)
  case (1 title body tags s)
  then show ?case by (auto simp: run_mcs_CreateContent Let_def)
next
  case (2 i s c)
  then show ?case by (auto simp: run_mcs_GetContent split: option.split)
next
  case (3 s i)
  then show ?case by (simp add: run_mcs_GetContent)
next
  case (4 i s)
  then show ?case by (simp add: run_mcs_GetContent)
next
  case (5 s i c v st w)
  then show ?case by (auto simp: run_mcs_UpdateContent)
next
  case (6 s i st w)
  then show ?case by (auto simp: run_mcs_UpdateContent(1,2))
qed simp

text \<open>The page of \<open>ListContent\<close> is in bounds, and the slice of the sorted list is what it is meant to be.\<close>

lemma go_slice_page:
  assumes "0 \<le> pg_offset pg" "0 \<le> pg_limit pg"
  shows "(case page_bounds pg (int (length xs)) of (i, j) \<Rightarrow>
            0 \<le> i \<and> i \<le> j \<and> j \<le> int (length xs) \<and>
            go_slice xs i j = take (nat (pg_limit pg)) (drop (nat (pg_offset pg)) xs))"
  using assms by (auto simp: page_bounds_def go_slice_def Let_def min_def not_less)

section \<open>Steps of the storage layer\<close>

text \<open>
  A step is one call of one method by any client; the mutex makes the calls atomic, so every
  interleaving of clients is a sequence of steps.
\<close>

inductive ms_step :: "'a MemoryStorage_scheme \<Rightarrow> 'a MemoryStorage_scheme \<Rightarrow> bool" where
  "ms_step s (fin (mcs_CreateContent title body tags) s)"
| "ms_step s (fin (mcs_GetContent i) s)"
| "ms_step s (fin (mcs_ListContent st pg) s)"
| "ms_step s (fin (mcs_UpdateContent i st v) s)"
| "ms_step s (fin (mcs_GetContentVersioned i) s)"
| "ms_step s (fin (mts_CreateTask c p) s)"
| "ms_step s (fin (mts_GetTask i) s)"
| "ms_step s (fin (mts_GetTasksByContent c) s)"
| "ms_step s (fin (mts_GetTaskByContentPlatform c p) s)"
| "ms_step s (fin (mts_UpdateTaskStatus i ts msg) s)"
| "ms_step s (fin (mts_IncrementAttemptCount i) s)"
| "ms_step s (fin (mas_CreateAttempt i n) s)"
| "ms_step s (fin (mas_CompleteAttempt i ts msg) s)"
| "ms_step s (fin (mas_GetAttemptsByTask i) s)"
| "ms_step s (fin (mps_CreatePlatformPost i p pid url r) s)"
| "ms_step s (fin (mps_GetByTask i) s)"
| "ms_step s (fin (mass_CreateAsset a) s)"
| "ms_step s (fin (mass_GetAsset i) s)"
| "ms_step s (fin (mass_GetAssetsByContent c) s)"
| "ms_step s (fin (mis_Claim K) s)"
| "ms_step s (fin (mis_Get k sc) s)"
| "ms_step s (fin mis_Cleanup s)"

text \<open>What a step changes of the environment, and what the methods of the other stores leave alone.\<close>

definition frame_content :: "'a MemoryStorage_scheme \<Rightarrow> 'a MemoryStorage_scheme \<Rightarrow> bool" where
  "frame_content s s' \<longleftrightarrow> same_but_env s s' \<and> ms_content s' = ms_content s"

definition frame_tasks :: "'a MemoryStorage_scheme \<Rightarrow> 'a MemoryStorage_scheme \<Rightarrow> bool" where
  "frame_tasks s s' \<longleftrightarrow> same_but_env s s' \<and> ms_tasks s' = ms_tasks s"

lemmas frame_defs = same_but_env_def frame_content_def frame_tasks_def

lemmas storage_defs =
  mcs_CreateContent_def mcs_GetContent_def mcs_ListContent_def mcs_UpdateContent_def
  mcs_GetContentVersioned_def mts_CreateTask_def mts_GetTask_def mts_GetTasksByContent_def
  mts_GetTaskByContentPlatform_def mts_UpdateTaskStatus_def mts_IncrementAttemptCount_def
  mas_CreateAttempt_def mas_CompleteAttempt_def mas_GetAttemptsByTask_def
  mps_CreatePlatformPost_def mps_GetByTask_def mass_CreateAsset_def mass_GetAsset_def
  mass_GetAssetsByContent_def mis_Claim_def mis_Get_def mis_Cleanup_def

lemma frame_keeps: "keeps (frame_content s0) m \<Longrightarrow> frame_content s0 (fin m s0)"
  "keeps (frame_tasks s0) m' \<Longrightarrow> frame_tasks s0 (fin m' s0)"
  by (erule keepsD, simp add: frame_defs)+

lemma content_frames:
  "keeps (frame_content s0) (mcs_GetContent i)" "keeps (frame_content s0) (mcs_ListContent st pg)"
  "keeps (frame_content s0) (mcs_GetContentVersioned i)"
  "keeps (frame_content s0) (mts_CreateTask c p)" "keeps (frame_content s0) (mts_GetTask i)"
  "keeps (frame_content s0) (mts_GetTasksByContent c)"
  "keeps (frame_content s0) (mts_GetTaskByContentPlatform c p)"
  "keeps (frame_content s0) (mts_UpdateTaskStatus i ts msg)"
  "keeps (frame_content s0) (mts_IncrementAttemptCount i)"
  "keeps (frame_content s0) (mas_CreateAttempt i n)"
  "keeps (frame_content s0) (mas_CompleteAttempt i ts msg)"
  "keeps (frame_content s0) (mas_GetAttemptsByTask i)"
  "keeps (frame_content s0) (mps_CreatePlatformPost i p pid url r)"
  "keeps (frame_content s0) (mps_GetByTask i)" "keeps (frame_content s0) (mass_CreateAsset a)"
  "keeps (frame_content s0) (mass_GetAsset i)" "keeps (frame_content s0) (mass_GetAssetsByContent c)"
  "keeps (frame_content s0) (mis_Claim K)" "keeps (frame_content s0) (mis_Get k sc)"
  "keeps (frame_content s0) mis_Cleanup"
  by (unfold storage_defs; intro keeps_intros; simp add: frame_defs)+

lemma task_frames:
  "keeps (frame_tasks s0) (mcs_CreateContent title body tags)"
  "keeps (frame_tasks s0) (mcs_GetContent i)" "keeps (frame_tasks s0) (mcs_ListContent st pg)"
  "keeps (frame_tasks s0) (mcs_UpdateContent i cst v)"
  "keeps (frame_tasks s0) (mcs_GetContentVersioned i)"
  "keeps (frame_tasks s0) (mts_GetTask i)"
  "keeps (frame_tasks s0) (mts_GetTasksByContent c)"
  "keeps (frame_tasks s0) (mts_GetTaskByContentPlatform c p)"
  "keeps (frame_tasks s0) (mas_CreateAttempt i n)"
  "keeps (frame_tasks s0) (mas_CompleteAttempt i ts msg)"
  "keeps (frame_tasks s0) (mas_GetAttemptsByTask i)"
  "keeps (frame_tasks s0) (mps_CreatePlatformPost i p pid url r)"
  "keeps (frame_tasks s0) (mps_GetByTask i)" "keeps (frame_tasks s0) (mass_CreateAsset a)"
  "keeps (frame_tasks s0) (mass_GetAsset i)" "keeps (frame_tasks s0) (mass_GetAssetsByContent c)"
  "keeps (frame_tasks s0) (mis_Claim K)" "keeps (frame_tasks s0) (mis_Get k sc)"
  "keeps (frame_tasks s0) mis_Cleanup"
  by (unfold storage_defs; intro keeps_intros; simp add: frame_defs)+

section \<open>Reachable states\<close>

definition content_wf :: "'a MemoryStorage_scheme \<Rightarrow> bool" where
  "content_wf s \<longleftrightarrow> (\<forall>i c v. ms_contents s i = Some (c, v) \<longrightarrow> ct_id c = i \<and> 1 \<le> v \<and> drawn s i)"

definition task_wf :: "'a MemoryStorage_scheme \<Rightarrow> bool" where
  "task_wf s \<longleftrightarrow> ms_inv s \<and> (\<forall>i t. ms_task_map s i = Some t \<longrightarrow> drawn s i)"

definition history :: "'a MemoryStorage_scheme \<Rightarrow> 'a MemoryStorage_scheme \<Rightarrow> bool" where
  "history s s' \<longleftrightarrow> same_but_env s s' \<and>
     (\<forall>i cv. ms_contents s i = Some cv \<longrightarrow> (\<exists>cv'. ms_contents s' i = Some cv' \<and> content_kept cv cv'))"

lemma history_refl: "history s s"
  by (simp add: history_def same_but_env_def)

lemma history_trans: "history s t \<Longrightarrow> history t u \<Longrightarrow> history s u"
  unfolding history_def same_but_env_def by (metis content_kept_trans order_trans)

lemma frame_content_wf:
  assumes "frame_content s s'" "content_wf s"
  shows "content_wf s' \<and> history s s'"
proof -
  have "ms_contents s' = ms_contents s"
    using assms(1) by (simp add: frame_content_def ms_contents_def fun_eq_iff)
  with assms show ?thesis
    by (auto simp: content_wf_def history_def frame_content_def intro: drawn_later)
qed

lemma frame_content_env: "frame_content s s' \<Longrightarrow> same_but_env s s'"
  by (simp add: frame_content_def)

lemma frame_tasks_wf: "frame_tasks s s' \<Longrightarrow> task_wf s \<Longrightarrow> task_wf s'"
  by (auto simp: task_wf_def ms_inv_def ms_task_map_def frame_tasks_def intro: drawn_later)

lemma create_content_wf:
  assumes "content_wf s" "fresh_until s (tick (fin (mcs_CreateContent title body tags) s))"
  shows "content_wf (fin (mcs_CreateContent title body tags) s) \<and>
         history s (fin (mcs_CreateContent title body tags) s)"
proof -
  let ?s' = "fin (mcs_CreateContent title body tags) s" and ?i = "uuid_at s (tick s + 1)"
  have env: "same_but_env s ?s'" by (simp add: run_mcs_CreateContent Let_def same_but_env_def)
  have view: "ms_contents ?s' = (ms_contents s)(?i \<mapsto> (new_content ?i (clock s (tick s)) title body tags, 1))"
    and tick: "tick ?s' = tick s + 2"
    by (simp_all add: run_mcs_CreateContent Let_def)
  have "\<not> drawn s ?i" using drawn_next [OF assms(2), of "tick s + 1"] tick by simp
  then have none: "ms_contents s ?i = None" using assms(1)
    by (cases "ms_contents s ?i") (auto simp: content_wf_def)
  have "drawn ?s' ?i" unfolding drawn_def using tick uuid_at_env [OF env] by force
  with assms(1) env view none show ?thesis
    by (auto simp: content_wf_def history_def intro: drawn_later)
qed

lemma update_content_wf:
  assumes "content_wf s"
  shows "content_wf (fin (mcs_UpdateContent i st w) s) \<and> history s (fin (mcs_UpdateContent i st w) s)"
proof (cases "\<exists>c. ms_contents s i = Some (c, w)")
  case False
  then have "fin (mcs_UpdateContent i st w) s = s"
    by (cases "ms_contents s i") (auto simp: run_mcs_UpdateContent(1,2))
  with assms history_refl show ?thesis by simp
next
  case True
  then obtain c where c: "ms_contents s i = Some (c, w)" by blast
  let ?s' = "fin (mcs_UpdateContent i st w) s"
  have env: "same_but_env s ?s'" by (simp add: run_mcs_UpdateContent(3) [OF c] same_but_env_def)
  have view: "ms_contents ?s' =
      (ms_contents s)(i \<mapsto> (c\<lparr>ct_status := st, ct_updated_at := clock s (tick s)\<rparr>, w + 1))"
    by (simp add: run_mcs_UpdateContent(3) [OF c])
  have "0 \<le> w" using assms c by (force simp: content_wf_def)
  with assms c env view show ?thesis
    by (auto simp: content_wf_def history_def content_kept_def intro: drawn_later)
qed

lemma create_task_wf:
  assumes "task_wf s" "fresh_until s (tick (fin (mts_CreateTask c p) s))"
  shows "task_wf (fin (mts_CreateTask c p) s)"
proof (cases "has_pair (ms_task_map s) c p")
  case True
  with assms show ?thesis
    by (auto simp: run_mts_CreateTask task_wf_def drawn_def uuid_at_def less_Suc_eq)
next
  case False
  let ?s' = "fin (mts_CreateTask c p) s" and ?i = "uuid_at s (tick s + 2)"
  let ?t = "new_task ?i (clock s (tick s + 1)) c p"
  have env: "same_but_env s ?s'" and view: "ms_task_map ?s' = (ms_task_map s)(?i \<mapsto> ?t)"
    and tick: "tick ?s' = tick s + 3"
    using False by (simp_all add: run_mts_CreateTask Let_def same_but_env_def)
  have "drawn ?s' ?i"
    unfolding drawn_def using tick uuid_at_env [OF env] by (intro exI [of _ "tick s + 2"]) simp
  moreover have "tasks_ok ((ms_task_map s)(pt_id ?t \<mapsto> ?t))"
    by (rule tasks_ok_insert) (use assms(1) False in \<open>simp_all add: task_wf_def ms_inv_def has_pair_def\<close>)
  ultimately show ?thesis
    using assms(1) env view by (auto simp: task_wf_def ms_inv_def intro: drawn_later)
qed

lemma task_update_wf:
  assumes "task_wf s"
  shows "task_wf (fin (mts_UpdateTaskStatus i st msg) s)" and "task_wf (fin (mts_IncrementAttemptCount i) s)"
proof -
  have env: "same_but_env s (fin (mts_UpdateTaskStatus i st msg) s)"
    "same_but_env s (fin (mts_IncrementAttemptCount i) s)"
    by (simp_all add: run_mts_UpdateTaskStatus run_mts_IncrementAttemptCount same_but_env_def split: option.split)
  show "task_wf (fin (mts_UpdateTaskStatus i st msg) s)"
    using assms drawn_later [OF env(1)]
    by (cases "ms_task_map s i")
      (auto simp: run_mts_UpdateTaskStatus task_wf_def ms_inv_def intro!: tasks_ok_update)
  show "task_wf (fin (mts_IncrementAttemptCount i) s)"
    using assms drawn_later [OF env(2)]
    by (cases "ms_task_map s i")
      (auto simp: run_mts_IncrementAttemptCount task_wf_def ms_inv_def intro!: tasks_ok_update)
qed

lemma quiet_wf:
  "frame_content s s' \<Longrightarrow> frame_tasks s s' \<Longrightarrow> content_wf s \<Longrightarrow> task_wf s \<Longrightarrow>
     content_wf s' \<and> history s s' \<and> task_wf s'"
  using frame_content_wf frame_tasks_wf by blast

lemma ms_step_wf:
  "ms_step s s' \<Longrightarrow> fresh_until s (tick s') \<Longrightarrow> content_wf s \<Longrightarrow> task_wf s \<Longrightarrow>
     content_wf s' \<and> history s s' \<and> task_wf s'"
proof (induction rule: ms_step.induct)
  case (1 s title body tags)
  then show ?case using create_content_wf frame_tasks_wf frame_keeps(2) [OF task_frames(1)] by blast
next
  case (4 s i st v)
  then show ?case using update_content_wf frame_tasks_wf frame_keeps(2) [OF task_frames(4)] by blast
next
  case (6 s c p)
  then show ?case using create_task_wf frame_content_wf frame_keeps(1) [OF content_frames(4)] by blast
next
  case (10 s i ts msg)
  then show ?case using task_update_wf(1) frame_content_wf frame_keeps(1) [OF content_frames(8)] by blast
next
  case (11 s i)
  then show ?case using task_update_wf(2) frame_content_wf frame_keeps(1) [OF content_frames(9)] by blast
qed (rule quiet_wf; (rule frame_keeps, rule content_frames task_frames | assumption))+

lemma ms_step_env: "ms_step s s' \<Longrightarrow> same_but_env s s'"
proof (induction rule: ms_step.induct)
  case (1 s title body tags)
  then show ?case by (simp add: run_mcs_CreateContent Let_def same_but_env_def)
next
  case (4 s i st v)
  then show ?case using frame_keeps(2) [OF task_frames(4)] by (auto simp: frame_tasks_def)
qed (rule frame_content_env, rule frame_keeps, rule content_frames)+

lemma ms_run_wf:
  assumes "ms_step\<^sup>*\<^sup>* s s'" "fresh_until s (tick s')" "content_wf s" "task_wf s"
  shows "content_wf s' \<and> history s s' \<and> task_wf s'"
  using assms
proof (induction rule: rtranclp_induct)
  case base
  then show ?case by (simp add: history_refl)
next
  case (step t u)
  have env: "same_but_env t u" using ms_step_env [OF step.hyps(2)] .
  then have "fresh_until s (tick t)"
    using step.prems(1) by (auto simp: fresh_until_def same_but_env_def elim: inj_on_subset)
  with step.IH step.prems have t: "content_wf t" "history s t" "task_wf t" by blast+
  then have "fresh_until t (tick u)"
    using step.prems(1) uuid_at_env [of s t] by (simp add: fresh_until_def history_def)
  from ms_step_wf [OF step.hyps(2) this t(1,3)] history_trans [OF t(2)] show ?case by blast
qed

lemma empty_wf: "content_wf (NewMemoryStorage e)" "task_wf (NewMemoryStorage e)"
  by (simp_all add: content_wf_def task_wf_def ms_inv_def tasks_ok_def NewMemoryStorage_def
      ms_contents_def ms_task_map_def MemoryStorage.defs env.defs)

section \<open>Properties of the storage layer\<close>

lemma new_storage_simps [simp]:
  "ms_contents (NewMemoryStorage e) i = None" "ms_task_map (NewMemoryStorage e) i = None"
  "ms_idem_map (NewMemoryStorage e) i = None" "tick (NewMemoryStorage e) = tick e"
  "clock (NewMemoryStorage e) = clock e" "entropy (NewMemoryStorage e) = entropy e"
  by (simp_all add: NewMemoryStorage_def ms_contents_def ms_task_map_def ms_idem_map_def
      MemoryStorage.defs env.defs)

text \<open>
  C3. Optimistic locking (\<open>MemoryContentStore.UpdateContent\<close>, \<open>GetContentVersioned\<close>): a client
  reads a content with its version; then any calls of any clients follow. If its update with that
  version succeeds, the content is still exactly the one it read, only the status and the update
  time change, and a further update with the same version is refused. No update is lost.
\<close>

theorem optimistic_locking:
  fixes s :: MemoryStorage
  assumes "ms_step\<^sup>*\<^sup>* (NewMemoryStorage e) s" and "res (mcs_GetContentVersioned i) s = Inr (c, v)"
    and "ms_step\<^sup>*\<^sup>* s s'" and "fresh_until (NewMemoryStorage e) (tick s')"
    and "res (mcs_UpdateContent i st v) s' = None"
  shows "let s'' = fin (mcs_UpdateContent i st v) s' in
         res (mcs_GetContent i) s' = Inr c \<and>
         res (mcs_GetContentVersioned i) s'' =
           Inr (c\<lparr>ct_status := st, ct_updated_at := clock s' (tick s')\<rparr>, v + 1) \<and>
         (\<forall>st'. res (mcs_UpdateContent i st' v) s'' = Some (version_error i v (v + 1)))"
proof -
  have run: "ms_step\<^sup>*\<^sup>* (NewMemoryStorage e) s'" using assms(1,3) by simp
  have env: "same_but_env s s'" if "ms_step\<^sup>*\<^sup>* s s'" for s s' :: MemoryStorage
    using that by (induction rule: rtranclp_induct)
      (auto dest!: ms_step_env simp: same_but_env_def)
  have "fresh_until (NewMemoryStorage e) (tick s)"
    using assms(4) env [OF assms(3)]
    by (auto simp: fresh_until_def same_but_env_def elim: inj_on_subset)
  then have wf: "content_wf s" "task_wf s"
    using ms_run_wf [OF assms(1) _ empty_wf] by blast+
  have "fresh_until s (tick s')"
    using assms(4) uuid_at_env [OF env [OF assms(1)]] by (simp add: fresh_until_def)
  then have hist: "history s s'" using ms_run_wf [OF assms(3) _ wf] by blast
  have c: "ms_contents s i = Some (c, v)"
    using assms(2) by (cases "ms_contents s i") (simp_all add: run_mcs_GetContentVersioned)
  then obtain c' v' where c': "ms_contents s' i = Some (c', v')" "content_kept (c, v) (c', v')"
    using hist unfolding history_def by fast
  have "v' = v" using assms(5) run_mcs_UpdateContent(2) [OF c'(1)] by force
  with c' have now: "ms_contents s' i = Some (c, v)" by (simp add: content_kept_def)
  let ?c = "c\<lparr>ct_status := st, ct_updated_at := clock s' (tick s')\<rparr>"
  have "ms_contents (fin (mcs_UpdateContent i st v) s') i = Some (?c, v + 1)"
    by (simp add: run_mcs_UpdateContent(3) [OF now])
  then show ?thesis
    by (simp add: Let_def run_mcs_GetContent run_mcs_GetContentVersioned now run_mcs_UpdateContent(2))
qed

definition ms_example_id :: string where
  "ms_example_id = uuid_at env0 1"

definition ms_example :: MemoryStorage where
  "ms_example = fin (mcs_CreateContent ''T'' ''B'' []) (NewMemoryStorage env0)"

lemma ms_example_run: "ms_step\<^sup>*\<^sup>* (NewMemoryStorage env0) ms_example"
  unfolding ms_example_def by (intro r_into_rtranclp ms_step.intros)

lemma ms_example_simps [simp]:
  "tick ms_example = 2" "clock ms_example = int"
  "ms_contents ms_example ms_example_id = Some (new_content ms_example_id 0 ''T'' ''B'' [], 1)"
  by (simp_all add: ms_example_def run_mcs_CreateContent Let_def env0_def uuid_at_def ms_example_id_def)

lemma fresh_example: "n \<le> 256 \<Longrightarrow> fresh_until (NewMemoryStorage env0) n"
  by (rule fresh_env0) simp_all

theorem optimistic_locking_witness:
  "let s'' = fin (mcs_UpdateContent ms_example_id ContentStatusReady 1) ms_example in
   res (mcs_UpdateContent ms_example_id ContentStatusArchived 1) s'' =
     Some (version_error ms_example_id 1 2)"
  using optimistic_locking [OF ms_example_run, of ms_example_id
      "new_content ms_example_id 0 ''T'' ''B'' []" 1 ms_example ContentStatusReady]
    fresh_example [of 2]
  by (simp add: run_mcs_GetContentVersioned run_mcs_UpdateContent(3) Let_def)

text \<open>
  Version 0 (\<open>MemoryContentStore.UpdateContent\<close>): in every reachable state versions start at
  1, so an update with version 0, the one the publish service passes to mean any version, changes
  nothing: it reports a version conflict, or not found.
\<close>

lemma version_zero_conflicts:
  fixes s :: MemoryStorage
  assumes "ms_step\<^sup>*\<^sup>* (NewMemoryStorage e) s" and "fresh_until (NewMemoryStorage e) (tick s)"
  shows "fin (mcs_UpdateContent i st 0) s = s \<and>
         (\<exists>err. res (mcs_UpdateContent i st 0) s = Some err \<and>
            errors_Is err (if ms_contents s i = None then ErrNotFound else ErrVersionConflict))"
proof (cases "ms_contents s i")
  case None
  then show ?thesis by (simp add: run_mcs_UpdateContent(1))
next
  case (Some cv)
  obtain c v where cv: "ms_contents s i = Some (c, v)" using Some by (cases cv) auto
  have "content_wf s" using ms_run_wf [OF assms empty_wf] by blast
  with cv have "0 \<noteq> v" by (force simp: content_wf_def)
  with cv show ?thesis by (simp add: run_mcs_UpdateContent(2) version_error_def)
qed

lemma version_zero_conflicts_witness:
  "fin (mcs_UpdateContent ms_example_id ContentStatusPublishing 0) ms_example = ms_example"
  using version_zero_conflicts [OF ms_example_run] fresh_example [of 2] by simp

text \<open>Contents with a status, as a multiset.\<close>

definition contents_with :: "'a MemoryStorage_scheme \<Rightarrow> ContentStatus \<Rightarrow> Content multiset" where
  "contents_with s st =
     image_mset (\<lambda>i. fst (the (ms_contents s i)))
       (mset_set {i. \<exists>c v. ms_contents s i = Some (c, v) \<and> ct_status c = st})"

lemma filtered_contents:
  "mset (filter (\<lambda>c. ct_status c = st)
     (map (\<lambda>(_, rec). cr_content rec) (shuffle r (DAList.impl_of (ms_content s))))) = contents_with s st"
proof -
  let ?m = "ms_content s"
  let ?A = "{k. \<exists>v. DAList.lookup ?m k = Some v \<and> ct_status (cr_content v) = st}"
  have A: "?A = {i. \<exists>c v. ms_contents s i = Some (c, v) \<and> ct_status c = st}"
    by (auto simp: ms_contents_def)
  have "image_mset (\<lambda>k. cr_content (the (DAList.lookup ?m k))) (mset_set ?A) = contents_with s st"
    unfolding contents_with_def A
    by (rule image_mset_cong) (auto simp: ms_contents_def dest!: mset_setD)
  moreover have "map (\<lambda>(_, rec). cr_content rec) xs = map cr_content (map snd xs)"
    for xs :: "(string \<times> contentRecord) list" by auto
  ultimately show ?thesis by (simp only: filter_values_mset)
qed

lemma size_contents_with:
  "size (contents_with s st) = card {i. \<exists>c v. ms_contents s i = Some (c, v) \<and> ct_status c = st}"
  by (simp add: contents_with_def)

lemma sort_key_desc:
  "sorted_wrt (\<lambda>a b. (f a :: int) \<ge> f b) (sort_key (\<lambda>c. - f c) xs)"
  using sorted_sort_key [of "\<lambda>c. - f c" xs] by (simp add: sorted_map)

text \<open>
  C30. Listing (\<open>MemoryContentStore.ListContent\<close>, \<open>Pagination.Normalize\<close>): whatever order the map is
  iterated in, the answer is the window from \<open>offset\<close>, of at most \<open>limit\<close>, of a newest-first
  arrangement of exactly the contents with the asked status; the total counts them all; the limit
  that was applied is between 1 and 100, the offset not negative, and nothing is changed.
\<close>

theorem list_content_page:
  "\<exists>all items meta.
     res (mcs_ListContent st pg) s = Inr (items, meta) \<and>
     mset all = contents_with s st \<and>
     sorted_wrt (\<lambda>a b. ct_created_at a \<ge> ct_created_at b) all \<and>
     items = take (nat (pgr_limit meta)) (drop (nat (pgr_offset meta)) all) \<and>
     pgr_total meta = int (size (contents_with s st)) \<and>
     pgr_limit meta = pg_limit (Normalize pg) \<and> pgr_offset meta = pg_offset (Normalize pg) \<and>
     1 \<le> pgr_limit meta \<and> pgr_limit meta \<le> 100 \<and> 0 \<le> pgr_offset meta \<and>
     ms_contents (fin (mcs_ListContent st pg) s) = ms_contents s"
proof -
  let ?es = "shuffle (range_order s (tick s)) (DAList.impl_of (ms_content s))"
  let ?fs = "filter (\<lambda>c. ct_status c = st) (map (\<lambda>(_, rec). cr_content rec) ?es)"
  let ?pg = "Normalize pg"
  obtain all where all: "sort_key (\<lambda>c. - ct_created_at c) ?fs = all" by blast
  then have ms: "mset all = contents_with s st" by (metis mset_sort filtered_contents)
  have sorted: "sorted_wrt (\<lambda>a b. ct_created_at a \<ge> ct_created_at b) all"
    unfolding all [symmetric] by (rule sort_key_desc)
  obtain i j where ij: "page_bounds ?pg (int (length all)) = (i, j)" by fastforce
  have slice: "go_slice all i j = take (nat (pg_limit ?pg)) (drop (nat (pg_offset ?pg)) all)"
    using go_slice_page [of ?pg all] Normalize_range [of pg] by (simp add: ij)
  have "length ?fs = size (contents_with s st)" by (metis filtered_contents size_mset)
  moreover have "length all = size (contents_with s st)" using ms by (metis size_mset)
  moreover have "map copyContent xs = xs" for xs by (simp add: copyContent_def map_idI)
  ultimately have "run_state (mcs_ListContent st pg) s =
      (Inr (take (nat (pg_limit ?pg)) (drop (nat (pg_offset ?pg)) all),
         \<lparr>pgr_total = int (size (contents_with s st)), pgr_limit = pg_limit ?pg,
          pgr_offset = pg_offset ?pg\<rparr>), s\<lparr>tick := Suc (tick s)\<rparr>)"
    using ij slice by (simp add: mcs_ListContent_def Let_def all del: length_filter_map)
  with ms sorted show ?thesis by - (rule exI [of _ all], simp add: Normalize_range)
qed

text \<open>
  C23. Task uniqueness (\<open>MemoryPublishTaskStore\<close>): in every reachable state a content has at most
  one task per platform; \<open>GetTaskByContentPlatform\<close> returns precisely that task whatever the
  iteration order, \<open>CreateTask\<close> conflicts precisely when it exists, and otherwise creates a pending
  task with the default policy that no existing task is overwritten by.
\<close>

theorem one_task_per_platform:
  fixes s :: MemoryStorage
  assumes "ms_step\<^sup>*\<^sup>* (NewMemoryStorage e) s"
    and "fresh_until (NewMemoryStorage e) (tick s + 3)"
  shows "(res (mts_GetTaskByContentPlatform c p) s = Inr t \<longleftrightarrow>
            ms_task_map s (pt_id t) = Some t \<and> pt_content_id t = c \<and> pt_platform t = p) \<and>
         (case res (mts_CreateTask c p) s of
            Inl err \<Rightarrow> errors_Is err ErrConflict \<and> has_pair (ms_task_map s) c p \<and>
                       ms_task_map (fin (mts_CreateTask c p) s) = ms_task_map s
          | Inr u \<Rightarrow> pending_task c p u \<and> \<not> has_pair (ms_task_map s) c p \<and>
                     ms_task_map s (pt_id u) = None \<and>
                     ms_task_map (fin (mts_CreateTask c p) s) = (ms_task_map s)(pt_id u \<mapsto> u))"
proof
  have fresh: "fresh_until (NewMemoryStorage e) (tick s)"
    using assms(2) by (auto simp: fresh_until_def elim: inj_on_subset)
  have hist: "history (NewMemoryStorage e) s" and wf: "task_wf s"
    using ms_run_wf [OF assms(1) fresh empty_wf] by blast+
  then have inv: "ms_inv s" and ids: "\<And>i t. ms_task_map s i = Some t \<Longrightarrow> pt_id t = i"
    by (auto simp: task_wf_def ms_inv_def dest: tasks_okD(1))
  show "res (mts_GetTaskByContentPlatform c p) s = Inr t \<longleftrightarrow>
          ms_task_map s (pt_id t) = Some t \<and> pt_content_id t = c \<and> pt_platform t = p"
    using mts.lookup_pair [OF inv, of c p t] ids by auto
  have "fresh_until s (tick s + 3)"
    using assms(2) hist uuid_at_env by (fastforce simp: fresh_until_def history_def)
  then have "\<not> drawn s (uuid_at s (tick s + 2))" by (rule drawn_next) simp_all
  then have "ms_task_map s (uuid_at s (tick s + 2)) = None"
    using wf by (cases "ms_task_map s (uuid_at s (tick s + 2))") (auto simp: task_wf_def)
  then show "case res (mts_CreateTask c p) s of
            Inl err \<Rightarrow> errors_Is err ErrConflict \<and> has_pair (ms_task_map s) c p \<and>
                       ms_task_map (fin (mts_CreateTask c p) s) = ms_task_map s
          | Inr u \<Rightarrow> pending_task c p u \<and> \<not> has_pair (ms_task_map s) c p \<and>
                     ms_task_map s (pt_id u) = None \<and>
                     ms_task_map (fin (mts_CreateTask c p) s) = (ms_task_map s)(pt_id u \<mapsto> u)"
    by (simp add: run_mts_CreateTask Let_def)
qed

theorem one_task_per_platform_witness:
  "case res (mts_CreateTask ''c'' ''x'') ms_example of
     Inl err \<Rightarrow> False | Inr u \<Rightarrow> ms_task_map ms_example (pt_id u) = None"
proof -
  have "ms_task_map ms_example = Map.empty"
    by (rule ext) (simp add: ms_example_def run_mcs_CreateContent Let_def ms_task_map_def
        NewMemoryStorage_def MemoryStorage.defs env.defs)
  then have "\<not> has_pair (ms_task_map ms_example) ''c'' ''x''" by (simp add: has_pair_def)
  with one_task_per_platform [OF ms_example_run, of "''c''" "''x''"] fresh_example [of 5]
  show ?thesis by (cases "res (mts_CreateTask ''c'' ''x'') ms_example") simp_all
qed

text \<open>
  C24. Idempotency claims (\<open>MemoryIdempotencyStore.Claim\<close>, \<open>Get\<close>, \<open>Cleanup\<close>): once a key is claimed,
  whatever sequence of claims, reads and cleanups follows, until the time to live is over a second
  claim of the same key and scope is refused and the key reads back as the first claimant.
\<close>

theorem claim_is_exclusive:
  fixes s :: "'a MemoryStorage_scheme"
  assumes "clock_mono s" and "res (mis_Claim K) s = Inr True"
    and "s' = idem_run MemoryIdempotencyStore ops (fin (mis_Claim K) s)"
    and "clock s (tick s') < clock s (tick s) + ik_ttl K"
    and "ik_key K' = ik_key K" and "ik_scope K' = ik_scope K"
  shows "res (mis_Claim K') s' = Inr False \<and>
         res (mis_Get (ik_key K) (ik_scope K)) s' = Inr (ik_entity_id K)"
  using mis.claim_exclusive [of s K s' ops K'] assms by (simp add: MemoryIdempotencyStore_def)

definition example_key :: "string \<Rightarrow> IdempotencyKey" where
  "example_key ent = \<lparr>ik_key = ''c:p'', ik_scope = IdempotencyScopeTask, ik_entity_id = ent,
     ik_created_at = 0, ik_ttl = 100\<rparr>"

lemma clock_mono_env0: "clock s = int \<Longrightarrow> clock_mono s"
  by (simp add: clock_mono_def)

theorem claim_is_exclusive_witness:
  "res (mis_Claim (example_key ''t2'')) (idem_run MemoryIdempotencyStore [OpCleanup]
     (fin (mis_Claim (example_key ''t1'')) (NewMemoryStorage env0))) = Inr False"
proof -
  let ?s = "NewMemoryStorage env0" and ?K = "example_key ''t1''"
  have "tick (idem_run MemoryIdempotencyStore [OpCleanup] (fin (mis_Claim ?K) ?s)) = 3"
    by (simp add: idem_run_def MemoryIdempotencyStore_def run_mis_Claim run_mis_Cleanup env0_def)
  then show ?thesis
    using claim_is_exclusive [of ?s ?K _ "[OpCleanup]" "example_key ''t2''"]
    by (simp add: clock_mono_def env0_def run_mis_Claim example_key_def)
qed

text \<open>
  C31. Cleanup (\<open>MemoryIdempotencyStore.Cleanup\<close>): although it deletes from the map it iterates,
  in an unspecified order, it removes exactly the entries whose deadline has passed, counts them,
  and leaves every other entry; no claim that \<open>Get\<close> would still answer is lost.
\<close>

theorem cleanup_exact:
  "res mis_Cleanup s = Inr (int (card (expired s))) \<and>
   ms_idem_map (fin mis_Cleanup s) = (\<lambda>k. if k \<in> expired s then None else ms_idem_map s k) \<and>
   (\<forall>k sc. (\<exists>ent. res (mis_Get k sc) s = Inr ent) \<longleftrightarrow>
           ms_idem_map (fin mis_Cleanup s) (mis_composite k sc) \<noteq> None)"
proof (intro conjI)
  show "res mis_Cleanup s = Inr (int (card (expired s)))" by (simp add: run_mis_Cleanup)
  show "ms_idem_map (fin mis_Cleanup s) = (\<lambda>k. if k \<in> expired s then None else ms_idem_map s k)"
    by (rule ext) (simp add: run_mis_Cleanup)
  show "\<forall>k sc. (\<exists>ent. res (mis_Get k sc) s = Inr ent) \<longleftrightarrow>
           ms_idem_map (fin mis_Cleanup s) (mis_composite k sc) \<noteq> None"
    by (auto simp: run_mis_Cleanup run_mis_Get expired_def split: option.split)
qed

text \<open>
  Transactions (\<open>MemoryTx.Run\<close>): the in-memory transaction does not roll back. A callback that
  creates a content and then fails makes \<open>Run\<close> return its error and leaves the content stored,
  where the \<open>Tx\<close> contract promises that an error undoes the changes.
\<close>

lemma tx_run_no_rollback:
  "let fn = (\<lambda>tx. do { r \<leftarrow> CreateContent (txs_content tx) title body tags; ret (Some err) });
       c = new_content (uuid_at s (tick s + 1)) (clock s (tick s)) title body tags
   in res (MemoryTx_Run fn) s = Some err \<and>
      ms_contents (fin (MemoryTx_Run fn) s) = (ms_contents s)(ct_id c \<mapsto> (c, 1))"
  by (simp add: MemoryTx_Run_def Let_def run_mcs_CreateContent)

text \<open>
  Attempt history (\<open>MemoryPublishAttemptStore.GetAttemptsByTask\<close>): the answer holds each stored
  attempt of the task exactly once, in the order of the attempt numbers, and changes nothing.
\<close>

lemma attempts_complete_sorted:
  "\<exists>as. res (mas_GetAttemptsByTask t) s = Inr as \<and>
     sorted (map pa_attempt_number as) \<and>
     mset as = image_mset (\<lambda>i. the (DAList.lookup (ms_attempts s) i))
       (mset_set {i. \<exists>a. DAList.lookup (ms_attempts s) i = Some a \<and> pa_task_id a = t}) \<and>
     ms_attempts (fin (mas_GetAttemptsByTask t) s) = ms_attempts s"
proof -
  let ?es = "map snd (shuffle (range_order s (tick s)) (DAList.impl_of (ms_attempts s)))"
  have "map copyAttempt (filter (\<lambda>a. pa_task_id a = t) xs) = filter (\<lambda>a. pa_task_id a = t) (map (\<lambda>a. a) xs)"
    for xs by (simp add: copyAttempt_def map_idI)
  then show ?thesis
    using filter_values_mset [of "\<lambda>a. pa_task_id a = t" "\<lambda>a. a" "range_order s (tick s)" "ms_attempts s"]
    by (simp add: mas_GetAttemptsByTask_def Let_def)
qed

end
