(* ===== verification/MockPlatform.thy ===== *)
theory MockPlatform
  imports Platform
begin

text \<open>
  \<open>internal/platform/mock/mock.go\<close>: the configurable adapter the API server registers. A method
  with a pointer receiver takes the receiver's value and returns the new one; \<open>as_Platform\<close> makes
  the adapter of a \<open>MockPlatform\<close> that lives somewhere in the program's state.
\<close>

section \<open>State and constructors\<close>

record Behavior =
  bh_validate_err :: "go_error option"
  bh_publish_err :: "go_error option"
  bh_upload_err :: "go_error option"
  bh_retryable :: bool
  bh_attempts_before_success :: int
  bh_publish_result :: "PostResult option"

record PublishCall =
  pc_doc_title :: string
  pc_tags :: "string list"
  pc_at :: Time

record MockPlatform =
  mk_name :: string
  mk_behavior :: Behavior
  mk_calls :: "PublishCall list"
  mk_attempt :: int

definition mock_New :: "string \<Rightarrow> Behavior \<Rightarrow> MockPlatform" where
  "mock_New name b = \<lparr>mk_name = name, mk_behavior = b, mk_calls = [], mk_attempt = 0\<rparr>"

definition zero_behavior :: Behavior where
  "zero_behavior =
     \<lparr>bh_validate_err = None, bh_publish_err = None, bh_upload_err = None, bh_retryable = False,
      bh_attempts_before_success = 0, bh_publish_result = None\<rparr>"

definition NewSuccessPlatform :: "string \<Rightarrow> MockPlatform" where
  "NewSuccessPlatform name = mock_New name zero_behavior"

definition NewRetryablePlatform :: "string \<Rightarrow> int \<Rightarrow> MockPlatform" where
  "NewRetryablePlatform name failCount =
     mock_New name (zero_behavior\<lparr>
       bh_publish_err := Some (PlatformErr
         \<lparr>pe_platform = name, pe_status_code = 503, pe_message = ''service unavailable'',
          pe_retryable = True\<rparr>),
       bh_retryable := True, bh_attempts_before_success := failCount\<rparr>)"

definition NewPermanentFailPlatform :: "string \<Rightarrow> string \<Rightarrow> MockPlatform" where
  "NewPermanentFailPlatform name errMsg =
     mock_New name (zero_behavior\<lparr>
       bh_publish_err := Some (PlatformErr
         \<lparr>pe_platform = name, pe_status_code = 422, pe_message = errMsg, pe_retryable = False\<rparr>),
       bh_retryable := False\<rparr>)"

definition NewValidationFailPlatform :: "string \<Rightarrow> string \<Rightarrow> MockPlatform" where
  "NewValidationFailPlatform name errMsg =
     mock_New name (zero_behavior\<lparr>
       bh_validate_err := Some (Errorf (''validation failed: '' @ errMsg))\<rparr>)"

section \<open>Methods\<close>

definition mock_Validate :: "MockPlatform \<Rightarrow> Document \<Rightarrow> go_error option" where
  "mock_Validate m doc = bh_validate_err (mk_behavior m)"

definition mock_UploadAssets :: "MockPlatform \<Rightarrow> AssetRef list \<Rightarrow> AssetRef list result" where
  "mock_UploadAssets m assets =
     (case bh_upload_err (mk_behavior m) of Some err \<Rightarrow> Inl err | None \<Rightarrow> Inr assets)"

definition mock_Publish ::
  "MockPlatform \<Rightarrow> Document \<Rightarrow> Credentials \<Rightarrow>
     ('a env_scheme, MockPlatform \<times> PostResult result) state" where
  "mock_Publish m doc creds = do {
     now \<leftarrow> time_Now;
     let m = m\<lparr>mk_calls := mk_calls m @
                 [\<lparr>pc_doc_title = doc_title doc, pc_tags = doc_tags doc, pc_at = now\<rparr>]\<rparr>;
     let m = m\<lparr>mk_attempt := mk_attempt m + 1\<rparr>;
     let b = mk_behavior m;
     let failure = (case bh_publish_err b of
        None \<Rightarrow> None
      | Some err \<Rightarrow>
          if bh_attempts_before_success b > 0 \<and> mk_attempt m > bh_attempts_before_success b
          then None else Some err);
     case failure of
       Some err \<Rightarrow> ret (m, Inl err)
     | None \<Rightarrow>
         (case bh_publish_result b of
            Some r \<Rightarrow> ret (m, Inr r)
          | None \<Rightarrow> do {
              now \<leftarrow> time_Now;
              ret (m, Inr
                \<lparr>por_platform_post_id = ''mock-post-'' @ itoa (mk_attempt m),
                 por_platform_url = ''https://'' @ mk_name m @ ''.example.com/posts/'' @ itoa (mk_attempt m),
                 por_published_at = now,
                 por_response = ''{\"status\":\"ok\"}''\<rparr>)
            })
   }"

definition mock_Delete :: "MockPlatform \<Rightarrow> string \<Rightarrow> Credentials \<Rightarrow> go_error option" where
  "mock_Delete m postID creds = None"

definition mock_Capabilities :: Capabilities where
  "mock_Capabilities =
     \<lparr>cap_supported_nodes =
        [NodeHeading, NodeParagraph, NodeCodeBlock, NodeBlockQuote, NodeList, NodeImage,
         NodeHorizontalRule],
      cap_max_title_length = 500, cap_max_body_length = 100000, cap_max_tags = 10,
      cap_max_images = 20, cap_requires_cover = False, cap_supports_video = True,
      cap_auth_type = AuthTypeOAuth2\<rparr>"

definition mock_Calls :: "MockPlatform \<Rightarrow> PublishCall list" where
  "mock_Calls m = mk_calls m"

definition mock_AttemptCount :: "MockPlatform \<Rightarrow> int" where
  "mock_AttemptCount m = mk_attempt m"

definition mock_Reset :: "MockPlatform \<Rightarrow> MockPlatform" where
  "mock_Reset m = m\<lparr>mk_calls := [], mk_attempt := 0\<rparr>"

text \<open>The adapter of the \<open>MockPlatform\<close> that \<open>get\<close> reads from the state and \<open>put\<close> writes to it.\<close>

definition as_Platform ::
  "string \<Rightarrow> ('a env_scheme \<Rightarrow> MockPlatform) \<Rightarrow> (MockPlatform \<Rightarrow> 'a env_scheme \<Rightarrow> 'a env_scheme) \<Rightarrow>
     ('a env_scheme) Platform" where
  "as_Platform name get put =
     \<lparr>pf_Name = name,
      pf_Validate = (\<lambda>doc. gets (\<lambda>s. mock_Validate (get s) doc)),
      pf_UploadAssets = (\<lambda>assets. gets (\<lambda>s. mock_UploadAssets (get s) assets)),
      pf_Publish = (\<lambda>doc creds. do {
         m \<leftarrow> gets get;
         (m', r) \<leftarrow> mock_Publish m doc creds;
         modify (put m');
         ret r
       }),
      pf_Delete = (\<lambda>postID creds. gets (\<lambda>s. mock_Delete (get s) postID creds)),
      pf_Capabilities = mock_Capabilities\<rparr>"

section \<open>Facts\<close>

definition mock_fails :: "MockPlatform \<Rightarrow> bool" where
  "mock_fails m \<longleftrightarrow> bh_publish_err (mk_behavior m) \<noteq> None \<and>
     (bh_attempts_before_success (mk_behavior m) \<le> 0 \<or>
      mk_attempt m < bh_attempts_before_success (mk_behavior m))"

definition recorded :: "MockPlatform \<Rightarrow> Document \<Rightarrow> Time \<Rightarrow> MockPlatform" where
  "recorded m doc now =
     m\<lparr>mk_calls := mk_calls m @
         [\<lparr>pc_doc_title = doc_title doc, pc_tags = doc_tags doc, pc_at = now\<rparr>],
       mk_attempt := mk_attempt m + 1\<rparr>"

lemma recorded_simps [simp]:
  "mk_name (recorded m doc now) = mk_name m" "mk_behavior (recorded m doc now) = mk_behavior m"
  "mk_attempt (recorded m doc now) = mk_attempt m + 1"
  "length (mk_calls (recorded m doc now)) = Suc (length (mk_calls m))"
  by (simp_all add: recorded_def)

lemma run_mock_Publish:
  "\<exists>r e'. run_state (mock_Publish m doc creds) e = ((recorded m doc (clock e (tick e)), r), e') \<and>
     (if mock_fails m then r = Inl (the (bh_publish_err (mk_behavior m))) \<and> e' = e\<lparr>tick := Suc (tick e)\<rparr>
      else (\<exists>post. r = Inr post) \<and> (\<exists>n. tick e < n \<and> e' = e\<lparr>tick := n\<rparr>))"
  by (cases "bh_publish_err (mk_behavior m)"; cases "bh_publish_result (mk_behavior m)")
    (auto simp: mock_Publish_def Let_def recorded_def mock_fails_def intro: exI [of _ "Suc (tick e)"]
      exI [of _ "Suc (Suc (tick e))"])

text \<open>\<open>n\<close> calls of \<open>Publish\<close> in sequence, with the outcomes.\<close>

fun mock_calls :: "nat \<Rightarrow> Document \<Rightarrow> MockPlatform \<Rightarrow> ('a env_scheme, MockPlatform \<times> bool list) state" where
  "mock_calls 0 doc m = ret (m, [])"
| "mock_calls (Suc n) doc m = do {
     (m, r) \<leftarrow> mock_Publish m doc no_credentials;
     (m, oks) \<leftarrow> mock_calls n doc m;
     ret (m, (case r of Inl _ \<Rightarrow> False | Inr _ \<Rightarrow> True) # oks)
   }"

lemma mock_calls_spec:
  "\<exists>m' e'. run_state (mock_calls n doc m) e =
     ((m', map (\<lambda>k. \<not> mock_fails (m\<lparr>mk_attempt := mk_attempt m + int k\<rparr>)) [0..<n]), e') \<and>
     mk_attempt m' = mk_attempt m + int n \<and> length (mk_calls m') = length (mk_calls m) + n \<and>
     mk_behavior m' = mk_behavior m"
proof (induction n arbitrary: m e)
  case (Suc n)
  obtain r e1 where r: "run_state (mock_Publish m doc no_credentials) e =
      ((recorded m doc (clock e (tick e)), r), e1)"
    "(case r of Inl _ \<Rightarrow> False | Inr _ \<Rightarrow> True) = (\<not> mock_fails m)"
    using run_mock_Publish [of m doc no_credentials e] by (auto split: if_splits)
  let ?m = "recorded m doc (clock e (tick e))"
  have eq: "mock_fails (?m\<lparr>mk_attempt := mk_attempt ?m + int k\<rparr>) =
      mock_fails (m\<lparr>mk_attempt := mk_attempt m + int (Suc k)\<rparr>)" for k
    by (simp add: mock_fails_def algebra_simps)
  from Suc.IH [of ?m e1] obtain m' e' where IH:
    "run_state (mock_calls n doc ?m) e1 =
       ((m', map (\<lambda>k. \<not> mock_fails (m\<lparr>mk_attempt := mk_attempt m + int (Suc k)\<rparr>)) [0..<n]), e')"
    "mk_attempt m' = mk_attempt m + int (Suc n)" "length (mk_calls m') = length (mk_calls m) + Suc n"
    "mk_behavior m' = mk_behavior m"
    unfolding eq by auto
  let ?f = "\<lambda>k. \<not> mock_fails (m\<lparr>mk_attempt := mk_attempt m + int k\<rparr>)"
  have "map ?f [0..<Suc n] = ?f 0 # map (\<lambda>k. ?f (Suc k)) [0..<n]"
    by (simp add: upt_conv_Cons map_Suc_upt [symmetric] del: upt_Suc of_nat_Suc)
  then have list: "map ?f [0..<Suc n] = (\<not> mock_fails m) # map (\<lambda>k. ?f (Suc k)) [0..<n]" by simp
  show ?case unfolding list using IH r by simp
qed simp

text \<open>
  C40. Failure window of the mock adapter (\<open>New\<close>, \<open>NewRetryablePlatform\<close>, \<open>Publish\<close>,
  \<open>AttemptCount\<close>, \<open>Calls\<close>): a retryable mock with \<open>n > 0\<close> failures fails exactly its first \<open>n\<close>
  calls and then succeeds; with \<open>n = 0\<close> it fails every call, where the field's comment promises
  immediate success; a success mock never fails; every call is counted and recorded.
\<close>

theorem mock_failure_window:
  "map_prod mock_AttemptCount (\<lambda>oks. oks) (res (mock_calls k doc (NewRetryablePlatform name n)) e) =
     (int k, if n > 0 then replicate (min k (nat n)) False @ replicate (k - nat n) True
             else replicate k False) \<and>
   map_prod (\<lambda>m. length (mock_Calls m)) (\<lambda>oks. oks) (res (mock_calls k doc (NewSuccessPlatform name)) e) =
     (k, replicate k True)"
proof
  let ?m = "NewRetryablePlatform name n"
  obtain m' e' where m': "run_state (mock_calls k doc ?m) e =
      ((m', map (\<lambda>j. \<not> mock_fails (?m\<lparr>mk_attempt := mk_attempt ?m + int j\<rparr>)) [0..<k]), e')"
    "mk_attempt m' = mk_attempt ?m + int k"
    using mock_calls_spec by blast
  have "map (\<lambda>j. \<not> mock_fails (?m\<lparr>mk_attempt := mk_attempt ?m + int j\<rparr>)) [0..<k] =
      (if n > 0 then replicate (min k (nat n)) False @ replicate (k - nat n) True
       else replicate k False)"
    by (rule nth_equalityI)
      (auto simp: NewRetryablePlatform_def mock_New_def mock_fails_def zero_behavior_def nth_append)
  moreover have "mk_attempt ?m = 0" by (simp add: NewRetryablePlatform_def mock_New_def)
  ultimately show "map_prod mock_AttemptCount (\<lambda>oks. oks) (res (mock_calls k doc ?m) e) =
      (int k, if n > 0 then replicate (min k (nat n)) False @ replicate (k - nat n) True
              else replicate k False)"
    using m' by (simp only: fst_conv map_prod_simp mock_AttemptCount_def add_0_left)
next
  let ?m = "NewSuccessPlatform name"
  obtain m' e' where m': "run_state (mock_calls k doc ?m) e =
      ((m', map (\<lambda>j. \<not> mock_fails (?m\<lparr>mk_attempt := mk_attempt ?m + int j\<rparr>)) [0..<k]), e')"
    "length (mk_calls m') = length (mk_calls ?m) + k"
    using mock_calls_spec by blast
  have "map (\<lambda>j. \<not> mock_fails (?m\<lparr>mk_attempt := mk_attempt ?m + int j\<rparr>)) [0..<k] = replicate k True"
    by (rule nth_equalityI) (simp_all add: NewSuccessPlatform_def mock_New_def mock_fails_def zero_behavior_def)
  moreover have "mk_calls ?m = []" by (simp add: NewSuccessPlatform_def mock_New_def)
  ultimately show "map_prod (\<lambda>m. length (mock_Calls m)) (\<lambda>oks. oks) (res (mock_calls k doc ?m) e) =
      (k, replicate k True)"
    using m' by (simp add: mock_Calls_def)
qed

end
