(* ===== verification/ServiceProofs.thy ===== *)
theory ServiceProofs
  imports PublishService PublishContracts StorageContracts MockPlatform
begin

text \<open>
  What \<open>publish.Service\<close> guarantees: the outcome of one platform task, the status and the stored
  state \<open>Publish\<close> ends with, that a platform is posted to once, and how it fares on the stores of
  \<open>internal/storage\<close>. \<open>publish_adapter\<close> is the interface the proofs use of an adapter: its methods do
  not touch the stores. The mock adapter of the repository meets it.
\<close>

section \<open>Adapters that leave the stores alone\<close>

definition stores_same :: "'a PublishMemory_scheme \<Rightarrow> 'a PublishMemory_scheme \<Rightarrow> bool" where
  "stores_same s s' \<longleftrightarrow> pm_quiet s s' \<and> pm_attempts s' = pm_attempts s \<and>
     pm_idempotency s' = pm_idempotency s"

locale publish_adapter =
  fixes P :: "('a PublishMemory_scheme) Platform"
  assumes validate_same: "stores_same s (fin (pf_Validate P doc) s)"
    and upload_same: "stores_same s (fin (pf_UploadAssets P assets) s)"
    and publish_same: "stores_same s (fin (pf_Publish P doc creds) s)"
begin

lemma adapter_keeps:
  assumes "\<And>s s'. I s \<Longrightarrow> pm_quiet s s' \<Longrightarrow> I s'"
  shows "keeps I (pf_Validate P doc)" "keeps I (pf_UploadAssets P assets)"
    "keeps I (pf_Publish P doc creds)"
  using validate_same upload_same publish_same
  by (rule_tac [!] keepsI, erule_tac [!] assms) (simp_all add: stores_same_def)

end

text \<open>The dependencies the API server builds, over any registry.\<close>

definition publish_deps ::
  "('a PublishMemory_scheme) Registry \<Rightarrow> ('a PublishMemory_scheme) Deps" where
  "publish_deps reg =
     \<lparr>d_ContentStore = PubContentStore, d_TaskStore = PubTaskStore, d_AttemptStore = PubAttemptStore,
      d_PostStore = PubPostStore, d_IdempotencyStore = PubIdempotencyStore, d_Platforms = reg\<rparr>"

lemma publish_deps_simps [simp]:
  "d_ContentStore (publish_deps reg) = PubContentStore" "d_TaskStore (publish_deps reg) = PubTaskStore"
  "d_AttemptStore (publish_deps reg) = PubAttemptStore" "d_PostStore (publish_deps reg) = PubPostStore"
  "d_IdempotencyStore (publish_deps reg) = PubIdempotencyStore" "d_Platforms (publish_deps reg) = reg"
  by (simp_all add: publish_deps_def)

lemma PubAttemptStore_simps [simp]:
  "CreateAttempt PubAttemptStore = pas_CreateAttempt"
  "CompleteAttempt PubAttemptStore = pas_CompleteAttempt"
  by (simp_all add: PubAttemptStore_def)

lemma PubPostStore_simps [simp]: "CreatePlatformPost PubPostStore = pps_CreatePlatformPost"
  by (simp add: PubPostStore_def)

text \<open>A program with mock adapters: each lives in the state, under its name.\<close>

record World = PublishMemory +
  w_mocks :: "string \<Rightarrow> MockPlatform"

definition mock_adapter :: "string \<Rightarrow> World Platform" where
  "mock_adapter name =
     as_Platform name (\<lambda>w. w_mocks w name) (\<lambda>m w. w\<lparr>w_mocks := (w_mocks w)(name := m)\<rparr>)"

lemma stores_same_refl: "stores_same s s"
  by (simp add: stores_same_def pm_quiet_def same_but_env_def)

interpretation mock: publish_adapter "mock_adapter name"
proof (unfold_locales, goal_cases)
  case (3 s doc creds)
  let ?m = "w_mocks s name"
  obtain r e' where r: "run_state (mock_Publish ?m doc creds) s =
      ((recorded ?m doc (clock s (tick s)), r), e')" "\<exists>n. tick s < n \<and> e' = s\<lparr>tick := n\<rparr>"
    using run_mock_Publish [of ?m doc creds s] by (auto split: if_splits)
  then show ?case
    by (auto simp: mock_adapter_def as_Platform_def stores_same_def pm_quiet_def same_but_env_def)
qed (simp_all add: mock_adapter_def as_Platform_def stores_same_refl)

section \<open>The outcome of one task\<close>

text \<open>What is known of the task under way: its stored status and attempt count, and its post.\<close>

definition at_stage ::
  "string \<Rightarrow> PublishTaskStatus \<Rightarrow> int \<Rightarrow> PlatformPostRecord option \<Rightarrow> 'a PublishMemory_scheme \<Rightarrow> bool" where
  "at_stage i st n post s \<longleftrightarrow>
     (\<exists>t. pm_task_map s i = Some t \<and> pt_status t = st \<and> pt_attempt_count t = n) \<and>
     DAList.lookup (pm_records s) i = post"

lemma at_stage_quiet: "at_stage i st n post s \<Longrightarrow> pm_quiet s s' \<Longrightarrow> at_stage i st n post s'"
  by (simp add: at_stage_def pm_quiet_def pm_task_map_def)

lemma quiet_keeps_at:
  assumes "\<And>s. keeps (pm_quiet s) m"
  shows "keeps (at_stage i st n post) m"
  using at_stage_quiet pm_quiet_keeps [OF assms] by (blast intro: keepsI)

lemma at_incr: "triple (at_stage i st n post) (pts_IncrementAttemptCount i) (\<lambda>_. at_stage i st (n + 1) post)"
  by (rule tripleI) (auto simp: at_stage_def run_pts_IncrementAttemptCount)

lemma at_update:
  "triple (at_stage i st n post) (pts_UpdateTaskStatus i st' msg)
     (\<lambda>_. at_stage i (if PublishTaskStatus_CanTransitionTo st st' then st' else st) n post)"
  by (rule tripleI) (auto simp: at_stage_def run_pts_UpdateTaskStatus)

definition post_of :: "string \<Rightarrow> string \<Rightarrow> PostResult \<Rightarrow> PlatformPostRecord \<Rightarrow> bool" where
  "post_of i p r rec \<longleftrightarrow> pp_task_id rec = i \<and> pp_platform rec = p \<and>
     pp_platform_post_id rec = por_platform_post_id r \<and> pp_platform_url rec = por_platform_url r \<and>
     pp_response rec = por_response r"

lemma at_post:
  "triple (at_stage i st n None)
     (pps_CreatePlatformPost i p (por_platform_post_id r) (por_platform_url r) (por_response r))
     (\<lambda>_ s. \<exists>rec. at_stage i st n (Some rec) s \<and> post_of i p r rec)"
  by (rule tripleI) (auto simp: at_stage_def run_pps_CreatePlatformPost post_of_def pm_task_map_def)

lemma at_complete:
  "keeps (at_stage i st n post) (complete_attempt (publish_deps reg) a st' msg)"
  unfolding complete_attempt_def
  by (intro keeps_intros; simp add: quiet_keeps_at quiet_ops)

lemma keeps_triple: "keeps I m \<Longrightarrow> triple I m (\<lambda>_. I)"
  by (simp add: keeps_def)

lemma at_backoff: "keeps (at_stage i st n post) (CalculateBackoff p k)"
  by (rule keeps_CalculateBackoff) (simp add: at_stage_def pm_task_map_def)

text \<open>
  How a task may end: posted and recorded; failed for good; or, with the retries used up, dead by
  the returned status while the store still says \<open>processing\<close> (it refuses that transition).
\<close>

definition outcome_ok ::
  "PublishTask \<Rightarrow> int \<Rightarrow> attempt_outcome \<Rightarrow> 'a PublishMemory_scheme \<Rightarrow> bool" where
  "outcome_ok task n out s \<longleftrightarrow>
     (case out of
        (Some r, st, None) \<Rightarrow>
          st = PublishTaskStatusSucceeded \<and>
          (\<exists>rec. at_stage (pt_id task) PublishTaskStatusSucceeded n (Some rec) s \<and>
                 post_of (pt_id task) (pt_platform task) r rec)
      | (None, st, Some err) \<Rightarrow>
          st = PublishTaskStatusFailed \<and> at_stage (pt_id task) PublishTaskStatusFailed n None s \<or>
          st = PublishTaskStatusDead \<and> at_stage (pt_id task) PublishTaskStatusProcessing n None s \<and>
          n = rp_max_retries (pt_retry_policy task) + 1
      | _ \<Rightarrow> False)"

definition attempt_ok ::
  "PublishTask \<Rightarrow> int \<Rightarrow> attempt_outcome option \<Rightarrow> 'a PublishMemory_scheme \<Rightarrow> bool" where
  "attempt_ok task k out s \<longleftrightarrow>
     (case out of
        Some out \<Rightarrow> outcome_ok task (k + 1) out s
      | None \<Rightarrow> k < rp_max_retries (pt_retry_policy task) \<and>
                at_stage (pt_id task) PublishTaskStatusRetrying (k + 1) None s)"

lemmas deps_simps = publish_deps_simps PubTaskStore_simps PubAttemptStore_simps PubPostStore_simps
  PubContentStore_simps PubIdempotencyStore_simps

lemma fail_attempt_ok:
  "triple (at_stage (pt_id task) PublishTaskStatusProcessing (k + 1) None)
     (fail_attempt (publish_deps reg) task a msg) (attempt_ok task k)"
  unfolding fail_attempt_def deps_simps
  by (rule triple_bind, rule at_update, rule triple_bind, rule keeps_triple, rule at_complete,
      rule triple_return) (simp add: task_can_iff attempt_ok_def outcome_ok_def)

lemma succeed_attempt_ok:
  "triple (at_stage (pt_id task) PublishTaskStatusProcessing (k + 1) None)
     (succeed_attempt (publish_deps reg) task a r) (attempt_ok task k)"
  unfolding succeed_attempt_def deps_simps
  by (rule triple_bind, rule at_update, rule triple_bind, rule keeps_triple, rule at_complete,
      rule triple_bind, rule at_post, rule triple_return)
    (simp add: task_can_iff attempt_ok_def outcome_ok_def)

lemma retry_or_give_up_ok:
  assumes "k \<le> rp_max_retries (pt_retry_policy task)"
  shows "triple (at_stage (pt_id task) PublishTaskStatusProcessing (k + 1) None)
           (retry_or_give_up (publish_deps reg) task a k err) (attempt_ok task k)"
proof -
  let ?at = "\<lambda>st. at_stage (pt_id task) st (k + 1) None"
  let ?upd = "\<lambda>st msg. pts_UpdateTaskStatus (pt_id task) st msg"
  have failed: "triple (?at PublishTaskStatusProcessing)
      (?upd PublishTaskStatusFailed msg \<bind> (\<lambda>_. ret (Some (None, PublishTaskStatusFailed, Some e))))
      (attempt_ok task k)" for msg e
    by (rule triple_bind, rule at_update, rule triple_return)
      (simp add: task_can_iff attempt_ok_def outcome_ok_def)
  have dead: "triple (?at PublishTaskStatusProcessing)
      (?upd PublishTaskStatusDead msg \<bind> (\<lambda>_. ret (Some (None, PublishTaskStatusDead, Some e))))
      (attempt_ok task k)" if "\<not> k < rp_max_retries (pt_retry_policy task)" for msg e
    by (rule triple_bind, rule at_update, rule triple_return)
      (use assms that in \<open>simp add: task_can_iff attempt_ok_def outcome_ok_def\<close>)
  have again: "triple (?at PublishTaskStatusProcessing)
      (?upd PublishTaskStatusRetrying msg \<bind>
         (\<lambda>_. CalculateBackoff (pt_retry_policy task) k \<bind> (\<lambda>_. ret None)))
      (attempt_ok task k)" if "k < rp_max_retries (pt_retry_policy task)" for msg
    by (rule triple_bind, rule at_update, rule triple_bind, rule keeps_triple, rule at_backoff,
        rule triple_return) (use that in \<open>simp add: task_can_iff attempt_ok_def\<close>)
  show ?thesis
    unfolding retry_or_give_up_def Let_def deps_simps
    by (rule triple_bind, rule keeps_triple, rule at_complete)
      (simp add: failed dead again not_le split: if_split)
qed

context publish_adapter
begin

lemma adapter_at:
  "keeps (at_stage i st n post) (pf_Validate P doc)"
  "keeps (at_stage i st n post) (pf_UploadAssets P assets)"
  "keeps (at_stage i st n post) (pf_Publish P doc creds)"
  by (rule adapter_keeps, erule at_stage_quiet, assumption)+

lemma attempt_body_ok:
  assumes "k \<le> rp_max_retries (pt_retry_policy task)" "0 \<le> k"
  shows "triple (at_stage (pt_id task)
             (if k = 0 then PublishTaskStatusPending else PublishTaskStatusRetrying) k None)
           (attempt_body (publish_deps reg) task content P k) (attempt_ok task k)"
proof -
  let ?at = "at_stage (pt_id task) PublishTaskStatusProcessing (k + 1) None"
  let ?D = "publish_deps reg"
  have publish: "triple ?at
      (pf_Publish P doc no_credentials \<bind>
        case_sum (retry_or_give_up ?D task a k) (succeed_attempt ?D task a))
      (attempt_ok task k)" for doc a
    by (rule triple_bind, rule keeps_triple, rule adapter_at, rule triple_sum,
        rule retry_or_give_up_ok [OF assms(1)], rule succeed_attempt_ok)
  have upload: "triple ?at
      (pf_UploadAssets P [] \<bind>
        case_sum (\<lambda>err. fail_attempt ?D task a (f err)) (\<lambda>_.
          pf_Publish P doc no_credentials \<bind>
          case_sum (retry_or_give_up ?D task a k) (succeed_attempt ?D task a)))
      (attempt_ok task k)" for doc a f
    by (rule triple_bind, rule keeps_triple, rule adapter_at, rule triple_sum,
        rule fail_attempt_ok, rule publish)
  have processing: "triple
      (at_stage i (if k = 0 then PublishTaskStatusPending else PublishTaskStatusRetrying) n post)
      (pts_UpdateTaskStatus i PublishTaskStatusProcessing msg)
      (\<lambda>_. at_stage i PublishTaskStatusProcessing n post)" for i n post msg
    by (rule triple_weaken [OF at_update [where
          st = "if k = 0 then PublishTaskStatusPending else PublishTaskStatusRetrying"]])
      (simp_all add: task_can_iff split: if_splits)
  show ?thesis
    unfolding attempt_body_def Let_def deps_simps
    by (rule triple_bind, rule at_incr, rule triple_bind, rule keeps_triple,
        rule quiet_keeps_at, rule quiet_ops, rule triple_bind, rule processing,
        rule triple_bind, rule keeps_triple, rule adapter_at, rule triple_option,
        rule upload, rule fail_attempt_ok)
qed

lemma retry_loop_ok:
  assumes "0 \<le> k" "k \<le> rp_max_retries (pt_retry_policy task)"
  shows "triple (at_stage (pt_id task)
             (if k = 0 then PublishTaskStatusPending else PublishTaskStatusRetrying) k None)
           (retry_loop (publish_deps reg) task content P k)
           (\<lambda>out s. \<exists>n. k < n \<and> n \<le> rp_max_retries (pt_retry_policy task) + 1 \<and>
                     outcome_ok task n out s)"
  using assms
proof (induction "nat (rp_max_retries (pt_retry_policy task) - k)" arbitrary: k rule: less_induct)
  case less
  let ?max = "rp_max_retries (pt_retry_policy task)"
  have next': "triple (attempt_ok task k None)
      (retry_loop (publish_deps reg) task content P (k + 1))
      (\<lambda>out s. \<exists>n. k < n \<and> n \<le> ?max + 1 \<and> outcome_ok task n out s)"
  proof (cases "k < ?max")
    case True
    have "triple (at_stage (pt_id task) PublishTaskStatusRetrying (k + 1) None)
        (retry_loop (publish_deps reg) task content P (k + 1))
        (\<lambda>out s. \<exists>n. k + 1 < n \<and> n \<le> ?max + 1 \<and> outcome_ok task n out s)"
      using less.hyps [of "k + 1"] True less.prems by simp
    then show ?thesis
    proof (rule triple_weaken)
      show "\<exists>n. k < n \<and> n \<le> ?max + 1 \<and> outcome_ok task n out s"
        if "\<exists>n. k + 1 < n \<and> n \<le> ?max + 1 \<and> outcome_ok task n out s"
        for out :: attempt_outcome and s :: "'a PublishMemory_scheme"
        using that by (meson less_add_one order.strict_trans)
    qed (simp add: attempt_ok_def)
  next
    case False
    then show ?thesis by (simp add: triple_def attempt_ok_def)
  qed
  have done': "triple (attempt_ok task k (Some out)) (ret out)
      (\<lambda>out s. \<exists>n. k < n \<and> n \<le> ?max + 1 \<and> outcome_ok task n out s)" for out
    by (rule triple_return, rule exI [of _ "k + 1"]) (use less.prems in \<open>simp add: attempt_ok_def\<close>)
  have case': "triple (attempt_ok task k r)
      (case r of None \<Rightarrow> retry_loop (publish_deps reg) task content P (k + 1) | Some out \<Rightarrow> ret out)
      (\<lambda>out s. \<exists>n. k < n \<and> n \<le> ?max + 1 \<and> outcome_ok task n out s)" for r
    using next' done' by (cases r) simp_all
  show ?case
    unfolding retry_loop.simps [of "publish_deps reg" task content P k]
    using less.prems triple_bind [OF attempt_body_ok [OF less.prems(2,1)] case'] by simp
qed

lemma executeWithRetry_ok:
  assumes "0 \<le> rp_max_retries (pt_retry_policy task)"
  shows "triple (at_stage (pt_id task) PublishTaskStatusPending 0 None)
           (executeWithRetry (publish_deps reg) task content P)
           (\<lambda>out s. \<exists>n \<ge> 1. n \<le> rp_max_retries (pt_retry_policy task) + 1 \<and> outcome_ok task n out s)"
  unfolding executeWithRetry_def
  by (rule triple_weaken [OF retry_loop_ok [of 0]])
    (use assms in \<open>simp_all add: int_one_le_iff_zero_less\<close>)

end

text \<open>
  C1. Outcome of a platform task (\<open>Service.executeWithRetry\<close>): for every adapter and every policy
  with at least zero retries the loop ends after between 1 and \<open>MaxRetries + 1\<close> attempts, the count
  the store shows, in one of three ways: success, with the status and the post recorded; failure,
  with the status recorded and no post; or, after exactly \<open>MaxRetries + 1\<close> attempts, a reply
  \<open>dead\<close> whose task the store still shows as \<open>processing\<close>, because the machine admits no step from
  there to \<open>dead\<close> and the error of the update is ignored.
\<close>

theorem task_outcome:
  fixes s :: "'a PublishMemory_scheme"
  assumes "publish_adapter P"
    and "pm_task_map s (pt_id task) = Some task"
    and "pt_status task = PublishTaskStatusPending" "pt_attempt_count task = 0"
    and "DAList.lookup (pm_records s) (pt_id task) = None"
    and "0 \<le> rp_max_retries (pt_retry_policy task)"
  shows "\<exists>n. 1 \<le> n \<and> n \<le> rp_max_retries (pt_retry_policy task) + 1 \<and>
           outcome_ok task n (res (executeWithRetry (publish_deps reg) task content P) s)
             (fin (executeWithRetry (publish_deps reg) task content P) s)"
proof -
  have "at_stage (pt_id task) PublishTaskStatusPending 0 None s"
    using assms(2-5) by (simp add: at_stage_def)
  from tripleD [OF publish_adapter.executeWithRetry_ok [OF assms(1,6)] this] show ?thesis by blast
qed

definition new_world :: "env \<Rightarrow> (string \<Rightarrow> MockPlatform) \<Rightarrow> World" where
  "new_world e mocks = PublishMemory.extend (NewPublishMemory e) (World.fields mocks)"

lemma new_world_simps [simp]:
  "pm_contents (new_world e m) i = None" "pm_task_map (new_world e m) i = None"
  "pm_combos (new_world e m) k = None" "pm_idem_map (new_world e m) k = None"
  "DAList.lookup (pm_records (new_world e m)) i = None" "tick (new_world e m) = tick e"
  "clock (new_world e m) = clock e" "entropy (new_world e m) = entropy e"
  "w_mocks (new_world e m) = m"
  by (simp_all add: new_world_def NewPublishMemory_def pm_contents_def pm_task_map_def pm_combos_def
      pm_idem_map_def World.defs PublishMemory.defs env.defs)

theorem task_outcome_witness:
  "let s = fin (pts_CreateTask ''c'' ''x'') (new_world env0 NewSuccessPlatform);
       task = new_task pm_example_id 0 ''c'' ''x'';
       content = new_content ''c'' 0 ''T'' ''B'' []
   in \<exists>n. 1 \<le> n \<and> n \<le> 4 \<and>
        outcome_ok task n (res (executeWithRetry (publish_deps NewRegistry) task content (mock_adapter ''x'')) s)
          (fin (executeWithRetry (publish_deps NewRegistry) task content (mock_adapter ''x'')) s)"
proof -
  let ?s = "fin (pts_CreateTask ''c'' ''x'') (new_world env0 NewSuccessPlatform)"
  let ?c = "new_content ''c'' 0 ''T'' ''B'' []"
  let ?t = "new_task pm_example_id 0 ''c'' ''x''"
  have "pm_task_map ?s (pt_id ?t) = Some ?t" "DAList.lookup (pm_records ?s) (pt_id ?t) = None"
    by (simp_all add: run_pts_CreateTask Let_def pm_example_id_def uuid_at_def env0_def)
  then show ?thesis
    using task_outcome [of "mock_adapter ''x''" ?s ?t NewRegistry ?c] mock.publish_adapter_axioms
    by (simp add: Let_def new_task_def DefaultRetryPolicy_def)
qed

section \<open>The aggregate status\<close>

definition succeeded :: "TaskStatus list \<Rightarrow> TaskStatus list" where
  "succeeded ts = filter (\<lambda>t. ts_status t = PublishTaskStatusSucceeded) ts"

lemma count_status_fst:
  "fst (foldl (\<lambda>(succeeded, failed) t.
        if ts_status t = PublishTaskStatusSucceeded then (succeeded + 1, failed)
        else if ts_status t = PublishTaskStatusFailed \<or> ts_status t = PublishTaskStatusDead
             then (succeeded, failed + 1)
        else (succeeded, failed)) (a, b) ts) = a + int (length (succeeded ts))"
  by (induction ts arbitrary: a b) (simp_all add: succeeded_def)

lemma aggregate_eq:
  "aggregateStatus ts =
     (if ts = [] then ContentStatusFailed
      else if length (succeeded ts) = length ts then ContentStatusPublished
      else if 0 < length (succeeded ts) then ContentStatusPartiallyPublished
      else ContentStatusFailed)"
proof -
  obtain a b where "count_status ts = (a, b)" by fastforce
  moreover have "fst (count_status ts) = int (length (succeeded ts))"
    unfolding count_status_def count_status_fst by simp
  ultimately show ?thesis by (simp add: aggregateStatus_def)
qed

lemma from_publishing_aggregate [simp]:
  "ContentStatus_CanTransitionTo ContentStatusPublishing (aggregateStatus ts)"
  by (simp add: aggregate_eq)

text \<open>
  C2. Aggregation (\<open>aggregateStatus\<close>): the result is \<open>published\<close> precisely when there is a task and
  all succeeded, \<open>partially_published\<close> precisely when some but not all did, \<open>failed\<close> otherwise (for
  no tasks at all too); it does not depend on the order of the tasks, and it is always a status that
  content can move to from \<open>publishing\<close>. A task that is still pending, processing or retrying, as an
  existing task of an earlier publish can be, so counts as one that did not succeed, where
  \<open>docs/architecture/publish-state-machine.md\<close> asks for a failed or dead task before \<open>partially_published\<close>,
  and for all tasks to be failed or dead before \<open>failed\<close>.
\<close>

theorem aggregate_status:
  "(aggregateStatus ts = ContentStatusPublished \<longleftrightarrow> ts \<noteq> [] \<and> succeeded ts = ts) \<and>
   (aggregateStatus ts = ContentStatusPartiallyPublished \<longleftrightarrow> succeeded ts \<noteq> [] \<and> succeeded ts \<noteq> ts) \<and>
   (aggregateStatus ts = ContentStatusFailed \<longleftrightarrow> succeeded ts = []) \<and>
   aggregateStatus (rev ts) = aggregateStatus ts \<and>
   content_step ContentStatusPublishing (aggregateStatus ts)"
proof -
  have all: "length (succeeded ts) = length ts \<longleftrightarrow> succeeded ts = ts"
    unfolding succeeded_def by (metis filter_id_conv length_filter_less less_irrefl)
  have rev: "aggregateStatus (rev ts) = aggregateStatus ts"
    by (simp add: aggregate_eq succeeded_def rev_filter [symmetric])
  have nil: "succeeded [] = []" by (simp add: succeeded_def)
  show ?thesis
  proof (cases "ts = []")
    case True
    then show ?thesis by (simp add: aggregate_eq nil)
  next
    case False
    then show ?thesis
      unfolding rev by (cases "succeeded ts = []"; cases "succeeded ts = ts") (simp_all add: aggregate_eq all)
  qed
qed

section \<open>Invariants of the service\<close>

text \<open>
  A predicate on the stores that survives the calls by which the service changes a task survives a
  whole platform task; with \<open>CreateTask\<close>, all of them.
\<close>

locale task_invariant =
  fixes I :: "'a PublishMemory_scheme \<Rightarrow> bool"
  assumes quiet_I: "I s \<Longrightarrow> pm_quiet s s' \<Longrightarrow> I s'"
    and incr_I: "keeps I (pts_IncrementAttemptCount i)"
    and status_I: "keeps I (pts_UpdateTaskStatus i st msg)"
    and post_I: "keeps I (pps_CreatePlatformPost i p pid url r)"
begin

lemma quiet_keeps_I: "(\<And>s. keeps (pm_quiet s) m) \<Longrightarrow> keeps I m"
  by (rule keepsI, erule quiet_I) (rule pm_quiet_keeps)

lemmas quiet_I_ops = quiet_ops [THEN quiet_keeps_I]

lemma tick_I: "I s \<Longrightarrow> I (s\<lparr>tick := Suc (tick s)\<rparr>)"
  by (erule quiet_I) (simp add: pm_quiet_def same_but_env_def)

lemma complete_attempt_I: "keeps I (complete_attempt (publish_deps reg) a st msg)"
  unfolding complete_attempt_def deps_simps
  by (intro keeps_intros quiet_I_ops)

lemma attempt_body_I:
  assumes "publish_adapter P"
  shows "keeps I (attempt_body (publish_deps reg) task content P k)"
proof -
  note adapter = publish_adapter.adapter_keeps [OF assms, of I, OF quiet_I]
  show ?thesis
    unfolding attempt_body_def fail_attempt_def succeed_attempt_def retry_or_give_up_def deps_simps
    by (intro keeps_intros incr_I status_I post_I complete_attempt_I adapter quiet_I_ops tick_I)
qed

lemma retry_loop_I:
  assumes "publish_adapter P"
  shows "keeps I (retry_loop (publish_deps reg) task content P k)"
proof (induction "nat (rp_max_retries (pt_retry_policy task) + 1 - k)" arbitrary: k rule: less_induct)
  case less
  then show ?case
    unfolding retry_loop.simps [of _ _ _ _ k]
    by (intro keeps_intros attempt_body_I [OF assms] less) simp
qed

lemma run_created_task_I:
  assumes "publish_adapter P"
  shows "keeps I (run_created_task (publish_deps reg) p task content P)"
  unfolding run_created_task_def executeWithRetry_def
  by (intro keeps_intros retry_loop_I [OF assms] tick_I)

end

definition registry_ok :: "('a PublishMemory_scheme) Registry \<Rightarrow> bool" where
  "registry_ok reg \<longleftrightarrow> (\<forall>n P. Registry_Get reg n = Inr P \<longrightarrow> publish_adapter P)"

locale service_invariant = task_invariant +
  fixes c :: string
  assumes create_I: "keeps I (pts_CreateTask c p)"
begin

lemma executePlatformTask_I:
  assumes "registry_ok reg"
  shows "keeps I (executePlatformTask (publish_deps reg) c p content)"
proof (cases "Registry_Get reg p")
  case (Inl e)
  then show ?thesis
    unfolding executePlatformTask_def failed_status_def by (simp add: keeps_intros tick_I)
next
  case (Inr P)
  then have P: "publish_adapter P" using assms by (simp add: registry_ok_def)
  show ?thesis
    unfolding executePlatformTask_def failed_status_def deps_simps Inr sum.case
    by (intro keeps_intros create_I run_created_task_I [OF P] quiet_I_ops tick_I)
qed

lemma execute_platforms_I:
  assumes "registry_ok reg"
  shows "keeps I (execute_platforms (publish_deps reg) c content ps)"
  by (induction ps) (auto intro!: keeps_intros executePlatformTask_I [OF assms])

end

definition entries_are :: "contentEntry gomap \<Rightarrow> 'a PublishMemory_scheme \<Rightarrow> bool" where
  "entries_are m s \<longleftrightarrow> pm_entries s = m"

interpretation entries: service_invariant "entries_are m" c
  by (unfold_locales; (simp add: entries_are_def pm_quiet_def; fail)?;
      rule keepsI; simp add: entries_are_def run_pts_IncrementAttemptCount run_pts_UpdateTaskStatus
        run_pps_CreatePlatformPost run_pts_CreateTask Let_def split: option.split)

section \<open>The publish workflow\<close>

lemma platform_of_task:
  "triple (\<lambda>_. True) (executePlatformTask D c p content) (\<lambda>ts _. ts_platform ts = p)"
proof -
  have any: "triple (\<lambda>_. True) m (\<lambda>_ _. True)" for m :: "('s env_scheme, 'b) state"
    by (simp add: triple_def)
  have failed: "triple (\<lambda>_. True) (failed_status p msg) (\<lambda>ts _. ts_platform ts = p)" for msg
    unfolding failed_status_def
    by (rule triple_bind, rule any, rule triple_bind, rule any, rule triple_return) simp
  have existing: "triple (\<lambda>_. True) (ret (existing_status p t)) (\<lambda>ts _. ts_platform ts = p)" for t
    by (rule triple_return) (simp add: existing_status_def)
  have created: "triple (\<lambda>_. True) (run_created_task D p t content P) (\<lambda>ts _. ts_platform ts = p)" for t P
    unfolding run_created_task_def
    by (rule triple_bind, rule any)
      (auto simp: split_def Let_def intro!: triple_bind [OF any] triple_option triple_return)
  show ?thesis
    unfolding executePlatformTask_def
    by (intro triple_sum failed existing created triple_if any triple_bind [OF any] | simp add: Let_def)+
qed

lemma platforms_of_tasks:
  "triple (\<lambda>_. True) (execute_platforms D c content ps) (\<lambda>ts _. map ts_platform ts = ps)"
proof (induction ps)
  case (Cons p ps)
  have "res (executePlatformTask D c p content) s = x \<Longrightarrow> ts_platform x = p" for s x
    using tripleD [OF platform_of_task [of D c p content]] by blast
  then show ?case
    using Cons by (auto simp: triple_def case_prod_unfold)
qed (simp add: triple_def)

lemma run_transitionContent:
  "pm_contents s i = Some (c, v) \<Longrightarrow> ct_status c = from \<Longrightarrow>
     ContentStatus_CanTransitionTo from to \<Longrightarrow>
     run_state (transitionContent (publish_deps reg) i from to) s =
       (None, s\<lparr>tick := Suc (tick s), pm_entries := DAList.update i
          \<lparr>ce_content = c\<lparr>ct_status := to, ct_updated_at := clock s (tick s)\<rparr>, ce_version = v + 1\<rparr>
          (pm_entries s)\<rparr>)"
  by (simp add: transitionContent_def updateContentStatus_def run_pcs_GetContent run_pcs_UpdateContent)

lemma contents_of_entries: "pm_entries s = pm_entries s' \<Longrightarrow> pm_contents s = pm_contents s'"
  by (rule ext) (simp add: pm_contents_def)

text \<open>
  C5. \<open>Service.Publish\<close>, the accepted case: for content that is \<open>ready\<close> or \<open>partially_published\<close> and
  any adapters, \<open>Publish\<close> returns no error; it answers one task status per platform, in the order
  asked, and their aggregate; and the stored content ends in exactly that status, two versions
  later, its texts and every other content untouched.
\<close>

theorem publish_accepted:
  fixes s :: "'a PublishMemory_scheme"
  assumes "registry_ok reg" and "pm_contents s i = Some (c, v)"
    and "ct_status c = ContentStatusReady \<or> ct_status c = ContentStatusPartiallyPublished"
  shows "\<exists>ts now.
     res (Publish (publish_deps reg) \<lparr>pi_content_id = i, pi_platforms = ps\<rparr>) s =
       Inr \<lparr>ps_content_id = i, ps_status = aggregateStatus ts, ps_tasks = ts\<rparr> \<and>
     map ts_platform ts = ps \<and>
     pm_contents (fin (Publish (publish_deps reg) \<lparr>pi_content_id = i, pi_platforms = ps\<rparr>) s) =
       (pm_contents s)(i \<mapsto>
         (c\<lparr>ct_status := aggregateStatus ts, ct_updated_at := now\<rparr>, v + 2))"
proof -
  let ?D = "publish_deps reg"
  let ?c1 = "c\<lparr>ct_status := ContentStatusPublishing, ct_updated_at := clock s (tick s)\<rparr>"
  obtain s1 where s1: "run_state (transitionContent ?D i (ct_status c) ContentStatusPublishing) s = (None, s1)"
    and c1: "pm_contents s1 = (pm_contents s)(i \<mapsto> (?c1, v + 1))"
    using run_transitionContent [OF assms(2) refl, of ContentStatusPublishing reg] assms(3) by auto
  obtain ts s2 where s2: "run_state (execute_platforms ?D i c ps) s1 = (ts, s2)" by fastforce
  have ts: "map ts_platform ts = ps"
    using triple_run [OF platforms_of_tasks [of ?D i c ps] _ s2] by simp
  have "keeps (entries_are (pm_entries s1)) (execute_platforms ?D i c ps)"
    by (rule entries.execute_platforms_I [OF assms(1)])
  from keepsD [OF this, of s1] s2 have "pm_entries s2 = pm_entries s1"
    by (simp add: entries_are_def)
  then have c2: "pm_contents s2 = (pm_contents s)(i \<mapsto> (?c1, v + 1))"
    using c1 contents_of_entries by metis
  then have "pm_contents s2 i = Some (?c1, v + 1)" by simp
  note s3 = run_transitionContent [OF this _ from_publishing_aggregate, of reg ts]
  have can: "ContentStatus_CanTransitionTo (ct_status c) ContentStatusPublishing"
    using assms(3) by simp
  show ?thesis
    by (rule exI [of _ ts], rule exI [of _ "clock s2 (tick s2)"])
      (use assms(2) can s1 s2 s3 ts c2 in
        \<open>simp add: Publish_def run_pcs_GetContent Let_def add.commute [of 2 v] del: to_publishing_iff\<close>)
qed

text \<open>
  C22. \<open>Service.Publish\<close>, the refused case: for missing content, or content in any other status, it
  returns an error (not found for the first) and changes nothing at all; no adapter is called.
\<close>

theorem publish_refused:
  assumes "\<not> (\<exists>c v. pm_contents s i = Some (c, v) \<and>
             ContentStatus_CanTransitionTo (ct_status c) ContentStatusPublishing)"
  shows "\<exists>err. run_state (Publish (publish_deps reg) \<lparr>pi_content_id = i, pi_platforms = ps\<rparr>) s =
           (Inl err, s) \<and> (pm_contents s i = None \<longleftrightarrow> errors_Is err ErrNotFound)"
proof (cases "pm_contents s i")
  case None
  then show ?thesis by (simp add: Publish_def run_pcs_GetContent)
next
  case (Some cv)
  then obtain c v where "pm_contents s i = Some (c, v)" by (cases cv) auto
  with assms show ?thesis by (simp add: Publish_def run_pcs_GetContent)
qed

definition example_world :: World where
  "example_world =
     fin (pcs_UpdateContent pm_example_id ContentStatusReady 0)
       (fin (pcs_CreateContent ''T'' ''B'' []) (new_world env0 NewSuccessPlatform))"

definition example_registry :: "World Registry" where
  "example_registry =
     (case Register NewRegistry (mock_adapter ''x'') of Inl _ \<Rightarrow> NewRegistry | Inr r \<Rightarrow> r)"

lemma mock_adapter_name [simp]: "pf_Name (mock_adapter n) = n"
  by (simp add: mock_adapter_def as_Platform_def)

lemma example_registry_get:
  "Registry_Get example_registry n =
     (if n = ''x'' then Inr (mock_adapter ''x'') else Inl (Errorf (''platform not found: '' @ n)))"
  by (simp add: example_registry_def Register_def NewRegistry_def Registry_Get_def
      DAList.lookup_update)

lemma example_registry_ok: "registry_ok example_registry"
  unfolding registry_ok_def example_registry_get using mock.publish_adapter_axioms by auto

lemma example_world_contents:
  "pm_contents example_world pm_example_id =
     Some ((new_content pm_example_id 0 ''T'' ''B'' [])
       \<lparr>ct_status := ContentStatusReady, ct_updated_at := 2\<rparr>, 2)"
  by (simp add: example_world_def run_pcs_CreateContent run_pcs_UpdateContent Let_def content_can_iff
      pm_example_id_def uuid_at_def env0_def)

theorem publish_accepted_witness:
  "\<exists>ts now.
     res (Publish (publish_deps example_registry)
            \<lparr>pi_content_id = pm_example_id, pi_platforms = [''x'']\<rparr>) example_world =
       Inr \<lparr>ps_content_id = pm_example_id, ps_status = aggregateStatus ts, ps_tasks = ts\<rparr> \<and>
     map ts_platform ts = [''x'']"
  using publish_accepted [OF example_registry_ok example_world_contents, of "[''x'']"] by auto

theorem publish_refused_witness:
  "\<exists>err. run_state (Publish (publish_deps example_registry)
            \<lparr>pi_content_id = ''none'', pi_platforms = [''x'']\<rparr>) (new_world env0 NewSuccessPlatform) =
         (Inl err, new_world env0 NewSuccessPlatform)"
  using publish_refused [of "new_world env0 NewSuccessPlatform" "''none''" example_registry "[''x'']"]
  by auto

section \<open>One post per content and platform\<close>

lemma pm_views_idem [simp]:
  "pm_combos (s\<lparr>tick := n, pm_idempotency := m\<rparr>) = pm_combos s"
  "pm_task_map (s\<lparr>tick := n, pm_idempotency := m\<rparr>) = pm_task_map s"
  "pm_contents (s\<lparr>tick := n, pm_idempotency := m\<rparr>) = pm_contents s"
  "pm_inv (s\<lparr>tick := n, pm_idempotency := m\<rparr>) = pm_inv s"
  by (simp_all add: pm_combos_def pm_task_map_def pm_contents_def pm_inv_def fun_eq_iff)

lemma claim_changes:
  "\<exists>b n m. run_state (pis_Claim K) s = (Inr b, s\<lparr>tick := n, pm_idempotency := m\<rparr>) \<and>
     tick s < n \<and> n \<le> tick s + 2"
proof (cases "pm_idem_map s (pis_fullKey (ik_key K) (ik_scope K))")
  case None
  then show ?thesis unfolding run_pis_Claim
    by (intro exI [of _ True] exI [of _ "Suc (tick s)"]) auto
next
  case (Some q)
  obtain ent x where q: "q = (ent, x)" by fastforce
  show ?thesis
  proof (cases "clock s (tick s) < x")
    case True
    have "s\<lparr>tick := Suc (tick s)\<rparr> = s\<lparr>tick := Suc (tick s), pm_idempotency := pm_idempotency s\<rparr>" by simp
    with True Some show ?thesis unfolding run_pis_Claim q
      by (intro exI [of _ False] exI [of _ "Suc (tick s)"] exI [of _ "pm_idempotency s"]) simp
  next
    case False
    with Some show ?thesis unfolding run_pis_Claim q
      by (intro exI [of _ True] exI [of _ "Suc (Suc (tick s))"]) auto
  qed
qed

text \<open>With a task for the pair in the store, a platform task only reads it.\<close>

lemma execute_existing:
  assumes "pm_inv s" "colon_free c" "pm_task_map s j = Some t" "pt_content_id t = c"
    and "pt_platform t = p" "Registry_Get reg p = Inr P"
  shows "\<exists>n m. run_state (executePlatformTask (publish_deps reg) c p content) s =
           (existing_status p t, s\<lparr>tick := n, pm_idempotency := m\<rparr>)"
proof -
  have ix: "pm_combos s (combo c p) = Some j"
    using index_ok_lookup [of "pm_task_map s" "pm_combos s" c p j] assms(1-5) by (auto simp: pm_inv_def)
  let ?K = "\<lparr>ik_key = c @ '':'' @ p, ik_scope = IdempotencyScopeTask, ik_entity_id = c @ '':'' @ p,
    ik_created_at = clock s (tick s), ik_ttl = 24 * Hour\<rparr>"
  obtain b n m where claim: "run_state (pis_Claim ?K) (s\<lparr>tick := Suc (tick s)\<rparr>) =
      (Inr b, s\<lparr>tick := n, pm_idempotency := m\<rparr>)"
    using claim_changes [of ?K "s\<lparr>tick := Suc (tick s)\<rparr>"] by auto
  show ?thesis
    by (rule exI [of _ n], rule exI [of _ m], cases b)
      (use assms(3) ix claim in \<open>simp_all add: executePlatformTask_def assms(6) Let_def
        run_pts_GetTaskByContentPlatform run_pts_CreateTask\<close>)
qed

text \<open>The pair keeps its task through the work on any task.\<close>

definition pair_inv :: "string \<Rightarrow> string \<Rightarrow> string \<Rightarrow> 'a PublishMemory_scheme \<Rightarrow> bool" where
  "pair_inv j c p s \<longleftrightarrow> pm_inv s \<and>
     (\<exists>t. pm_task_map s j = Some t \<and> pt_content_id t = c \<and> pt_platform t = p)"

lemma pair_inv_update:
  assumes "pair_inv j c p s" "pm_inv s'" "pm_task_map s i = Some t"
    and "pm_task_map s' = (pm_task_map s)(i \<mapsto> u)" "pt_content_id u = pt_content_id t"
    and "pt_platform u = pt_platform t"
  shows "pair_inv j c p s'"
  using assms by (auto simp: pair_inv_def)

interpretation pair: task_invariant "pair_inv j c p"
proof (unfold_locales, goal_cases)
  case (1 s s')
  then show ?case
    by (auto simp: pair_inv_def pm_quiet_def pm_inv_def pm_task_map_def pm_combos_def)
next
  case (2 i)
  show ?case
  proof (rule keepsI)
    fix s :: "'b PublishMemory_scheme"
    assume I: "pair_inv j c p s"
    then have inv: "pm_inv s" by (simp add: pair_inv_def)
    show "pair_inv j c p (fin (pts_IncrementAttemptCount i) s)"
    proof (cases "pm_task_map s i")
      case None
      with I show ?thesis by (simp add: run_pts_IncrementAttemptCount)
    next
      case (Some t)
      obtain now where "pm_inv (fin (pts_IncrementAttemptCount i) s)"
        "pm_task_map (fin (pts_IncrementAttemptCount i) s) =
           (pm_task_map s)(i \<mapsto> t\<lparr>pt_attempt_count := pt_attempt_count t + 1, pt_updated_at := now\<rparr>)"
        using pts.incr_ok [OF inv Some] by auto
      from pair_inv_update [OF I this(1) Some this(2)] show ?thesis by simp
    qed
  qed
next
  case (3 i st msg)
  show ?case
  proof (rule keepsI)
    fix s :: "'b PublishMemory_scheme"
    assume I: "pair_inv j c p s"
    then have inv: "pm_inv s" by (simp add: pair_inv_def)
    show "pair_inv j c p (fin (pts_UpdateTaskStatus i st msg) s)"
    proof (cases "res (pts_UpdateTaskStatus i st msg) s")
      case (Some err)
      then have "fin (pts_UpdateTaskStatus i st msg) s = s"
        by (auto simp: run_pts_UpdateTaskStatus split: option.splits if_splits)
      with I show ?thesis by simp
    next
      case None
      then obtain t where t: "pm_task_map s i = Some t" "PublishTaskStatus_CanTransitionTo (pt_status t) st"
        by (auto simp: run_pts_UpdateTaskStatus split: option.splits if_splits)
      obtain now where "pm_inv (fin (pts_UpdateTaskStatus i st msg) s)"
        "pm_task_map (fin (pts_UpdateTaskStatus i st msg) s) =
           (pm_task_map s)(i \<mapsto> t\<lparr>pt_status := st, pt_error := msg, pt_updated_at := now\<rparr>)"
        using pts.update_ok [OF inv t] by auto
      from pair_inv_update [OF I this(1) t(1) this(2)] show ?thesis by simp
    qed
  qed
next
  case (4 i p' pid url r)
  show ?case
    by (rule keepsI) (auto simp: run_pps_CreatePlatformPost pair_inv_def pm_inv_def pm_task_map_def
        pm_combos_def split: option.split)
qed

lemma created_ts_id:
  "triple (\<lambda>_. True) (run_created_task D p task content P) (\<lambda>ts _. ts_task_id ts = pt_id task)"
  by (auto simp: triple_def run_created_task_def split_def Let_def split: option.split)

text \<open>
  C6. A platform is posted to at most once (\<open>Service.executePlatformTask\<close>): when a platform task has
  returned with a task identifier, whether it ran the task or found it, running it again for the
  same content and platform calls no adapter: it answers the stored task and changes nothing but the
  idempotency entry. This holds whatever the first run's outcome, so a platform whose task failed
  or died is never tried again either.
\<close>

theorem posted_at_most_once:
  fixes s :: "'a PublishMemory_scheme"
  assumes "registry_ok reg" and "pm_inv s" and "pm_wf s" and "fresh_until s (tick s + 6)"
    and "colon_free c"
    and "run_state (executePlatformTask (publish_deps reg) c p content) s = (ts, s1)"
    and "ts_task_id ts \<noteq> ''''"
  shows "\<exists>t n m. pm_task_map s1 (ts_task_id ts) = Some t \<and> pt_content_id t = c \<and> pt_platform t = p \<and>
     run_state (executePlatformTask (publish_deps reg) c p content') s1 =
       (existing_status p t, s1\<lparr>tick := n, pm_idempotency := m\<rparr>)"
proof -
  obtain P where P: "Registry_Get reg p = Inr P" "publish_adapter P"
  proof (cases "Registry_Get reg p")
    case (Inl err)
    with assms(6,7) show ?thesis by (auto simp: executePlatformTask_def failed_status_def)
  qed (use assms(1) that in \<open>auto simp: registry_ok_def\<close>)
  have again: ?thesis if "pair_inv (ts_task_id ts) c p s1"
  proof -
    obtain t where t: "pm_inv s1" "pm_task_map s1 (ts_task_id ts) = Some t" "pt_content_id t = c"
      "pt_platform t = p"
      using \<open>pair_inv (ts_task_id ts) c p s1\<close> by (auto simp: pair_inv_def)
    from execute_existing [OF t(1) assms(5) t(2-4) P(1)] t show ?thesis by blast
  qed
  show ?thesis
  proof (cases "pm_combos s (combo c p)")
    case (Some j)
    then obtain t where t: "pm_task_map s j = Some t" "pt_content_id t = c" "pt_platform t = p"
      using index_ok_lookup [of "pm_task_map s" "pm_combos s" c p j] assms(2,5) by (auto simp: pm_inv_def)
    obtain n m where "run_state (executePlatformTask (publish_deps reg) c p content) s =
        (existing_status p t, s\<lparr>tick := n, pm_idempotency := m\<rparr>)"
      using execute_existing [OF assms(2,5) t P(1)] by blast
    with assms(6) have "ts = existing_status p t" "s1 = s\<lparr>tick := n, pm_idempotency := m\<rparr>" by simp_all
    moreover have "pt_id t = j" using index_ok_id assms(2) t(1) by (simp add: pm_inv_def)
    ultimately show ?thesis
      by (intro again) (use t assms(2) in \<open>simp add: pair_inv_def existing_status_def\<close>)
  next
    case None
    let ?K = "\<lparr>ik_key = c @ '':'' @ p, ik_scope = IdempotencyScopeTask, ik_entity_id = c @ '':'' @ p,
      ik_created_at = clock s (tick s), ik_ttl = 24 * Hour\<rparr>"
    obtain b n m where claim: "run_state (pis_Claim ?K) (s\<lparr>tick := Suc (tick s)\<rparr>) =
        (Inr b, s\<lparr>tick := n, pm_idempotency := m\<rparr>)" "tick s < n" "n \<le> tick s + 3"
      using claim_changes [of ?K "s\<lparr>tick := Suc (tick s)\<rparr>"] by auto
    let ?s' = "s\<lparr>tick := n, pm_idempotency := m\<rparr>"
    have b
    proof (rule ccontr)
      assume "\<not> b"
      then have "ts_task_id ts = ''''"
        using assms(6) None claim(1)
        by (auto simp: executePlatformTask_def P(1) Let_def run_pts_GetTaskByContentPlatform failed_status_def)
      with assms(7) show False by simp
    qed
    define task where "task = new_task (uuid_at s (n + 1)) (clock s n) c p"
    define s2 where "s2 = fin (pts_CreateTask c p) ?s'"
    have s2: "run_state (pts_CreateTask c p) ?s' = (Inr task, s2)"
      using None by (simp add: s2_def run_pts_CreateTask Let_def task_def uuid_at_def)
    have s2_maps: "pm_task_map s2 = (pm_task_map s)(pt_id task \<mapsto> task)"
      "pm_combos s2 = (pm_combos s)(combo c p \<mapsto> pt_id task)"
      using None
      by (simp_all add: s2_def run_pts_CreateTask Let_def task_def uuid_at_def)
        (simp_all add: pm_task_map_def pm_combos_def fun_eq_iff)
    have run: "run_state (run_created_task (publish_deps reg) p task content P) s2 = (ts, s1)"
      using assms(6) claim(1) \<open>b\<close> s2 by (simp add: executePlatformTask_def P(1) Let_def)
    have "\<not> drawn s (pt_id task)"
      using drawn_next [OF assms(4), of "n + 1"] claim(2,3) by (simp add: task_def)
    then have "pm_task_map s (pt_id task) = None"
      using assms(3) by (cases "pm_task_map s (pt_id task)") (auto simp: pm_wf_def)
    then have "index_ok ((pm_task_map s)(pt_id task \<mapsto> task)) ((pm_combos s)(combo c p \<mapsto> pt_id task))"
      using index_ok_insert [of "pm_task_map s" "pm_combos s" task] assms(2,5) None
      by (simp add: pm_inv_def task_def)
    then have "pair_inv (pt_id task) c p s2"
      using s2_maps by (simp add: pair_inv_def pm_inv_def task_def)
    from keepsD [OF pair.run_created_task_I [OF P(2)] this, of reg p task content] run
    have "pair_inv (pt_id task) c p s1" by simp
    moreover have "ts_task_id ts = pt_id task"
      using triple_run [OF created_ts_id _ run] by simp
    ultimately show ?thesis by (intro again) simp
  qed
qed

lemma new_world_wf: "pm_wf (new_world e m)" "pm_inv (new_world e m)"
  by (simp_all add: pm_wf_def pm_inv_def index_ok_def)

theorem posted_at_most_once_witness:
  "\<exists>s ts s1 t n m.
     run_state (executePlatformTask (publish_deps example_registry) ''c'' ''x''
       (new_content ''c'' 0 ''T'' ''B'' [])) s = (ts, s1) \<and> ts_task_id ts = pm_example_id \<and>
     run_state (executePlatformTask (publish_deps example_registry) ''c'' ''x''
       (new_content ''c'' 0 ''T'' ''B'' [])) s1 =
       (existing_status ''x'' t, s1\<lparr>tick := n, pm_idempotency := m\<rparr>)"
proof -
  let ?w = "new_world env0 NewSuccessPlatform" and ?c = "new_content ''c'' 0 ''T'' ''B'' []"
  let ?s = "fin (pts_CreateTask ''c'' ''x'') ?w" and ?t = "new_task pm_example_id 0 ''c'' ''x''"
  have run: "run_state (pts_CreateTask ''c'' ''x'') ?w = (Inr ?t, ?s)" and tick: "tick ?s = 2"
    and env: "entropy ?s = entropy env0"
    by (simp_all add: run_pts_CreateTask Let_def pm_example_id_def uuid_at_def env0_def)
  have free: "colon_free ''c''" by (simp add: colon_free_def)
  have wf: "pm_wf ?s"
    using pm_create_task_wf [OF new_world_wf(1), of env0 NewSuccessPlatform "''c''" "''x''"]
      fresh_env0 [of ?w 2] tick by simp
  have t: "pm_task_map ?s pm_example_id = Some ?t"
    by (simp add: run_pts_CreateTask Let_def pm_example_id_def uuid_at_def env0_def)
  have "\<exists>t. res (CreateTask PubTaskStore ''c'' ''x'') ?w = Inr t \<and> pending_task ''c'' ''x'' t \<and>
      (pm_task_map ?w (pt_id t) = None \<longrightarrow>
        pm_inv (fin (CreateTask PubTaskStore ''c'' ''x'') ?w) \<and>
        pm_task_map (fin (CreateTask PubTaskStore ''c'' ''x'') ?w) = (pm_task_map ?w)(pt_id t \<mapsto> t))"
    by (rule pts.create_new [OF new_world_wf(2) free]) simp
  then have inv: "pm_inv ?s" unfolding PubTaskStore_simps new_world_simps by blast
  obtain n m where first: "run_state (executePlatformTask (publish_deps example_registry) ''c'' ''x'' ?c) ?s =
      (existing_status ''x'' ?t, ?s\<lparr>tick := n, pm_idempotency := m\<rparr>)"
    using execute_existing [OF inv free t _ _ example_registry_get [of "''x''", unfolded if_P [OF refl]], of ?c]
    by auto
  have "ts_task_id (existing_status ''x'' ?t) = pm_example_id" by (simp add: existing_status_def)
  moreover have "pm_example_id \<noteq> ''''"
    using uuid_format_length [of "uuid_bytes (map (entropy env0 1) [0..<16])"]
    by (auto simp: pm_example_id_def uuid_at_def)
  ultimately show ?thesis
    using posted_at_most_once [OF example_registry_ok inv wf _ free first, of ?c] fresh_env0 [OF env] tick first
    by fastforce
qed

section \<open>The service on the stores of the storage package\<close>

text \<open>
  C32. The service and \<open>storage.MemoryContentStore\<close> (\<open>updateContentStatus\<close>): whatever the other
  dependencies, in every reachable state of that storage every publish of existing content that may
  be published fails with a version conflict, because the service passes version 0, and nothing is
  posted or changed.
\<close>

theorem publish_fails_on_memory_storage:
  fixes s :: MemoryStorage
  assumes "ms_step\<^sup>*\<^sup>* (NewMemoryStorage e) s" and "fresh_until (NewMemoryStorage e) (tick s)"
    and "d_ContentStore D = MemoryContentStore"
    and "ms_contents s i = Some (c, v)"
    and "ContentStatus_CanTransitionTo (ct_status c) ContentStatusPublishing"
  shows "run_state (Publish D \<lparr>pi_content_id = i, pi_platforms = ps\<rparr>) s =
           (Inl (Wrapf ''transition to publishing: '' (version_error i 0 v)), s)"
proof -
  have "content_wf s" using ms_run_wf [OF assms(1,2) empty_wf] by blast
  then have "0 \<noteq> v" using assms(4) by (force simp: content_wf_def)
  then show ?thesis
    using assms(4,5)
    by (simp add: Publish_def transitionContent_def updateContentStatus_def assms(3) run_mcs_GetContent
        run_mcs_UpdateContent(2) [OF assms(4)] del: to_publishing_iff)
qed

definition memory_deps :: "MemoryStorage Deps" where
  "memory_deps =
     \<lparr>d_ContentStore = MemoryContentStore, d_TaskStore = MemoryPublishTaskStore,
      d_AttemptStore = MemoryPublishAttemptStore, d_PostStore = MemoryPlatformPostStore,
      d_IdempotencyStore = MemoryIdempotencyStore, d_Platforms = NewRegistry\<rparr>"

definition ready_storage :: MemoryStorage where
  "ready_storage = fin (mcs_UpdateContent ms_example_id ContentStatusReady 1) ms_example"

theorem publish_fails_on_memory_storage_witness:
  "run_state (Publish memory_deps \<lparr>pi_content_id = ms_example_id, pi_platforms = [''x'']\<rparr>) ready_storage =
     (Inl (Wrapf ''transition to publishing: '' (version_error ms_example_id 0 2)), ready_storage)"
proof -
  have "ms_step ms_example ready_storage" unfolding ready_storage_def by (rule ms_step.intros)
  with ms_example_run have run: "ms_step\<^sup>*\<^sup>* (NewMemoryStorage env0) ready_storage" by simp
  let ?c = "(new_content ms_example_id 0 ''T'' ''B'' [])\<lparr>ct_status := ContentStatusReady, ct_updated_at := 2\<rparr>"
  have "ms_contents ready_storage ms_example_id = Some (?c, 2)" "tick ready_storage = 3"
    by (simp_all add: ready_storage_def run_mcs_UpdateContent(3))
  then show ?thesis
    using publish_fails_on_memory_storage [OF run, of memory_deps ms_example_id ?c 2] fresh_example [of 3]
    by (simp add: memory_deps_def)
qed

end
