(* ===== verification/ServiceCalls.thy ===== *)
theory ServiceCalls
  imports ServiceProofs
begin

text \<open>
  How often a publish calls its adapters. \<open>grows c k m\<close> says that the operation \<open>m\<close> raises the counter
  \<open>c\<close> by at most \<open>k\<close>; \<open>call_counter\<close> is the interface: a counter that only \<open>Publish\<close> of an adapter moves,
  by one. It is met by the calls the mock adapters record, over the stores of \<open>publish\<close>.
\<close>

section \<open>Counting\<close>

definition grows :: "('s \<Rightarrow> nat) \<Rightarrow> nat \<Rightarrow> ('s, 'a) state \<Rightarrow> bool" where
  "grows c k m \<longleftrightarrow> (\<forall>s. c (fin m s) \<le> c s + k)"

lemma grows_mono: "grows c j m \<Longrightarrow> j \<le> k \<Longrightarrow> grows c k m"
  by (meson add_left_mono grows_def le_trans)

lemma grows_return: "grows c k (ret a)"
  by (simp add: grows_def)

lemma grows_add: "grows c j m \<Longrightarrow> (\<And>a. grows c k (f a)) \<Longrightarrow> grows c (j + k) (m \<bind> f)"
  unfolding grows_def by (simp add: case_prod_unfold) (metis add.assoc add_le_mono1 le_trans)

lemma grows_then: "grows c 0 m \<Longrightarrow> (\<And>a. grows c k (f a)) \<Longrightarrow> grows c k (m \<bind> f)"
  using grows_add [of c 0 m k f] by simp

lemma grows_last: "grows c k m \<Longrightarrow> (\<And>a. grows c 0 (f a)) \<Longrightarrow> grows c k (m \<bind> f)"
  using grows_add [of c k m 0 f] by simp

lemma grows_if: "(b \<Longrightarrow> grows c k m) \<Longrightarrow> (\<not> b \<Longrightarrow> grows c k n) \<Longrightarrow> grows c k (if b then m else n)"
  by simp

lemma grows_option:
  "grows c k m \<Longrightarrow> (\<And>x. y = Some x \<Longrightarrow> grows c k (f x)) \<Longrightarrow>
     grows c k (case y of None \<Rightarrow> m | Some x \<Rightarrow> f x)"
  by (simp split: option.split)

lemma grows_sum:
  "(\<And>x. y = Inl x \<Longrightarrow> grows c k (f x)) \<Longrightarrow> (\<And>x. y = Inr x \<Longrightarrow> grows c k (g x)) \<Longrightarrow>
     grows c k (case y of Inl x \<Rightarrow> f x | Inr x \<Rightarrow> g x)"
  by (simp split: sum.split)

lemma grows_prod: "(\<And>a b. grows c k (f a b)) \<Longrightarrow> grows c k (case y of (a, b) \<Rightarrow> f a b)"
  by (simp split: prod.split)

lemmas grows_intros = grows_return grows_if grows_option grows_sum grows_prod

section \<open>The bound\<close>

text \<open>
  The stores of the dependencies never move the counter, a registered adapter moves it by one when it
  publishes, and a created task has at most \<open>R\<close> retries.
\<close>

locale call_counter =
  fixes calls :: "'a env_scheme \<Rightarrow> nat" and D :: "('a env_scheme) Deps" and R :: nat
  assumes tick0: "calls (s\<lparr>tick := n\<rparr>) = calls s"
    and get_content0: "grows calls 0 (GetContent (d_ContentStore D) i)"
    and update_content0: "grows calls 0 (UpdateContent (d_ContentStore D) i st v)"
    and create_task0: "grows calls 0 (CreateTask (d_TaskStore D) i p)"
    and get_pair0: "grows calls 0 (GetTaskByContentPlatform (d_TaskStore D) i p)"
    and update_task0: "grows calls 0 (UpdateTaskStatus (d_TaskStore D) i ts msg)"
    and incr0: "grows calls 0 (IncrementAttemptCount (d_TaskStore D) i)"
    and create_attempt0: "grows calls 0 (CreateAttempt (d_AttemptStore D) i k)"
    and complete_attempt0: "grows calls 0 (CompleteAttempt (d_AttemptStore D) i ts msg)"
    and create_post0: "grows calls 0 (CreatePlatformPost (d_PostStore D) i p pid url resp)"
    and claim0: "grows calls 0 (Claim (d_IdempotencyStore D) K)"
    and validate0: "Registry_Get (d_Platforms D) p = Inr P \<Longrightarrow> grows calls 0 (pf_Validate P doc)"
    and upload0: "Registry_Get (d_Platforms D) p = Inr P \<Longrightarrow> grows calls 0 (pf_UploadAssets P assets)"
    and publish1: "Registry_Get (d_Platforms D) p = Inr P \<Longrightarrow> grows calls 1 (pf_Publish P doc creds)"
    and created: "res (CreateTask (d_TaskStore D) i p) s = Inr task \<Longrightarrow>
      rp_max_retries (pt_retry_policy task) \<le> int R"
begin

lemmas stores0 = get_content0 update_content0 create_task0 get_pair0 update_task0 incr0
  create_attempt0 complete_attempt0 create_post0 claim0

lemma time0: "grows calls 0 time_Now"
  by (simp add: grows_def tick0)

lemma backoff0: "grows calls 0 (CalculateBackoff p k)"
  by (simp add: grows_def run_CalculateBackoff tick0)

lemma complete0: "grows calls 0 (complete_attempt D a st msg)"
  unfolding complete_attempt_def by (intro grows_intros grows_then stores0)

lemma ends0:
  "grows calls 0 (fail_attempt D task a msg)" "grows calls 0 (succeed_attempt D task a r)"
  "grows calls 0 (retry_or_give_up D task a k err)" "grows calls 0 (failed_status p msg)"
  unfolding fail_attempt_def succeed_attempt_def retry_or_give_up_def failed_status_def Let_def
  by (intro grows_intros grows_then stores0 complete0 backoff0 time0)+

lemma attempt_body1:
  assumes "Registry_Get (d_Platforms D) p = Inr P"
  shows "grows calls 1 (attempt_body D task content P k)"
proof -
  have publish: "grows calls 1 (pf_Publish P doc creds \<bind>
      case_sum (retry_or_give_up D task a k) (succeed_attempt D task a))" for doc creds a
    by (rule grows_last, rule publish1 [OF assms], intro grows_intros ends0)
  show ?thesis
    unfolding attempt_body_def Let_def
    by (intro grows_then grows_intros stores0 validate0 [OF assms] upload0 [OF assms] publish
        grows_mono [OF ends0(1)]) simp_all
qed

lemma retry_loop_calls:
  assumes "Registry_Get (d_Platforms D) p = Inr P"
  shows "grows calls (nat (rp_max_retries (pt_retry_policy task) + 1 - k)) (retry_loop D task content P k)"
proof (induction "nat (rp_max_retries (pt_retry_policy task) + 1 - k)" arbitrary: k rule: less_induct)
  case less
  let ?n = "\<lambda>k. nat (rp_max_retries (pt_retry_policy task) + 1 - k)"
  show ?case
  proof (cases "k \<le> rp_max_retries (pt_retry_policy task)")
    case True
    then have "?n k = 1 + ?n (k + 1)" by linarith
    moreover have "grows calls (?n (k + 1)) (case r of Some out \<Rightarrow> ret out
        | None \<Rightarrow> retry_loop D task content P (k + 1))" for r
      using less [of "k + 1"] True by (intro grows_intros) auto
    ultimately show ?thesis
      using True unfolding retry_loop.simps [of _ _ _ _ k]
      by (simp only: if_True) (rule grows_add [OF attempt_body1 [OF assms]])
  next
    case False
    then show ?thesis unfolding retry_loop.simps [of _ _ _ _ k] by (simp add: grows_return)
  qed
qed

lemma run_created_calls:
  assumes "Registry_Get (d_Platforms D) p = Inr P" "rp_max_retries (pt_retry_policy task) \<le> int R"
  shows "grows calls (R + 1) (run_created_task D n task content P)"
proof -
  have "grows calls (R + 1) (executeWithRetry D task content P)"
    unfolding executeWithRetry_def
    by (rule grows_mono [OF retry_loop_calls [OF assms(1)]]) (use assms(2) in simp)
  then show ?thesis
    unfolding run_created_task_def Let_def
    by (rule grows_last) (intro grows_intros grows_then time0)
qed

text \<open>Only a task that was created runs.\<close>

lemma grows_create:
  assumes "\<And>t. rp_max_retries (pt_retry_policy t) \<le> int R \<Longrightarrow> grows calls k (f (Inr t))"
    and "\<And>e. grows calls k (f (Inl e))"
  shows "grows calls k (CreateTask (d_TaskStore D) i p \<bind> f)"
  unfolding grows_def
proof
  fix s
  obtain r s' where run: "run_state (CreateTask (d_TaskStore D) i p) s = (r, s')" by fastforce
  then have le: "calls s' \<le> calls s" using create_task0 [of i p] by (simp add: grows_def) (metis snd_conv)
  have "grows calls k (f r)"
    using assms created [of i p s] run by (cases r) auto
  then have "calls (fin (f r) s') \<le> calls s' + k" by (simp add: grows_def)
  with le run show "calls (fin (CreateTask (d_TaskStore D) i p \<bind> f) s) \<le> calls s + k" by simp
qed

lemma platform_calls: "grows calls (R + 1) (executePlatformTask D i p content)"
proof (cases "Registry_Get (d_Platforms D) p")
  case (Inl e)
  then show ?thesis by (simp add: executePlatformTask_def grows_mono [OF ends0(4)])
next
  case (Inr P)
  then show ?thesis
    unfolding executePlatformTask_def Let_def Inr sum.case
    by (intro grows_then grows_create grows_if grows_sum time0 stores0 grows_return
        grows_mono [OF ends0(4)] run_created_calls [OF Inr]) (simp_all add: run_created_calls [OF Inr] grows_mono [OF ends0(4)])
qed

lemma platforms_calls: "grows calls (length ps * (R + 1)) (execute_platforms D i content ps)"
proof (induction ps)
  case (Cons p ps)
  have "grows calls (length ps * (R + 1)) (execute_platforms D i content ps \<bind> (\<lambda>rest. ret (ts # rest)))" for ts
    by (rule grows_last [OF Cons grows_return])
  moreover have "length (p # ps) * (R + 1) = (R + 1) + length ps * (R + 1)" by simp
  ultimately show ?case
    unfolding execute_platforms.simps by (simp only:) (rule grows_add [OF platform_calls])
qed (simp add: grows_return)

lemma publish_calls: "grows calls (length (pi_platforms intent) * (R + 1)) (Publish D intent)"
proof -
  have transition: "grows calls 0 (transitionContent D i st st')" for i st st'
    unfolding transitionContent_def updateContentStatus_def
    by (intro grows_then grows_intros stores0)
  show ?thesis
    unfolding Publish_def Let_def
    by (intro grows_then grows_if grows_sum grows_option grows_return stores0 transition
        grows_last [OF platforms_calls])
qed

end

section \<open>The calls of the mock adapters\<close>

definition total_calls :: "string set \<Rightarrow> World \<Rightarrow> nat" where
  "total_calls M w = (\<Sum>m \<in> M. length (mock_Calls (w_mocks w m)))"

text \<open>A registry of mock adapters, each under its name, registered one by one.\<close>

definition mock_registry :: "string list \<Rightarrow> World Registry" where
  "mock_registry names = projr (register_all NewRegistry (map mock_adapter (remdups names)))"

lemma register_all_mocks:
  "distinct names \<Longrightarrow> (\<And>n. n \<in> set names \<Longrightarrow> DAList.lookup (rg_platforms r) n = None) \<Longrightarrow>
     \<exists>r'. register_all r (map mock_adapter names) = Inr r' \<and>
       (\<forall>n. Registry_Get r' n = (if n \<in> set names then Inr (mock_adapter n) else Registry_Get r n))"
proof (induction names arbitrary: r)
  case (Cons m names)
  then obtain r1 where r1: "Register r (mock_adapter m) = Inr r1"
    "\<And>n. DAList.lookup (rg_platforms r1) n = (if n = m then Some (mock_adapter m) else DAList.lookup (rg_platforms r) n)"
    by (fastforce simp: Register_def Let_def DAList.lookup_update)
  with Cons.prems obtain r' where "register_all r1 (map mock_adapter names) = Inr r'"
    "\<forall>n. Registry_Get r' n = (if n \<in> set names then Inr (mock_adapter n) else Registry_Get r1 n)"
    using Cons.IH [of r1] by fastforce
  with r1 show ?case using Get_Register [OF r1(1)] by auto
qed simp

lemma mock_registry_get:
  "Registry_Get (mock_registry names) n =
     (if n \<in> set names then Inr (mock_adapter n) else Registry_Get NewRegistry n)"
proof -
  have "DAList.lookup (rg_platforms (NewRegistry :: World Registry)) n = None" for n
    by (simp add: NewRegistry_def)
  with register_all_mocks [of "remdups names" "NewRegistry :: World Registry"] obtain r' where
    "register_all NewRegistry (map mock_adapter (remdups names)) = Inr r'"
    "Registry_Get r' n = (if n \<in> set names then Inr (mock_adapter n) else Registry_Get NewRegistry n)"
    by auto
  then show ?thesis by (simp add: mock_registry_def)
qed

lemma calls_same: "w_mocks (fin m s) = w_mocks s \<Longrightarrow> total_calls M (fin m s) \<le> total_calls M s + k"
  by (simp add: total_calls_def)

lemma keeps_mocks:
  assumes "\<And>W. keeps (\<lambda>s. w_mocks s = W) m"
  shows "grows (total_calls M) k m"
  unfolding grows_def using keepsD [OF assms] calls_same by blast

lemma mocks_kept:
  "keeps (\<lambda>s. w_mocks s = W) (pcs_GetContent i)" "keeps (\<lambda>s. w_mocks s = W) (pts_GetTaskByContentPlatform c p)"
  "keeps (\<lambda>s. w_mocks s = W) (pas_CreateAttempt i n)" "keeps (\<lambda>s. w_mocks s = W) (pas_CompleteAttempt i ts msg)"
  "keeps (\<lambda>s. w_mocks s = W) (pis_Claim K)"
  by (unfold publish_defs; intro keeps_intros; simp)+

lemma mocks_kept_updates:
  "keeps (\<lambda>s. w_mocks s = W) (pcs_UpdateContent i st v)" "keeps (\<lambda>s. w_mocks s = W) (pts_CreateTask c p)"
  "keeps (\<lambda>s. w_mocks s = W) (pts_UpdateTaskStatus i ts msg)"
  "keeps (\<lambda>s. w_mocks s = W) (pts_IncrementAttemptCount i)"
  "keeps (\<lambda>s. w_mocks s = W) (pps_CreatePlatformPost i p pid url r)"
  by (rule keepsI; simp add: run_pcs_UpdateContent run_pts_CreateTask run_pts_UpdateTaskStatus
      run_pts_IncrementAttemptCount run_pps_CreatePlatformPost Let_def split: option.split)+

lemma mock_reads:
  "grows (total_calls M) k (pf_Validate (mock_adapter n) doc)"
  "grows (total_calls M) k (pf_UploadAssets (mock_adapter n) assets)"
  by (simp_all add: grows_def mock_adapter_def as_Platform_def)

lemma mock_publish_calls: "grows (total_calls M) 1 (pf_Publish (mock_adapter n) doc creds)"
  unfolding grows_def
proof
  fix s
  let ?m = "w_mocks s n" and ?s' = "fin (pf_Publish (mock_adapter n) doc creds) s"
  obtain r e' where "run_state (mock_Publish ?m doc creds) s =
      ((recorded ?m doc (clock s (tick s)), r), e')" "\<exists>n. tick s < n \<and> e' = s\<lparr>tick := n\<rparr>"
    using run_mock_Publish [of ?m doc creds s] by (auto split: if_splits)
  then have "w_mocks ?s' = (w_mocks s)(n := recorded ?m doc (clock s (tick s)))"
    by (auto simp: mock_adapter_def as_Platform_def)
  then have "total_calls M ?s' =
      (\<Sum>m \<in> M. length (mock_Calls (w_mocks s m)) + (if m = n then 1 else 0))"
    unfolding total_calls_def by (intro sum.cong) (auto simp: mock_Calls_def)
  also have "\<dots> \<le> total_calls M s + 1"
    by (cases "finite M") (simp_all add: total_calls_def sum.distrib)
  finally show "total_calls M ?s' \<le> total_calls M s + 1" .
qed

lemma created_retries:
  "res (pts_CreateTask c p) s = Inr task \<Longrightarrow> rp_max_retries (pt_retry_policy task) \<le> 3"
  by (auto simp: run_pts_CreateTask Let_def new_task_def DefaultRetryPolicy_def split: option.splits)

interpretation mocks: call_counter "total_calls M" "publish_deps (mock_registry names)" 3
  by unfold_locales
    (auto simp: total_calls_def mock_registry_get Get_NewRegistry split: if_splits
      intro: keeps_mocks mocks_kept mocks_kept_updates mock_reads created_retries mock_publish_calls [unfolded One_nat_def])

text \<open>
  C17. A publish makes boundedly many calls (\<open>Service.Publish\<close>, the retry loop, the mock adapter): whatever the
  stores hold and however the adapters are set to fail, one publish makes at most four calls of
  \<open>Publish\<close> per requested platform over all the registered adapters together, since a created task
  has the default policy of three retries, and a task that is not created makes none.
\<close>

theorem publish_call_bound:
  "total_calls M (fin (Publish (publish_deps (mock_registry names)) intent) s) \<le>
     total_calls M s + 4 * length (pi_platforms intent)"
  using mocks.publish_calls [where M = M and names = names and intent = intent] by (simp add: grows_def mult.commute)

end
