(* ===== verification/ServiceConcurrency.thy ===== *)
theory ServiceConcurrency
  imports ServiceProcesses ServiceCalls
begin

text \<open>
  What holds however concurrent publishes interleave: the task index lets one publish per content and
  platform reach the adapter (\<open>shared_adapter\<close>, for any stores and adapters that meet the interface,
  interpreted on the in-memory stores and the mock adapters).
\<close>

section \<open>What concurrent publishes may call\<close>

text \<open>
  A counter of the calls of one adapter, \<open>target\<close>, and as locks the tasks of that adapter for a set of
  contents: only \<open>Publish\<close> of the target moves the counter, by one, creating one of those tasks takes
  a lock, and a created task has at most \<open>R\<close> retries.
\<close>

locale shared_adapter = lock_budget I calls locks "Suc R"
  for I :: "'a env_scheme \<Rightarrow> bool" and calls locks :: "'a env_scheme \<Rightarrow> nat" and R :: nat +
  fixes D :: "('a env_scheme) Deps" and target :: string and C :: "string set"
  assumes time0: "costs 0 time_Now"
    and backoff0: "costs 0 (CalculateBackoff pol n)"
    and get_content0: "costs 0 (GetContent (d_ContentStore D) i)"
    and update_content0: "costs 0 (UpdateContent (d_ContentStore D) i st v)"
    and create_task0: "costs 0 (CreateTask (d_TaskStore D) i p)"
    and get_pair0: "costs 0 (GetTaskByContentPlatform (d_TaskStore D) i p)"
    and update_task0: "costs 0 (UpdateTaskStatus (d_TaskStore D) i ts msg)"
    and incr0: "costs 0 (IncrementAttemptCount (d_TaskStore D) i)"
    and create_attempt0: "costs 0 (CreateAttempt (d_AttemptStore D) i n)"
    and complete_attempt0: "costs 0 (CompleteAttempt (d_AttemptStore D) i ts msg)"
    and create_post0: "costs 0 (CreatePlatformPost (d_PostStore D) i p pid url resp)"
    and claim0: "costs 0 (Claim (d_IdempotencyStore D) K)"
    and validate0: "Registry_Get (d_Platforms D) p = Inr P \<Longrightarrow> costs 0 (pf_Validate P doc)"
    and upload0: "Registry_Get (d_Platforms D) p = Inr P \<Longrightarrow> costs 0 (pf_UploadAssets P assets)"
    and publish1: "Registry_Get (d_Platforms D) p = Inr P \<Longrightarrow>
      costs (if p = target then 1 else 0) (pf_Publish P doc creds)"
    and created: "I s \<Longrightarrow> res (CreateTask (d_TaskStore D) i p) s = Inr task \<Longrightarrow>
      rp_max_retries (pt_retry_policy task) \<le> int R"
    and takes: "I s \<Longrightarrow> c \<in> C \<Longrightarrow> res (CreateTask (d_TaskStore D) c target) s = Inr task \<Longrightarrow>
      Suc (locks s) \<le> locks (fin (CreateTask (d_TaskStore D) c target) s)"
begin

lemmas stores0 = time0 backoff0 get_content0 update_content0 create_task0 get_pair0 update_task0
  incr0 create_attempt0 complete_attempt0 create_post0 claim0

abbreviation fee :: "string \<Rightarrow> nat" where
  "fee p \<equiv> if p = target then 1 else 0"

lemma bounded_mono: "bounded q n \<Longrightarrow> n \<le> m \<Longrightarrow> bounded q m"
  by (rule budget_mono)

end

text \<open>The calls that cost nothing carry any bound.\<close>

sublocale shared_adapter < quiet: attempt_steps "\<lambda>q. budget I calls locks (Suc R) q n" D for n
  by unfold_locales (intro bounded_call stores0; assumption)+

context shared_adapter
begin

lemma bounded_transition: "(\<And>e. bounded (k e) n) \<Longrightarrow> bounded (p_transitionContent D i st st' k) n"
  unfolding p_transitionContent_def by (intro bounded_intros stores0)

lemma bounded_attempt:
  assumes P: "Registry_Get (d_Platforms D) p = Inr P" and k: "\<And>r. bounded (k r) n"
  shows "bounded (p_attempt_body D task content P j k) (fee p + n)"
proof -
  have early: "bounded (p_fail_attempt D task a msg k) (fee p + n)" for a msg
    by (rule bounded_mono [OF quiet.ok_ends(1) [OF k]]) simp
  show ?thesis
    unfolding p_attempt_body_def Let_def
    by (intro bounded_call bounded_option bounded_sum stores0 validate0 [OF P] upload0 [OF P] early
        bounded_pay [OF publish1 [OF P]] quiet.ok_ends [OF k])
qed

lemma bounded_retry_loop:
  assumes P: "Registry_Get (d_Platforms D) p = Inr P" and k: "\<And>r. bounded (k r) n"
  shows "bounded (p_retry_loop D task content P j k)
    (fee p * nat (rp_max_retries (pt_retry_policy task) + 1 - j) + n)"
proof (induction "nat (rp_max_retries (pt_retry_policy task) + 1 - j)" arbitrary: j rule: less_induct)
  case less
  let ?n = "\<lambda>j. nat (rp_max_retries (pt_retry_policy task) + 1 - j)"
  show ?case
  proof (cases "j \<le> rp_max_retries (pt_retry_policy task)")
    case True
    then have n: "?n j = 1 + ?n (j + 1)" by linarith
    then have "?n (j + 1) < ?n j" and "fee p * ?n j + n = fee p + (fee p * ?n (j + 1) + n)"
      by (simp_all only: n) simp_all
    then show ?thesis
      using True less [of "j + 1"] unfolding p_retry_loop.simps [of _ _ _ _ j]
      by (simp only: if_True)
        (intro bounded_attempt [OF P] bounded_option bounded_mono [OF k]; simp)
  next
    case False
    then show ?thesis
      unfolding p_retry_loop.simps [of _ _ _ _ j] by (simp add: bounded_mono [OF k])
  qed
qed

lemma bounded_created:
  assumes P: "Registry_Get (d_Platforms D) p = Inr P" and k: "\<And>ts. bounded (k ts) n"
  shows "bounded (p_run_created_task D p task content P k)
    (fee p * nat (rp_max_retries (pt_retry_policy task) + 1) + n)"
  unfolding p_run_created_task_def Let_def
  by (rule bounded_retry_loop [OF P, where j = 0, unfolded diff_zero])
    (intro bounded_prod bounded_intros stores0 k)

text \<open>A task of the target takes a lock, which pays for its attempts.\<close>

lemma bounded_platform:
  assumes "c \<in> C" "\<And>ts. bounded (k ts) n"
  shows "bounded (p_executePlatformTask D c p content k) n"
proof (cases "Registry_Get (d_Platforms D) p")
  case (Inl e)
  then show ?thesis by (simp add: p_executePlatformTask_def quiet.ok_failed assms(2))
next
  case (Inr P)
  note rest = quiet.ok_failed [OF assms(2)] assms(2)
  have conflict: "bounded (if errors_Is err ErrConflict then
      call (GetTaskByContentPlatform (d_TaskStore D) c p) (\<lambda>r. case r of
        Inr existing \<Rightarrow> k (existing_status p existing)
      | Inl _ \<Rightarrow> p_failed_status p (''create task: '' @ Error err) k)
    else p_failed_status p (''create task: '' @ Error err) k) n" for err
    by (intro bounded_intros stores0 rest)
  have create: "bounded (call (CreateTask (d_TaskStore D) c p) (\<lambda>t. case t of
      Inr task \<Rightarrow> p_run_created_task D p task content P k
    | Inl err \<Rightarrow>
        if errors_Is err ErrConflict then
          call (GetTaskByContentPlatform (d_TaskStore D) c p) (\<lambda>r. case r of
            Inr existing \<Rightarrow> k (existing_status p existing)
          | Inl _ \<Rightarrow> p_failed_status p (''create task: '' @ Error err) k)
        else p_failed_status p (''create task: '' @ Error err) k)) n"
  proof (cases "p = target")
    case True
    show ?thesis
    proof (rule bounded_take [where got = "\<lambda>t. \<exists>task. t = Inr task"])
      fix s assume s: "I s" "\<exists>task. res (CreateTask (d_TaskStore D) c p) s = Inr task"
      then obtain task where t: "res (CreateTask (d_TaskStore D) c p) s = Inr task" by blast
      from takes [OF s(1) assms(1)] t True
      show "Suc (locks s) \<le> locks (fin (CreateTask (d_TaskStore D) c p) s)" by simp
      from created [OF s(1) t] have "nat (rp_max_retries (pt_retry_policy task) + 1) \<le> Suc R" by linarith
      then show "bounded (case res (CreateTask (d_TaskStore D) c p) s of
          Inl err \<Rightarrow> if errors_Is err ErrConflict then
            call (GetTaskByContentPlatform (d_TaskStore D) c p) (\<lambda>r. case r of
              Inl _ \<Rightarrow> p_failed_status p (''create task: '' @ Error err) k
            | Inr existing \<Rightarrow> k (existing_status p existing))
            else p_failed_status p (''create task: '' @ Error err) k
        | Inr task \<Rightarrow> p_run_created_task D p task content P k) (n + Suc R)"
        unfolding t sum.case
        by (intro bounded_mono [OF bounded_created [OF Inr assms(2)]]) simp
    next
      fix s assume "\<nexists>task. res (CreateTask (d_TaskStore D) c p) s = Inr task"
      then obtain err where "res (CreateTask (d_TaskStore D) c p) s = Inl err"
        by (cases "res (CreateTask (d_TaskStore D) c p) s") auto
      with conflict [of err] show "bounded (case res (CreateTask (d_TaskStore D) c p) s of
          Inl err \<Rightarrow> if errors_Is err ErrConflict then
            call (GetTaskByContentPlatform (d_TaskStore D) c p) (\<lambda>r. case r of
              Inl _ \<Rightarrow> p_failed_status p (''create task: '' @ Error err) k
            | Inr existing \<Rightarrow> k (existing_status p existing))
            else p_failed_status p (''create task: '' @ Error err) k
        | Inr task \<Rightarrow> p_run_created_task D p task content P k) n" by (simp only: sum.case)
    qed (rule stores0)
  next
    case False
    have "bounded (p_run_created_task D p task content P k) n" for task
      by (rule bounded_mono [OF bounded_created [OF Inr assms(2)]]) (simp add: False)
    then show ?thesis by (intro bounded_call bounded_sum stores0 conflict)
  qed
  show ?thesis
    unfolding p_executePlatformTask_def Let_def Inr sum.case
    by (intro bounded_call bounded_sum bounded_if stores0 rest create)
qed

lemma bounded_platforms:
  "c \<in> C \<Longrightarrow> (\<And>r. bounded (k r) n) \<Longrightarrow> bounded (p_execute_platforms D c content ps k) n"
proof (induction ps arbitrary: k)
  case (Cons p ps)
  show ?case
    unfolding p_execute_platforms.simps
    by (rule bounded_platform [OF Cons.prems(1)], rule Cons.IH [OF Cons.prems(1)], rule Cons.prems(2))
qed simp

lemma bounded_publish: "pi_content_id intent \<in> C \<Longrightarrow> bounded (p_Publish D intent Done) 0"
  unfolding p_Publish_def Let_def
  by (intro bounded_intros stores0 bounded_transition bounded_platforms)

lemma concurrent_calls:
  assumes "\<And>i. i \<in> set intents \<Longrightarrow> pi_content_id i \<in> C" "I s"
  shows "calls (snd (run_schedule js (map (\<lambda>i. p_Publish D i Done) intents) s)) + Suc R * locks s \<le>
    calls s + Suc R * locks (snd (run_schedule js (map (\<lambda>i. p_Publish D i Done) intents) s))"
  by (rule schedule_bound_free [where I = I]) (use assms bounded_publish in auto)

end

section \<open>Concurrent publishes over the mock adapters\<close>

text \<open>The counter: the calls of the adapter \<open>p\<close>. The locks: the contents in \<open>C\<close> that have a task for \<open>p\<close>.\<close>

definition posts_of :: "string \<Rightarrow> World \<Rightarrow> nat" where
  "posts_of p w = length (mock_Calls (w_mocks w p))"

definition tasks_of :: "string set \<Rightarrow> string \<Rightarrow> World \<Rightarrow> string set" where
  "tasks_of C p w = {c \<in> C. pm_combos w (combo c p) \<noteq> None}"

abbreviation calls_and_index :: "World \<Rightarrow> (string \<Rightarrow> MockPlatform) \<times> string gomap" where
  "calls_and_index w \<equiv> (w_mocks w, pm_byCombo w)"

lemma index_kept:
  "keeps (\<lambda>s. calls_and_index s = X) time_Now" "keeps (\<lambda>s. calls_and_index s = X) (CalculateBackoff pol n)"
  "keeps (\<lambda>s. calls_and_index s = X) (pcs_GetContent i)"
  "keeps (\<lambda>s. calls_and_index s = X) (pts_GetTaskByContentPlatform c p)"
  "keeps (\<lambda>s. calls_and_index s = X) (pas_CreateAttempt i n)"
  "keeps (\<lambda>s. calls_and_index s = X) (pas_CompleteAttempt i ts msg)"
  "keeps (\<lambda>s. calls_and_index s = X) (pis_Claim K)"
  by ((rule keepsI; simp add: run_CalculateBackoff) | (unfold publish_defs; intro keeps_intros; simp))+

lemma index_kept_updates:
  "keeps (\<lambda>s. calls_and_index s = X) (pcs_UpdateContent i st v)"
  "keeps (\<lambda>s. calls_and_index s = X) (pts_UpdateTaskStatus i ts msg)"
  "keeps (\<lambda>s. calls_and_index s = X) (pts_IncrementAttemptCount i)"
  "keeps (\<lambda>s. calls_and_index s = X) (pps_CreatePlatformPost i p pid url r)"
  by (rule keepsI; simp add: run_pcs_UpdateContent run_pts_UpdateTaskStatus
      run_pts_IncrementAttemptCount run_pps_CreatePlatformPost Let_def split: option.split)+

lemma index_kept_adapter:
  "keeps (\<lambda>s. calls_and_index s = X) (pf_Validate (mock_adapter n) doc)"
  "keeps (\<lambda>s. calls_and_index s = X) (pf_UploadAssets (mock_adapter n) assets)"
  by (rule keepsI; simp add: mock_adapter_def as_Platform_def)+

interpretation posts: lock_budget "\<lambda>_. True" "posts_of p" "\<lambda>w. card (tasks_of C p w)" N
  for p C N .

lemma kept_costs:
  assumes "\<And>X. keeps (\<lambda>s. calls_and_index s = X) m"
  shows "posts.costs p C 0 m"
proof -
  have "calls_and_index (fin m s) = calls_and_index s" for s
    by (rule keepsD [OF assms]) (rule refl)
  then show ?thesis unfolding posts.costs_def by (simp add: posts_of_def tasks_of_def pm_combos_def)
qed

text \<open>A call of an adapter is its own; a created task is new in the index.\<close>

lemma post_costs: "posts.costs p C (if n = p then 1 else 0) (pf_Publish (mock_adapter n) doc creds)"
  unfolding posts.costs_def
proof (intro allI impI)
  fix s
  let ?m = "w_mocks s n" and ?s' = "fin (pf_Publish (mock_adapter n) doc creds) s"
  obtain r e' where "run_state (mock_Publish ?m doc creds) s =
      ((recorded ?m doc (clock s (tick s)), r), e')" "\<exists>n. tick s < n \<and> e' = s\<lparr>tick := n\<rparr>"
    using run_mock_Publish [of ?m doc creds s] by (auto split: if_splits)
  then have "calls_and_index ?s' = ((w_mocks s)(n := recorded ?m doc (clock s (tick s))), pm_byCombo s)"
    by (auto simp: mock_adapter_def as_Platform_def)
  then show "True \<and> card (tasks_of C p s) \<le> card (tasks_of C p ?s') \<and>
      posts_of p ?s' \<le> posts_of p s + (if n = p then 1 else 0)"
    by (simp add: posts_of_def tasks_of_def pm_combos_def mock_Calls_def)
qed

lemma created_combo:
  assumes "res (pts_CreateTask c p) s = Inr task"
  shows "pm_combos s (combo c p) = None"
    "pm_combos (fin (pts_CreateTask c p) s) = (pm_combos s)(combo c p \<mapsto> pt_id task)"
  using assms by (auto simp: run_pts_CreateTask pm_combos_def Let_def DAList.lookup_update split: option.splits)

lemma create_costs:
  assumes "finite C"
  shows "posts.costs p C 0 (pts_CreateTask c q)"
  unfolding posts.costs_def
proof (intro allI impI conjI)
  fix s :: World
  let ?s' = "fin (pts_CreateTask c q) s"
  have "tasks_of C p s \<subseteq> tasks_of C p ?s'"
    by (auto simp: tasks_of_def run_pts_CreateTask pm_combos_def Let_def DAList.lookup_update
        split: option.split)
  with assms show "card (tasks_of C p s) \<le> card (tasks_of C p ?s')"
    by (intro card_mono) (simp_all add: tasks_of_def)
  show "posts_of p ?s' \<le> posts_of p s + 0"
    by (simp add: posts_of_def run_pts_CreateTask Let_def split: option.split)
qed simp

lemma create_takes:
  assumes "finite C" "c \<in> C" "res (pts_CreateTask c p) s = Inr task"
  shows "Suc (card (tasks_of C p s)) \<le> card (tasks_of C p (fin (pts_CreateTask c p) s))"
proof -
  have "tasks_of C p (fin (pts_CreateTask c p) s) = insert c (tasks_of C p s)"
    using assms(2) by (auto simp: tasks_of_def created_combo(2) [OF assms(3)] combo_def)
  moreover have "c \<notin> tasks_of C p s" by (simp add: tasks_of_def created_combo(1) [OF assms(3)])
  moreover have "finite (tasks_of C p s)" using assms(1) by (simp add: tasks_of_def)
  ultimately show ?thesis by simp
qed

interpretation shared: shared_adapter "\<lambda>_. True" "posts_of p" "\<lambda>w. card (tasks_of (set cs) p w)" 3
  "publish_deps (mock_registry names)" p "set cs"
  for p cs names
proof (unfold_locales, goal_cases)
  case (5 i q)
  show ?case by (simp add: create_costs)
next
  case (15 q P doc creds)
  then show ?case using post_costs [of p "set cs" q doc creds]
    by (auto simp: mock_registry_get Get_NewRegistry split: if_splits)
next
  case (16 s i q task)
  then show ?case by (auto dest!: created_retries)
next
  case (17 s c task)
  then show ?case by (auto dest!: create_takes [OF finite_set])
qed (auto simp: mock_registry_get Get_NewRegistry split: if_splits
  intro!: kept_costs index_kept index_kept_updates index_kept_adapter)

text \<open>
  C7. However concurrent publishes interleave (\<open>Service.Publish\<close>, \<open>executePlatformTask\<close>, \<open>CreateTask\<close>): for any
  number of publishes that run at once, of any contents to any platforms, and any order of their calls
  to the stores and the mock adapters, an adapter is asked to post at most four times for each of
  their contents that had no task for it, and never for a content that had one. Expired
  idempotency keys do not matter: the index of the tasks decides.
\<close>

theorem concurrent_publishes_bounded:
  "posts_of p (snd (run_schedule js
       (map (\<lambda>i. p_Publish (publish_deps (mock_registry names)) i Done) intents) w)) \<le>
     posts_of p w + 4 * card {c \<in> pi_content_id ` set intents. pm_combos w (combo c p) = None}"
proof -
  let ?w' = "snd (run_schedule js (map (\<lambda>i. p_Publish (publish_deps (mock_registry names)) i Done) intents) w)"
  let ?cs = "map pi_content_id intents"
  let ?new = "{c \<in> set ?cs. pm_combos w (combo c p) = None}"
  have "posts_of p ?w' + 4 * card (tasks_of (set ?cs) p w) \<le> posts_of p w + 4 * card (tasks_of (set ?cs) p ?w')"
    using shared.concurrent_calls [where intents = intents and cs = ?cs and p = p and names = names
        and js = js and s = w] by simp
  moreover have "card (tasks_of (set ?cs) p ?w') \<le> card (tasks_of (set ?cs) p w \<union> ?new)"
    by (rule card_mono) (auto simp: tasks_of_def)
  moreover have "\<dots> \<le> card (tasks_of (set ?cs) p w) + card ?new" by (rule card_Un_le)
  ultimately show ?thesis by (simp only: set_map)
qed

end
