(* ===== verification/ServiceExclusion.thy ===== *)
theory ServiceExclusion
  imports ServiceProcesses ServiceCalls
begin

text \<open>
  The status \<open>publishing\<close> as a lock. The service reads a content, compares its status, and asks the store
  for the new one, in three separate calls; what keeps two publishes of a content apart is that the
  store refuses \<open>publishing\<close> from \<open>publishing\<close>. The one that got it gives it back, whatever runs in
  between: \<open>publish_registry\<close> shows it for any adapters that leave the stores alone.
\<close>

section \<open>The lock\<close>

definition is_publishing :: "string \<Rightarrow> 'a PublishMemory_scheme \<Rightarrow> bool" where
  "is_publishing c s \<longleftrightarrow> (\<exists>x v. pm_contents s c = Some (x, v) \<and> ct_status x = ContentStatusPublishing)"

abbreviation lock :: "string \<Rightarrow> 'a PublishMemory_scheme \<Rightarrow> nat" where
  "lock c s \<equiv> (if is_publishing c s then 1 else 0)"

lemma lock_kept:
  assumes "\<And>e. keeps (entries_are e) m" and "\<And>a. owns (lock c) (k a) n"
  shows "owns (lock c) (call m k) n"
proof (rule owns_call)
  fix s
  have same: "pm_entries (fin m s) = pm_entries s"
    using keepsD [OF assms(1), of "pm_entries s" s] by (simp add: entries_are_def)
  have "is_publishing c (fin m s) = is_publishing c s"
    unfolding is_publishing_def contents_of_entries [OF same] ..
  with assms(2) [of "res m s"]
  show "\<exists>n'. owns (lock c) (k (res m s)) n' \<and> n' + lock c s = n + lock c (fin m s)"
    by (intro exI [of _ n]) simp
qed

lemma publishing_update:
  "res (pcs_UpdateContent i st w) s = None \<Longrightarrow>
     is_publishing c (fin (pcs_UpdateContent i st w) s) =
       (if c = i then st = ContentStatusPublishing else is_publishing c s)"
  "res (pcs_UpdateContent i st w) s = Some e \<Longrightarrow> fin (pcs_UpdateContent i st w) s = s"
  by (auto simp: run_pcs_UpdateContent is_publishing_def split: option.splits if_splits prod.splits)

lemma no_second_publishing:
  "res (pcs_UpdateContent c ContentStatusPublishing w) s = None \<Longrightarrow> \<not> is_publishing c s"
  by (auto simp: run_pcs_UpdateContent is_publishing_def content_can_iff split: option.splits if_splits prod.splits)

lemma leave_publishing:
  "is_publishing c s \<Longrightarrow> ContentStatus_CanTransitionTo ContentStatusPublishing st \<Longrightarrow>
     res (pcs_UpdateContent c st 0) s = None"
  by (auto simp: run_pcs_UpdateContent is_publishing_def)

section \<open>The transitions\<close>

lemma owns_transition_other:
  assumes "i \<noteq> c" "\<And>e. owns (lock c) (k e) n"
  shows "owns (lock c) (p_transitionContent (publish_deps reg) i st st' k) n"
proof -
  have update: "owns (lock c) (call (pcs_UpdateContent i st' 0) k) n"
  proof (rule owns_call)
    fix s
    have "is_publishing c (fin (pcs_UpdateContent i st' 0) s) = is_publishing c s"
      using assms(1) publishing_update [of i st' 0 s]
      by (cases "res (pcs_UpdateContent i st' 0) s") auto
    with assms(2) show "\<exists>n'. owns (lock c) (k (res (pcs_UpdateContent i st' 0) s)) n' \<and>
        n' + lock c s = n + lock c (fin (pcs_UpdateContent i st' 0) s)"
      by (intro exI [of _ n]) simp
  qed
  show ?thesis
    unfolding p_transitionContent_def publish_deps_simps PubContentStore_simps
    by (rule lock_kept [OF entries.quiet_I_ops(1)]) (simp add: update assms(2) split: sum.split)
qed

lemma owns_transition_in:
  assumes "\<And>e. owns (lock c) (k (Some e)) 0" "owns (lock c) (k None) 1"
  shows "owns (lock c) (p_transitionContent (publish_deps reg) c st ContentStatusPublishing k) 0"
proof -
  have update: "owns (lock c) (call (pcs_UpdateContent c ContentStatusPublishing 0) k) 0"
  proof (rule owns_call)
    fix s
    let ?m = "pcs_UpdateContent c ContentStatusPublishing 0"
    show "\<exists>n'. owns (lock c) (k (res ?m s)) n' \<and> n' + lock c s = 0 + lock c (fin ?m s)"
    proof (cases "res ?m s")
      case None
      with publishing_update(1) [OF None, of c] no_second_publishing [OF None] assms(2)
      show ?thesis by auto
    next
      case (Some e)
      with publishing_update(2) [OF Some] assms(1) show ?thesis by auto
    qed
  qed
  show ?thesis
    unfolding p_transitionContent_def publish_deps_simps PubContentStore_simps
    by (rule lock_kept [OF entries.quiet_I_ops(1)]) (simp add: update assms(1) split: sum.split)
qed

lemma owns_transition_out:
  assumes "ContentStatus_CanTransitionTo ContentStatusPublishing st" "\<And>e. owns (lock c) (k e) 0"
  shows "owns (lock c) (p_transitionContent (publish_deps reg) c ContentStatusPublishing st k) 1"
proof -
  have st: "st \<noteq> ContentStatusPublishing" using assms(1) by (auto simp: content_can_iff)
  have update: "owns (lock c) (call (pcs_UpdateContent c st 0) k) 1"
  proof (rule owns_call)
    fix s assume "1 \<le> lock c s"
    then have "is_publishing c s" by (simp split: if_splits)
    with leave_publishing [OF this assms(1)] st assms(2)
    show "\<exists>n'. owns (lock c) (k (res (pcs_UpdateContent c st 0) s)) n' \<and>
        n' + lock c s = 1 + lock c (fin (pcs_UpdateContent c st 0) s)"
      by (intro exI [of _ 0]) (simp add: publishing_update(1))
  qed
  show ?thesis
    unfolding p_transitionContent_def publish_deps_simps PubContentStore_simps
  proof (rule owns_call)
    fix s :: "'a PublishMemory_scheme" assume "1 \<le> lock c s"
    then obtain x v where "pm_contents s c = Some (x, v)" "ct_status x = ContentStatusPublishing"
      by (auto simp: is_publishing_def split: if_splits)
    with update show "\<exists>n'. owns (lock c) (case res (pcs_GetContent c) s of
          Inl err \<Rightarrow> k (Some (Wrapf ''fetch content for transition: '' err))
        | Inr content \<Rightarrow> if ct_status content \<noteq> ContentStatusPublishing then
            k (Some (Errorf (''expected status '' @ quote (ContentStatus_string ContentStatusPublishing) @
              '', got '' @ quote (ContentStatus_string (ct_status content)))))
            else call (pcs_UpdateContent c st 0) k) n' \<and>
        n' + lock c s = 1 + lock c (fin (pcs_GetContent c) s)"
      by (intro exI [of _ 1]) (simp add: run_pcs_GetContent)
  qed
qed

section \<open>A publish\<close>

lemma entries_env: "keeps (entries_are e) time_Now" "keeps (entries_are e) (CalculateBackoff pol n)"
  by (rule keepsI; simp add: entries_are_def run_CalculateBackoff)+

locale publish_registry =
  fixes reg :: "('a PublishMemory_scheme) Registry"
  assumes adapters: "registry_ok reg"
begin

lemma adapter_entries:
  assumes "Registry_Get reg p = Inr P"
  shows "keeps (entries_are e) (pf_Validate P doc)" "keeps (entries_are e) (pf_UploadAssets P assets)"
    "keeps (entries_are e) (pf_Publish P doc creds)"
proof -
  have "publish_adapter P" using adapters assms by (simp add: registry_ok_def)
  note kept = publish_adapter.adapter_keeps [OF this, of "entries_are e", OF entries.quiet_I]
  show "keeps (entries_are e) (pf_Validate P doc)" "keeps (entries_are e) (pf_UploadAssets P assets)"
    "keeps (entries_are e) (pf_Publish P doc creds)" by (rule kept; assumption)+
qed

end

sublocale publish_registry < steps: platform_steps "\<lambda>q. owns (lock c) q n" "publish_deps reg"
  for c :: string and n :: nat
  by unfold_locales
    (auto intro!: lock_kept entries_env entries.quiet_I_ops entries.status_I entries.incr_I entries.post_I
      entries.create_I adapter_entries)

context publish_registry
begin

lemma owns_publish: "owns (lock c) (p_Publish (publish_deps reg) intent Done) 0"
proof -
  have accepted: "owns (lock c) (p_transitionContent (publish_deps reg) (pi_content_id intent) st
      ContentStatusPublishing (\<lambda>e. case e of
        Some err \<Rightarrow> Done (Inl (Wrapf ''transition to publishing: '' err))
      | None \<Rightarrow> p_execute_platforms (publish_deps reg) (pi_content_id intent) content (pi_platforms intent)
          (\<lambda>ts. p_transitionContent (publish_deps reg) (pi_content_id intent) ContentStatusPublishing
            (aggregateStatus ts) (\<lambda>_. Done (Inr \<lparr>ps_content_id = pi_content_id intent,
              ps_status = aggregateStatus ts, ps_tasks = ts\<rparr>))))) 0" for st content
  proof (cases "pi_content_id intent = c")
    case True
    have "owns (lock c) (p_execute_platforms (publish_deps reg) c content (pi_platforms intent)
        (\<lambda>ts. p_transitionContent (publish_deps reg) c ContentStatusPublishing (aggregateStatus ts)
          (\<lambda>_. Done (Inr \<lparr>ps_content_id = c, ps_status = aggregateStatus ts, ps_tasks = ts\<rparr>)))) 1"
      by (intro steps.ok_platforms owns_transition_out from_publishing_aggregate) simp
    then show ?thesis unfolding True by (intro owns_transition_in) simp_all
  next
    case False
    then show ?thesis
      by (intro owns_transition_other steps.ok_option steps.ok_platforms) simp_all
  qed
  show ?thesis
    unfolding p_Publish_def Let_def publish_deps_simps PubContentStore_simps
    by (rule lock_kept [OF entries.quiet_I_ops(1)]) (simp add: accepted split: sum.split)
qed

end

interpretation mock_registry: publish_registry "mock_registry names" for names
  by unfold_locales
    (auto simp: registry_ok_def mock_registry_get Get_NewRegistry mock.publish_adapter_axioms split: if_splits)

text \<open>
  C8. Concurrent publishes leave no content behind in \<open>publishing\<close> (\<open>Service.Publish\<close>, \<open>transitionContent\<close>,
  \<open>UpdateContent\<close>): whatever publishes run at once over adapters that leave the stores alone, and
  however their calls interleave, once all have returned a content is in \<open>publishing\<close> exactly if it
  was before they started. None of them can lose its final update: who entered \<open>publishing\<close> is the
  one that leaves it.
\<close>

theorem publishes_settle:
  assumes "registry_ok reg"
    and "run_schedule js (map (\<lambda>i. p_Publish (publish_deps reg) i Done) intents) s = (ps', s')"
    and "\<And>p. p \<in> set ps' \<Longrightarrow> finished p"
  shows "is_publishing c s' = is_publishing c s"
proof -
  have "lock c s' = lock c s"
    by (rule schedule_restores [OF _ assms(2,3)])
      (use publish_registry.owns_publish [OF publish_registry.intro [OF assms(1)]] in auto)
  then show ?thesis by (simp split: if_splits)
qed

text \<open>Two publishes of a ready content and one of a missing one, from some point on to their ends.\<close>

theorem publishes_settle_witness:
  "\<exists>js ps' s'. run_schedule ([0, 1, 0, 1, 2, 1, 0] @ js)
       (map (\<lambda>i. p_Publish (publish_deps example_registry) i Done)
         [\<lparr>pi_content_id = pm_example_id, pi_platforms = [''x'', ''y'']\<rparr>,
          \<lparr>pi_content_id = pm_example_id, pi_platforms = [''x'']\<rparr>,
          \<lparr>pi_content_id = ''none'', pi_platforms = [''x'']\<rparr>]) example_world = (ps', s') \<and>
     (\<forall>p \<in> set ps'. finished p) \<and> \<not> is_publishing pm_example_id s'"
proof -
  let ?ps = "map (\<lambda>i. p_Publish (publish_deps example_registry) i Done)
      [\<lparr>pi_content_id = pm_example_id, pi_platforms = [''x'', ''y'']\<rparr>,
       \<lparr>pi_content_id = pm_example_id, pi_platforms = [''x'']\<rparr>,
       \<lparr>pi_content_id = ''none'', pi_platforms = [''x'']\<rparr>]"
  obtain ps1 s1 where "run_schedule [0, 1, 0, 1, 2, 1, 0] ?ps example_world = (ps1, s1)" by fastforce
  moreover obtain js ps' s' where "run_schedule js ps1 s1 = (ps', s')" "\<forall>p \<in> set ps'. finished p"
    using schedule_completes [of ps1 s1] by (elim exE conjE) (rule that)
  ultimately have run: "run_schedule ([0, 1, 0, 1, 2, 1, 0] @ js) ?ps example_world = (ps', s')"
    "\<forall>p \<in> set ps'. finished p"
    by (simp_all only: run_schedule_append split_conv)
  moreover have "\<not> is_publishing pm_example_id example_world"
    by (simp add: is_publishing_def example_world_contents)
  ultimately show ?thesis
    using publishes_settle [OF example_registry_ok run(1)] by blast
qed

end
