(* ===== verification/ServiceRuns.thy ===== *)
theory ServiceRuns
  imports ServiceExclusion
begin

text \<open>
  Concurrent publishes as runs of the stores. Whatever the schedule, what the publishes do is a
  sequence of calls of the stores' methods and of steps that leave contents and tasks alone
  (\<open>pm_move\<close>), so the histories of \<open>PublishContracts\<close> describe concurrent publishes too.
\<close>

lemma quiet_move: "keeps (pm_quiet s) m \<Longrightarrow> pm_move s (fin m s)"
  by (simp add: pm_move_def pm_quiet_keeps)

lemma env_move: "pm_move s (fin time_Now s)" "pm_move s (fin (CalculateBackoff pol n) s)"
  by (simp_all add: pm_move_def pm_quiet_def same_but_env_def run_CalculateBackoff)

lemma call_move:
  "pm_move s (fin (pcs_UpdateContent i st v) s)" "pm_move s (fin (pts_CreateTask c p) s)"
  "pm_move s (fin (pts_UpdateTaskStatus i ts msg) s)" "pm_move s (fin (pts_IncrementAttemptCount i) s)"
  "pm_move s (fin (pps_CreatePlatformPost i p pid url r) s)"
  by (auto simp: pm_move_def intro: pm_step.intros)

lemma adapter_move:
  assumes "publish_adapter P"
  shows "pm_move s (fin (pf_Validate P doc) s)" "pm_move s (fin (pf_UploadAssets P assets) s)"
    "pm_move s (fin (pf_Publish P doc creds) s)"
  using publish_adapter.validate_same [OF assms, of s doc] publish_adapter.upload_same [OF assms, of s assets]
    publish_adapter.publish_same [OF assms, of s doc creds]
  by (simp_all add: pm_move_def stores_same_def)

sublocale publish_registry < moves: platform_steps "steps_in pm_move" "publish_deps reg"
  using adapters
  by unfold_locales
    (auto intro!: steps_in_call env_move call_move quiet_move quiet_ops adapter_move simp: registry_ok_def)

context publish_registry
begin

lemma publish_moves: "steps_in pm_move (p_Publish (publish_deps reg) intent Done)"
proof -
  have transition: "steps_in pm_move (p_transitionContent (publish_deps reg) i st st' k)"
    if "\<And>e. steps_in pm_move (k e)" for i st st' k
    unfolding p_transitionContent_def publish_deps_simps PubContentStore_simps
    by (intro steps_in_call quiet_move quiet_ops moves.ok_sum moves.ok_if call_move that)
  show ?thesis
    unfolding p_Publish_def Let_def publish_deps_simps PubContentStore_simps
    by (intro steps_in_call quiet_move quiet_ops moves.ok_sum moves.ok_if moves.ok_option
        moves.ok_platforms transition) simp_all
qed

end

text \<open>
  C9. Concurrent publishes follow the status machines (\<open>Service.Publish\<close> over the publish stores): from any
  well-formed stores, along any interleaving of any publishes over adapters that leave the stores
  alone, finished or not, the status of each content and task only moves along the transition tables,
  texts, identifiers, policies and the index of tasks never change, versions and attempt counts never
  go down, no content, task or recorded post is lost, and the stores stay well formed.
\<close>

theorem concurrent_publishes_refine:
  assumes "registry_ok reg" and "pm_wf s" and "fresh_until s (tick s')"
    and "run_schedule js (map (\<lambda>i. p_Publish (publish_deps reg) i Done) intents) s = (ps', s')"
  shows "pm_wf s' \<and> pm_history s s'"
proof -
  have "pm_move\<^sup>*\<^sup>* s s'"
    by (rule schedule_steps [OF _ assms(4)])
      (use publish_registry.publish_moves [OF publish_registry.intro [OF assms(1)]] in auto)
  then show ?thesis using assms(2,3) by (intro pm_moves_wf)
qed

lemma example_world_wf: "pm_wf example_world"
proof -
  let ?s = "new_world env0 NewSuccessPlatform"
  let ?s1 = "fin (pcs_CreateContent ''T'' ''B'' []) ?s"
  have "pm_wf ?s1"
    by (rule conjunct1 [OF pm_create_content_wf [OF new_world_wf(1) fresh_env0]])
      (simp_all add: run_pcs_CreateContent Let_def env0_def)
  then show ?thesis unfolding example_world_def by (rule conjunct1 [OF pm_update_content_wf])
qed

text \<open>Two publishes of a ready content, up to the point where the first has moved it.\<close>

theorem concurrent_publishes_refine_witness:
  "let s' = snd (run_schedule [0, 1, 0, 0] (map (\<lambda>i. p_Publish (publish_deps example_registry) i Done)
         [\<lparr>pi_content_id = pm_example_id, pi_platforms = [''x'']\<rparr>,
          \<lparr>pi_content_id = pm_example_id, pi_platforms = [''x'']\<rparr>]) example_world)
   in pm_history example_world s' \<and> is_publishing pm_example_id s'"
proof -
  let ?i = "\<lparr>pi_content_id = pm_example_id, pi_platforms = [''x'']\<rparr>"
  let ?run = "run_schedule [0, 1, 0, 0] (map (\<lambda>i. p_Publish (publish_deps example_registry) i Done) [?i, ?i]) example_world"
  have s': "snd ?run = fin (pcs_UpdateContent pm_example_id ContentStatusPublishing 0) example_world"
    by (simp add: p_Publish_def p_transitionContent_def call_def run_pcs_GetContent example_world_contents
        content_can_iff new_content_def)
  have "entropy example_world = entropy env0"
    by (simp add: example_world_def run_pcs_CreateContent run_pcs_UpdateContent Let_def split: option.split)
  moreover have "tick (snd ?run) \<le> 256"
    unfolding s' by (simp add: example_world_def run_pcs_CreateContent run_pcs_UpdateContent Let_def
        env0_def split: option.split)
  ultimately have "fresh_until example_world (tick (snd ?run))" by (rule fresh_env0)
  then have "pm_history example_world (snd ?run)"
    using concurrent_publishes_refine [OF example_registry_ok example_world_wf _ prod.collapse [symmetric]] by blast
  moreover have "is_publishing pm_example_id (snd ?run)"
    unfolding s' by (simp add: publishing_update(1) run_pcs_UpdateContent example_world_contents content_can_iff is_publishing_def)
  ultimately show ?thesis by (simp only: Let_def)
qed

end
