(* ===== verification/Queue.thy ===== *)
theory Queue
  imports ContractsPolicy
begin

text \<open>
  \<open>internal/queue\<close>: the payload and options of a queued publish, the metrics hooks, the publisher
  interface and its mock, the idempotency guards, the task handler, and the enqueuer. Asynq and the
  Redis client are third-party code: their calls are parameters (\<open>RedisClient\<close>, \<open>AsynqClient\<close>).
  An object with a pointer receiver that has state is passed by value and returned, and \<open>as_Guard\<close>
  makes the interface value of a guard that lives in the program's state.
\<close>

section \<open>Payload, options, interfaces\<close>

definition TypePublishContent :: string where
  "TypePublishContent = ''publish:content''"

record PublishPayload =
  pl_task_id :: string
  pl_content_id :: string
  pl_platform :: string

record EnqueueOptions =
  eo_max_retry :: int
  eo_queue :: string
  eo_timeout :: int
  eo_retry_policy :: "RetryPolicy option"

record 's Enqueuer =
  EnqueuePublish :: "PublishPayload \<Rightarrow> EnqueueOptions \<Rightarrow> ('s, go_error option) state"

record 's Metrics =
  TaskEnqueued :: "string \<Rightarrow> ('s, unit) state"
  TaskStarted :: "string \<Rightarrow> string \<Rightarrow> ('s, unit) state"
  TaskCompleted :: "string \<Rightarrow> string \<Rightarrow> Duration \<Rightarrow> ('s, unit) state"
  TaskFailed :: "string \<Rightarrow> string \<Rightarrow> go_error \<Rightarrow> ('s, unit) state"
  TaskRetried :: "string \<Rightarrow> string \<Rightarrow> int \<Rightarrow> ('s, unit) state"
  TaskDead :: "string \<Rightarrow> string \<Rightarrow> ('s, unit) state"
  IdempotencyHit :: "string \<Rightarrow> ('s, unit) state"

definition NopMetrics :: "'s Metrics" where
  "NopMetrics =
     \<lparr>TaskEnqueued = (\<lambda>_. ret ()), TaskStarted = (\<lambda>_ _. ret ()), TaskCompleted = (\<lambda>_ _ _. ret ()),
      TaskFailed = (\<lambda>_ _ _. ret ()), TaskRetried = (\<lambda>_ _ _. ret ()), TaskDead = (\<lambda>_ _. ret ()),
      IdempotencyHit = (\<lambda>_. ret ())\<rparr>"

text \<open>The two Go results of \<open>Publish\<close>: a pointer and an error, either of which may be nil.\<close>

type_synonym publish_outcome = "PublishResult option \<times> go_error option"

record 's Publisher =
  pub_Publish :: "string \<Rightarrow> string \<Rightarrow> ('s, publish_outcome) state"

record 's TaskStateStore =
  ss_UpdateTaskStatus :: "string \<Rightarrow> PublishTaskStatus \<Rightarrow> string \<Rightarrow> ('s, go_error option) state"
  ss_RecordPublishResult :: "string \<Rightarrow> PublishResult option \<Rightarrow> ('s, go_error option) state"

record 's IdempotencyGuard =
  Acquire :: "string \<Rightarrow> Duration \<Rightarrow> ('s, bool result) state"
  Release :: "string \<Rightarrow> ('s, go_error option) state"

section \<open>The mock publisher\<close>

record queue_PublishCall =
  qc_content_id :: string
  qc_platform :: string

record 's MockPublisher =
  mp_publish_fn :: "(string \<Rightarrow> string \<Rightarrow> ('s, publish_outcome) state) option"
  mp_result :: "PublishResult option"
  mp_err :: "go_error option"
  mp_calls :: "queue_PublishCall list"

definition MockPublisher_Publish ::
  "'s MockPublisher \<Rightarrow> string \<Rightarrow> string \<Rightarrow> ('s, 's MockPublisher \<times> publish_outcome) state" where
  "MockPublisher_Publish m contentID platform =
     (let m = m\<lparr>mp_calls := mp_calls m @ [\<lparr>qc_content_id = contentID, qc_platform = platform\<rparr>]\<rparr>
      in case mp_publish_fn m of
           Some f \<Rightarrow> do { r \<leftarrow> f contentID platform; ret (m, r) }
         | None \<Rightarrow> ret (m, mp_result m, mp_err m))"

section \<open>Idempotency guards\<close>

text \<open>
  The Redis client, as the guard uses it: \<open>SetNX\<close> of a key, a value and an expiry, \<open>Del\<close> of a key.
\<close>

record 's RedisClient =
  SetNX :: "string \<Rightarrow> string \<Rightarrow> Duration \<Rightarrow> ('s, bool result) state"
  Del :: "string \<Rightarrow> ('s, go_error option) state"

record 's RedisIdempotencyGuard =
  rg_client :: "'s RedisClient"
  rg_prefix :: string

definition NewRedisIdempotencyGuard :: "'s RedisClient \<Rightarrow> 's RedisIdempotencyGuard" where
  "NewRedisIdempotencyGuard client = \<lparr>rg_client = client, rg_prefix = ''idempotency:''\<rparr>"

definition redis_Acquire ::
  "'s RedisIdempotencyGuard \<Rightarrow> string \<Rightarrow> Duration \<Rightarrow> ('s, bool result) state" where
  "redis_Acquire g key ttl = do {
     let fullKey = rg_prefix g @ key;
     r \<leftarrow> SetNX (rg_client g) fullKey ''1'' ttl;
     case r of
       Inl err \<Rightarrow> ret (Inl (Wrapf (''idempotency acquire '' @ key @ '': '') err))
     | Inr ok \<Rightarrow> ret (Inr ok)
   }"

definition redis_Release :: "'s RedisIdempotencyGuard \<Rightarrow> string \<Rightarrow> ('s, go_error option) state" where
  "redis_Release g key = do {
     let fullKey = rg_prefix g @ key;
     r \<leftarrow> Del (rg_client g) fullKey;
     case r of
       Some err \<Rightarrow> ret (Some (Wrapf (''idempotency release '' @ key @ '': '') err))
     | None \<Rightarrow> ret None
   }"

definition redis_Guard :: "'s RedisIdempotencyGuard \<Rightarrow> 's IdempotencyGuard" where
  "redis_Guard g = \<lparr>Acquire = redis_Acquire g, Release = redis_Release g\<rparr>"

record InMemoryIdempotencyGuard =
  ig_entries :: "Time gomap"

definition NewInMemoryIdempotencyGuard :: InMemoryIdempotencyGuard where
  "NewInMemoryIdempotencyGuard = \<lparr>ig_entries = DAList.empty\<rparr>"

definition mem_Acquire ::
  "InMemoryIdempotencyGuard \<Rightarrow> string \<Rightarrow> Duration \<Rightarrow>
     ('a env_scheme, InMemoryIdempotencyGuard \<times> bool result) state" where
  "mem_Acquire g key ttl = do {
     held \<leftarrow> (case DAList.lookup (ig_entries g) key of
        Some expiry \<Rightarrow> do { now \<leftarrow> time_Now; ret (now < expiry) }
      | None \<Rightarrow> ret False);
     if held then ret (g, Inr False)
     else do {
       now \<leftarrow> time_Now;
       ret (g\<lparr>ig_entries := DAList.update key (now + ttl) (ig_entries g)\<rparr>, Inr True)
     }
   }"

definition mem_Release ::
  "InMemoryIdempotencyGuard \<Rightarrow> string \<Rightarrow> InMemoryIdempotencyGuard \<times> go_error option" where
  "mem_Release g key = (g\<lparr>ig_entries := DAList.delete key (ig_entries g)\<rparr>, None)"

definition mem_Size :: "InMemoryIdempotencyGuard \<Rightarrow> int" where
  "mem_Size g = int (map_len (ig_entries g))"

definition as_Guard ::
  "('a env_scheme \<Rightarrow> InMemoryIdempotencyGuard) \<Rightarrow>
     (InMemoryIdempotencyGuard \<Rightarrow> 'a env_scheme \<Rightarrow> 'a env_scheme) \<Rightarrow> ('a env_scheme) IdempotencyGuard" where
  "as_Guard get put =
     \<lparr>Acquire = (\<lambda>key ttl. do {
         g \<leftarrow> gets get;
         (g', r) \<leftarrow> mem_Acquire g key ttl;
         modify (put g');
         ret r
       }),
      Release = (\<lambda>key. do {
         g \<leftarrow> gets get;
         let (g', r) = mem_Release g key;
         modify (put g');
         ret r
       })\<rparr>"

section \<open>The task handler\<close>

record 's TaskHandler =
  th_publisher :: "'s Publisher"
  th_stateStore :: "'s TaskStateStore"
  th_idempotency :: "'s IdempotencyGuard option"
  th_metrics :: "'s Metrics"

definition NewTaskHandler ::
  "'s Publisher \<Rightarrow> 's TaskStateStore \<Rightarrow> 's IdempotencyGuard option \<Rightarrow> 's Metrics option \<Rightarrow> 's TaskHandler" where
  "NewTaskHandler publisher store idem m =
     (let m = (case m of None \<Rightarrow> NopMetrics | Some m \<Rightarrow> m)
      in \<lparr>th_publisher = publisher, th_stateStore = store, th_idempotency = idem, th_metrics = m\<rparr>)"

definition idempotencyTTL :: Duration where
  "idempotencyTTL = 10 * Minute"

definition isPermanentError :: "go_error \<Rightarrow> bool" where
  "isPermanentError err =
     (if (case errors_As_PlatformError err of
            Some pErr \<Rightarrow> \<not> PlatformError_IsRetryable pErr | None \<Rightarrow> False) then True
      else
        (case errors_As_AppError err of
           Some appErr \<Rightarrow>
             ae_code appErr = ErrCodeValidation \<or> ae_code appErr = ErrCodeNotFound \<or>
             ae_code appErr = ErrCodeForbidden
         | None \<Rightarrow> False))"

definition handleFailure ::
  "'s TaskHandler \<Rightarrow> PublishPayload \<Rightarrow> go_error \<Rightarrow> Duration \<Rightarrow> ('s, go_error option) state" where
  "handleFailure h payload err duration = do {
     _ \<leftarrow> TaskFailed (th_metrics h) (pl_task_id payload) (pl_platform payload) err;
     if isPermanentError err then do {
       _ \<leftarrow> ss_UpdateTaskStatus (th_stateStore h) (pl_task_id payload) PublishTaskStatusDead (Error err);
       _ \<leftarrow> TaskDead (th_metrics h) (pl_task_id payload) (pl_platform payload);
       ret None
     } else ret (Some (Wrapf ''publish failed (retryable): '' err))
   }"

text \<open>The idempotency check: true when the task is a duplicate to skip.\<close>

definition is_duplicate :: "'s TaskHandler \<Rightarrow> PublishPayload \<Rightarrow> ('s, bool) state" where
  "is_duplicate h payload =
     (case th_idempotency h of
        None \<Rightarrow> ret False
      | Some guard \<Rightarrow> do {
          let key = pl_content_id payload @ '':'' @ pl_platform payload;
          r \<leftarrow> Acquire guard key idempotencyTTL;
          case r of
            Inl err \<Rightarrow> ret False
          | Inr acquired \<Rightarrow>
              if \<not> acquired then do {
                _ \<leftarrow> IdempotencyHit (th_metrics h) key;
                ret True
              } else ret False
        })"

text \<open>From the call of the publisher on.\<close>

definition publish_and_record ::
  "('a env_scheme) TaskHandler \<Rightarrow> PublishPayload \<Rightarrow> Time \<Rightarrow> ('a env_scheme, go_error option) state" where
  "publish_and_record h payload start = do {
     (result, err) \<leftarrow> pub_Publish (th_publisher h) (pl_content_id payload) (pl_platform payload);
     now \<leftarrow> time_Now;
     let duration = now - start;
     case err of
       Some e \<Rightarrow> handleFailure h payload e duration
     | None \<Rightarrow> do {
         e \<leftarrow> ss_RecordPublishResult (th_stateStore h) (pl_task_id payload) result;
         case e of
           Some e \<Rightarrow> ret (Some (Wrapf ''record result: '' e))
         | None \<Rightarrow> do {
             e \<leftarrow> ss_UpdateTaskStatus (th_stateStore h) (pl_task_id payload) PublishTaskStatusSucceeded '''';
             case e of
               Some e \<Rightarrow> ret (Some (Wrapf ''set succeeded: '' e))
             | None \<Rightarrow> do {
                 _ \<leftarrow> TaskCompleted (th_metrics h) (pl_task_id payload) (pl_platform payload) duration;
                 case result of
                   None \<Rightarrow> ret (Some (Panic ''nil pointer dereference''))
                 | Some _ \<Rightarrow> ret None
               }
           }
       }
   }"

definition queue_HandlePublish ::
  "('a env_scheme) TaskHandler \<Rightarrow> PublishPayload \<Rightarrow> ('a env_scheme, go_error option) state" where
  "queue_HandlePublish h payload = do {
     start \<leftarrow> time_Now;
     _ \<leftarrow> TaskStarted (th_metrics h) (pl_task_id payload) (pl_platform payload);
     duplicate \<leftarrow> is_duplicate h payload;
     if duplicate then ret None
     else do {
       e \<leftarrow> ss_UpdateTaskStatus (th_stateStore h) (pl_task_id payload) PublishTaskStatusProcessing '''';
       case e of
         Some e \<Rightarrow> ret (Some (Wrapf ''set processing: '' e))
       | None \<Rightarrow> publish_and_record h payload start
     }
   }"

section \<open>The enqueuer\<close>

datatype AsynqOption = OptQueue string | OptMaxRetry int | OptTimeout Duration

definition buildOptions :: "EnqueueOptions \<Rightarrow> AsynqOption list" where
  "buildOptions opts =
     (let asynqOpts = [OptQueue (eo_queue opts), OptMaxRetry (eo_max_retry opts)]
      in if eo_timeout opts > 0 then asynqOpts @ [OptTimeout (eo_timeout opts * Second)] else asynqOpts)"

section \<open>Facts\<close>

text \<open>
  C33. Classification of publish errors (\<open>isPermanentError\<close>): wrapping an error does not change it,
  however deep the chain; permanent are exactly the platform errors that are not retryable and the
  application errors with code validation, not found or forbidden; sentinel errors, rate limits
  and plain errors are retried.
\<close>

theorem permanent_errors:
  "isPermanentError err =
     (case innermost err of
        PlatformErr p \<Rightarrow> \<not> pe_retryable p
      | AppErr a \<Rightarrow> ae_code a \<in> {ErrCodeValidation, ErrCodeNotFound, ErrCodeForbidden}
      | _ \<Rightarrow> False) \<and>
   isPermanentError (Wrapf msg err) = isPermanentError err"
proof
  have "errors_As_PlatformError err = (case innermost err of PlatformErr p \<Rightarrow> Some p | _ \<Rightarrow> None)"
    and "errors_As_AppError err = (case innermost err of AppErr a \<Rightarrow> Some a | _ \<Rightarrow> None)"
    by (induction err rule: innermost.induct) auto
  then show "isPermanentError err =
     (case innermost err of
        PlatformErr p \<Rightarrow> \<not> pe_retryable p
      | AppErr a \<Rightarrow> ae_code a \<in> {ErrCodeValidation, ErrCodeNotFound, ErrCodeForbidden}
      | _ \<Rightarrow> False)"
    by (simp add: isPermanentError_def PlatformError_IsRetryable_def split: go_error.split)
qed (simp add: isPermanentError_def)

lemma NopMetrics_simps [simp]:
  "TaskEnqueued NopMetrics q = ret ()" "TaskStarted NopMetrics t p = ret ()"
  "TaskCompleted NopMetrics t p d = ret ()" "TaskFailed NopMetrics t p e = ret ()"
  "TaskRetried NopMetrics t p n = ret ()" "TaskDead NopMetrics t p = ret ()"
  "IdempotencyHit NopMetrics k = ret ()"
  by (simp_all add: NopMetrics_def)

text \<open>The store and the publisher of a handler keep a predicate of the state.\<close>

definition handler_keeps :: "('s \<Rightarrow> bool) \<Rightarrow> 's TaskHandler \<Rightarrow> bool" where
  "handler_keeps I h \<longleftrightarrow>
     (\<forall>c p. keeps I (pub_Publish (th_publisher h) c p)) \<and>
     (\<forall>i st msg. keeps I (ss_UpdateTaskStatus (th_stateStore h) i st msg)) \<and>
     (\<forall>i r. keeps I (ss_RecordPublishResult (th_stateStore h) i r))"

lemma handler_keepsD:
  assumes "handler_keeps I h"
  shows "keeps I (pub_Publish (th_publisher h) c p)"
    "keeps I (ss_UpdateTaskStatus (th_stateStore h) i st msg)"
    "keeps I (ss_RecordPublishResult (th_stateStore h) i r)"
  using assms by (simp_all add: handler_keeps_def)

lemma publish_and_record_keeps:
  assumes "handler_keeps I h" "th_metrics h = NopMetrics" "keeps I time_Now"
  shows "keeps I (publish_and_record h payload start)"
  unfolding publish_and_record_def handleFailure_def assms(2) NopMetrics_simps
  by (intro keeps_intros handler_keepsD [OF assms(1)] assms(3))

lemma queue_HandlePublish_keeps:
  assumes "handler_keeps I h" "th_metrics h = NopMetrics" "keeps I time_Now"
    and "\<And>G k ttl. th_idempotency h = Some G \<Longrightarrow> keeps I (Acquire G k ttl)"
  shows "keeps I (queue_HandlePublish h payload)"
proof -
  have "keeps I (is_duplicate h payload)"
    by (cases "th_idempotency h")
      (auto simp: is_duplicate_def assms(2) Let_def keeps_return
        intro!: keeps_bind keeps_sum keeps_if assms(4))
  then show ?thesis
    unfolding queue_HandlePublish_def assms(2) NopMetrics_simps
    by (intro keeps_bind keeps_if keeps_option keeps_return assms(3) handler_keepsD [OF assms(1)]
        publish_and_record_keeps [OF assms(1-3)])
qed

lemma NewTaskHandler_simps [simp]:
  "th_publisher (NewTaskHandler P S idem m) = P" "th_stateStore (NewTaskHandler P S idem m) = S"
  "th_idempotency (NewTaskHandler P S idem m) = idem"
  "th_metrics (NewTaskHandler P S idem None) = NopMetrics"
  by (simp_all add: NewTaskHandler_def split: option.split)

lemma publish_and_record_guard:
  "publish_and_record (NewTaskHandler P S idem m) = publish_and_record (NewTaskHandler P S None m)"
  by (intro ext) (simp add: publish_and_record_def handleFailure_def NewTaskHandler_def
      cong: if_cong option.case_cong)

end
