(* ===== verification/QueueProofs.thy ===== *)
theory QueueProofs
  imports Queue PublishContracts
begin

text \<open>
  What the queue's task handler guarantees. \<open>idempotency_guard\<close> is the interface it relies on of a
  guard (a key acquired stays acquired until it expires or is released); the in-memory guard meets
  it, and so does the Redis guard over a client that behaves like \<open>SETNX\<close> and \<open>DEL\<close>. The outcome
  theorems take the validating store of the \<open>publish\<close> package for the handler's status updates.
\<close>

section \<open>Guards\<close>

locale idempotency_guard =
  fixes G :: "('a env_scheme) IdempotencyGuard"
    and expiry :: "'a env_scheme \<Rightarrow> string \<Rightarrow> Time option"
  assumes acquire_held:
    "expiry s k = Some x \<Longrightarrow> clock s (tick s) < x \<Longrightarrow>
       res (Acquire G k ttl) s = Inr False \<and> expiry (fin (Acquire G k ttl) s) = expiry s"
    and acquire_free:
    "(\<And>x. expiry s k = Some x \<Longrightarrow> x \<le> clock s (tick s)) \<Longrightarrow>
       res (Acquire G k ttl) s = Inr True \<and>
       (\<exists>n \<ge> tick s. expiry (fin (Acquire G k ttl) s) = (expiry s)(k \<mapsto> clock s n + ttl))"
    and release_key:
    "res (Release G k) s = None \<and> expiry (fin (Release G k) s) = (expiry s)(k := None)"
    and acquire_env:
    "clock (fin (Acquire G k ttl) s) = clock s \<and> tick s \<le> tick (fin (Acquire G k ttl) s)"
    and expiry_tick: "expiry (s\<lparr>tick := n\<rparr>) = expiry s"
begin

text \<open>What is acquired cannot be acquired again in time, and can be once it is released.\<close>

lemma acquired_exclusive:
  assumes "clock_mono s" and "res (Acquire G k ttl) s = Inr True"
    and "expiry s2 k = expiry (fin (Acquire G k ttl) s) k" and "clock s2 = clock s"
    and "clock s (tick s2) < clock s (tick s) + ttl"
  shows "res (Acquire G k ttl') s2 = Inr False"
proof -
  have free: "x \<le> clock s (tick s)" if "expiry s k = Some x" for x
    using acquire_held [OF that, of ttl] assms(2) by fastforce
  obtain n where n: "tick s \<le> n" "expiry (fin (Acquire G k ttl) s) = (expiry s)(k \<mapsto> clock s n + ttl)"
    using acquire_free [of s k ttl] free by blast
  have "clock s (tick s) \<le> clock s n" using assms(1) n(1) by (simp add: clock_mono_def)
  with assms(4,5) have "clock s2 (tick s2) < clock s n + ttl" by simp
  with n(2) assms(3) show ?thesis using acquire_held [of s2 k "clock s n + ttl"] by simp
qed

lemma released_free: "res (Acquire G k ttl) (fin (Release G k) s) = Inr True"
  using acquire_free [of "fin (Release G k) s" k] release_key [of k s] by simp

text \<open>A handler with the guard skips a task whose key is held: only the guard is asked.\<close>

lemma handler_skips_held:
  assumes "th_idempotency h = Some G" and "th_metrics h = NopMetrics"
    and "k = pl_content_id payload @ '':'' @ pl_platform payload"
    and "expiry s k = Some x" and "clock s (Suc (tick s)) < x"
  shows "run_state (queue_HandlePublish h payload) s =
           (None, fin (Acquire G k idempotencyTTL) (s\<lparr>tick := Suc (tick s)\<rparr>))"
proof -
  have "res (Acquire G k idempotencyTTL) (s\<lparr>tick := Suc (tick s)\<rparr>) = Inr False"
    using acquire_held [of "s\<lparr>tick := Suc (tick s)\<rparr>" k x] assms(4,5) by (simp add: expiry_tick)
  then show ?thesis
    using assms(1-3) by (simp add: queue_HandlePublish_def is_duplicate_def Let_def split_def)
qed

end

text \<open>The in-memory guard, in a program state.\<close>

record QueueWorld = PublishMemory +
  q_guard :: InMemoryIdempotencyGuard

abbreviation mem_guard :: "('a QueueWorld_scheme) IdempotencyGuard" where
  "mem_guard \<equiv> as_Guard q_guard (\<lambda>g. q_guard_update (\<lambda>_. g))"

definition guard_expiry :: "'a QueueWorld_scheme \<Rightarrow> string \<Rightarrow> Time option" where
  "guard_expiry s = DAList.lookup (ig_entries (q_guard s))"

lemma guard_expiry_simps [simp]:
  "guard_expiry (s\<lparr>tick := n\<rparr>) = guard_expiry s"
  "guard_expiry (s\<lparr>tick := n, q_guard := \<lparr>ig_entries = DAList.update k x (ig_entries (q_guard s))\<rparr>\<rparr>) =
     (guard_expiry s)(k \<mapsto> x)"
  "guard_expiry (s\<lparr>q_guard := \<lparr>ig_entries = DAList.delete k (ig_entries (q_guard s))\<rparr>\<rparr>) =
     (guard_expiry s)(k := None)"
  by (simp_all add: guard_expiry_def fun_eq_iff DAList.lookup_update DAList.lookup_delete)

lemma run_mem_Acquire:
  "run_state (Acquire mem_guard k ttl) s =
     (case guard_expiry s k of
        Some x \<Rightarrow>
          if clock s (tick s) < x then (Inr False, s\<lparr>tick := Suc (tick s)\<rparr>)
          else (Inr True, s\<lparr>tick := Suc (Suc (tick s)),
            q_guard := \<lparr>ig_entries = DAList.update k (clock s (Suc (tick s)) + ttl) (ig_entries (q_guard s))\<rparr>\<rparr>)
      | None \<Rightarrow> (Inr True, s\<lparr>tick := Suc (tick s),
          q_guard := \<lparr>ig_entries = DAList.update k (clock s (tick s) + ttl) (ig_entries (q_guard s))\<rparr>\<rparr>))"
  by (simp add: as_Guard_def mem_Acquire_def guard_expiry_def split_def split: option.split)

lemma run_mem_Release:
  "run_state (Release mem_guard k) s =
     (None, s\<lparr>q_guard := \<lparr>ig_entries = DAList.delete k (ig_entries (q_guard s))\<rparr>\<rparr>)"
  by (simp add: as_Guard_def mem_Release_def)

interpretation mem: idempotency_guard mem_guard guard_expiry
proof (unfold_locales, goal_cases)
  case (1 s k x ttl)
  then show ?case by (simp add: run_mem_Acquire)
next
  case (2 s k ttl)
  show ?case
  proof (cases "guard_expiry s k")
    case None
    then show ?thesis
      by (auto simp: run_mem_Acquire intro: exI [of _ "tick s"])
  next
    case (Some x)
    with 2 have "\<not> clock s (tick s) < x" by force
    with Some show ?thesis
      by (auto simp: run_mem_Acquire intro: exI [of _ "Suc (tick s)"])
  qed
next
  case (3 k s)
  then show ?case by (simp add: run_mem_Release)
next
  case (4 k ttl s)
  then show ?case by (auto simp: run_mem_Acquire split: option.split)
next
  case (5 s n)
  then show ?case by simp
qed

section \<open>Redelivery\<close>

context idempotency_guard
begin

text \<open>
  A delivery that acquires the key makes every delivery of the same content and platform until the
  expiry a duplicate, even if the first one failed: the handler never releases the key.
\<close>

lemma redelivery_held:
  assumes "clock_mono s" and "th_idempotency h = Some G" and "th_metrics h = NopMetrics"
    and keeps: "\<And>e. handler_keeps (\<lambda>s. expiry s = e) h"
    and free: "\<And>x. expiry s k = Some x \<Longrightarrow> x \<le> clock s (Suc (tick s))"
    and "k = pl_content_id payload @ '':'' @ pl_platform payload"
    and "run_state (queue_HandlePublish h payload) s = (r, s1)"
  shows "\<exists>x. expiry s1 k = Some x \<and> clock s (tick s) + idempotencyTTL \<le> x"
proof -
  let ?s = "s\<lparr>tick := Suc (tick s)\<rparr>"
  have "x \<le> clock ?s (tick ?s)" if "expiry ?s k = Some x" for x
    using free [of x] that by (simp add: expiry_tick)
  then have acquired: "res (Acquire G k idempotencyTTL) ?s = Inr True \<and>
      (\<exists>n \<ge> tick ?s. expiry (fin (Acquire G k idempotencyTTL) ?s) =
         (expiry ?s)(k \<mapsto> clock ?s n + idempotencyTTL))"
    by (rule acquire_free)
  then obtain n where n: "Suc (tick s) \<le> n"
    "expiry (fin (Acquire G k idempotencyTTL) ?s) = (expiry s)(k \<mapsto> clock s n + idempotencyTTL)"
    by (auto simp: expiry_tick)
  let ?e = "(expiry s)(k \<mapsto> clock s n + idempotencyTTL)"
  let ?rest = "do {
      e \<leftarrow> ss_UpdateTaskStatus (th_stateStore h) (pl_task_id payload) PublishTaskStatusProcessing '''';
      case e of Some e \<Rightarrow> ret (Some (Wrapf ''set processing: '' e))
      | None \<Rightarrow> publish_and_record h payload (clock s (tick s)) }"
  have "keeps (\<lambda>s. expiry s = ?e) time_Now" by (rule keepsI) (simp add: expiry_tick)
  then have "keeps (\<lambda>s. expiry s = ?e) ?rest"
    by (intro keeps_intros handler_keepsD [OF keeps] publish_and_record_keeps [OF keeps assms(3)])
      (simp_all add: expiry_tick)
  from keepsD [OF this, of "fin (Acquire G k idempotencyTTL) ?s"] n(2)
  have "expiry (fin ?rest (fin (Acquire G k idempotencyTTL) ?s)) = ?e" by simp
  moreover have "s1 = fin ?rest (fin (Acquire G k idempotencyTTL) ?s)"
    using assms(2,3,6,7) acquired by (simp add: queue_HandlePublish_def is_duplicate_def Let_def split_def)
  moreover have "clock s (tick s) \<le> clock s n"
    using assms(1) n(1) by (simp add: clock_mono_def)
  ultimately show ?thesis by simp
qed

end

text \<open>
  What may happen between two deliveries: anything that leaves guard and clock alone, and calls of the
  guard's \<open>Acquire\<close> for any key, as other deliveries make them. Nobody calls \<open>Release\<close>.
\<close>

definition guard_use :: "'a QueueWorld_scheme \<Rightarrow> 'a QueueWorld_scheme \<Rightarrow> bool" where
  "guard_use s s' \<longleftrightarrow> clock s' = clock s \<and> tick s \<le> tick s' \<and>
     (q_guard s' = q_guard s \<or> (\<exists>k ttl. s' = fin (Acquire mem_guard k ttl) s))"

lemma acquire_keeps_held:
  "guard_expiry s k = Some x \<Longrightarrow> clock s (tick s) < x \<Longrightarrow>
     guard_expiry (fin (Acquire mem_guard k' ttl) s) k = Some x"
  by (cases "k' = k") (auto simp: run_mem_Acquire split: option.split)

lemma guard_use_held:
  assumes "guard_use\<^sup>*\<^sup>* s s'" "clock_mono s" "guard_expiry s k = Some x" "clock s (tick s') < x"
  shows "guard_expiry s' k = Some x \<and> clock s' = clock s"
  using assms
proof (induction rule: rtranclp_induct)
  case (step t u)
  have u: "clock u = clock t" "tick t \<le> tick u" using step.hyps(2) by (simp_all add: guard_use_def)
  then have "clock s (tick t) \<le> clock s (tick u)" using step.prems(1) by (simp add: clock_mono_def)
  with step.prems(3) have now: "clock s (tick t) < x" by simp
  with step.IH step.prems have t: "guard_expiry t k = Some x" "clock t = clock s" by blast+
  have "guard_expiry u k = Some x"
    using step.hyps(2) acquire_keeps_held [OF t(1)] now t by (auto simp: guard_use_def guard_expiry_def)
  with u t show ?case by simp
qed simp

text \<open>
  C11. Duplicate deliveries (\<open>TaskHandler.HandlePublish\<close> with \<open>InMemoryIdempotencyGuard\<close>): after a
  delivery that found the key of its content and platform free, every delivery of the same content
  and platform in the next ten minutes answers nil and does nothing but read the clock twice, whatever
  ran in between, other deliveries that acquire keys of the guard included: no publisher and no store
  is called, whichever they are. The first delivery's answer does not matter: a retry that the queue
  makes after a retryable failure is skipped as well.
\<close>

theorem duplicates_skipped:
  fixes s :: "'a QueueWorld_scheme"
  assumes "clock_mono s" and "th_idempotency h = Some mem_guard" and "th_metrics h = NopMetrics"
    and "\<And>e c. handler_keeps (\<lambda>s. guard_expiry s = e) h \<and> handler_keeps (\<lambda>s. clock s = c) h"
    and "\<And>x. guard_expiry s (pl_content_id payload @ '':'' @ pl_platform payload) = Some x \<Longrightarrow>
           x \<le> clock s (Suc (tick s))"
    and "run_state (queue_HandlePublish h payload) s = (r, s1)"
    and "guard_use\<^sup>*\<^sup>* s1 s2"
    and "clock s (Suc (tick s2)) < clock s (tick s) + 10 * Minute"
    and "th_idempotency h2 = Some mem_guard" and "th_metrics h2 = NopMetrics"
    and "pl_content_id payload2 = pl_content_id payload" and "pl_platform payload2 = pl_platform payload"
  shows "run_state (queue_HandlePublish h2 payload2) s2 = (None, s2\<lparr>tick := Suc (Suc (tick s2))\<rparr>)"
proof -
  let ?k = "pl_content_id payload @ '':'' @ pl_platform payload"
  obtain x where x: "guard_expiry s1 ?k = Some x" "clock s (tick s) + idempotencyTTL \<le> x"
    using mem.redelivery_held [OF assms(1-3) _ _ refl assms(6)] assms(4,5) by blast
  have "keeps (\<lambda>t. clock t = clock s) (queue_HandlePublish h payload)"
    by (rule queue_HandlePublish_keeps)
      (use assms(2-4) in \<open>auto simp: mem.acquire_env intro!: keepsI\<close>)
  from keepsD [OF this refl] assms(6) have c1: "clock s1 = clock s" by simp
  have "clock s (tick s2) \<le> clock s (Suc (tick s2))" using assms(1) by (simp add: clock_mono_def)
  with x(2) assms(8) have now: "clock s (tick s2) < x" "clock s (Suc (tick s2)) < x"
    by (simp_all add: idempotencyTTL_def)
  have "guard_expiry s2 ?k = Some x \<and> clock s2 = clock s1"
    by (rule guard_use_held [OF assms(7) _ x(1)]) (use assms(1) c1 now in \<open>simp_all add: clock_mono_def\<close>)
  with c1 now have held: "guard_expiry s2 ?k = Some x" "clock s2 (Suc (tick s2)) < x" by simp_all
  then have "run_state (queue_HandlePublish h2 payload2) s2 =
      (None, fin (Acquire mem_guard ?k idempotencyTTL) (s2\<lparr>tick := Suc (tick s2)\<rparr>))"
    by (intro mem.handler_skips_held [OF assms(9,10)]) (simp_all add: assms(11,12))
  with held show ?thesis by (simp add: run_mem_Acquire)
qed

section \<open>Deliveries on the validating store\<close>

text \<open>
  The handler over the task store of the \<open>publish\<close> package, whose \<open>UpdateTaskStatus\<close> has the
  signature and the contract \<open>TaskStateStore\<close> asks for; how a result is recorded stays open.
\<close>

definition store_handler ::
  "('a PublishMemory_scheme) Publisher \<Rightarrow>
   (string \<Rightarrow> PublishResult option \<Rightarrow> ('a PublishMemory_scheme, go_error option) state) \<Rightarrow>
   ('a PublishMemory_scheme) IdempotencyGuard option \<Rightarrow> ('a PublishMemory_scheme) TaskHandler" where
  "store_handler P record_result idem =
     NewTaskHandler P
       \<lparr>ss_UpdateTaskStatus = UpdateTaskStatus PubTaskStore, ss_RecordPublishResult = record_result\<rparr> idem None"

lemma store_handler_simps [simp]:
  "th_publisher (store_handler P r idem) = P" "th_idempotency (store_handler P r idem) = idem"
  "ss_UpdateTaskStatus (th_stateStore (store_handler P r idem)) = pts_UpdateTaskStatus"
  "ss_RecordPublishResult (th_stateStore (store_handler P r idem)) = r"
  "th_metrics (store_handler P r idem) = NopMetrics"
  by (simp_all add: store_handler_def NewTaskHandler_def)

definition status_is :: "string \<Rightarrow> PublishTaskStatus \<Rightarrow> 'a PublishMemory_scheme \<Rightarrow> bool" where
  "status_is i st s \<longleftrightarrow> (\<exists>t. pm_task_map s i = Some t \<and> pt_status t = st)"

lemma status_is_tick [simp]: "status_is i st (s\<lparr>tick := n\<rparr>) = status_is i st s"
  by (simp add: status_is_def)

lemma status_update:
  assumes "status_is i st s"
  shows "res (pts_UpdateTaskStatus i st' msg) s =
           (if PublishTaskStatus_CanTransitionTo st st' then None else Some (transition_error st st'))"
    and "status_is i (if PublishTaskStatus_CanTransitionTo st st' then st' else st)
           (fin (pts_UpdateTaskStatus i st' msg) s)"
  using assms by (auto simp: status_is_def run_pts_UpdateTaskStatus)

text \<open>The handler's reply, from the publisher's and the recorder's answers.\<close>

definition queue_reply ::
  "PublishResult option \<Rightarrow> go_error option \<Rightarrow> go_error option \<Rightarrow> go_error option" where
  "queue_reply result err record_err =
     (case err of
        Some e \<Rightarrow> if isPermanentError e then None else Some (Wrapf ''publish failed (retryable): '' e)
      | None \<Rightarrow>
          (case record_err of
             Some e \<Rightarrow> Some (Wrapf ''record result: '' e)
           | None \<Rightarrow> if result = None then Some (Panic ''nil pointer dereference'') else None))"

text \<open>The key of a delivery.\<close>

definition payload_key :: "PublishPayload \<Rightarrow> string" where
  "payload_key payload = pl_content_id payload @ '':'' @ pl_platform payload"

text \<open>
  Whether the guard, if there is one, lets a delivery through: the key is not held, or the guard fails.
\<close>

definition guard_admits :: "'s IdempotencyGuard option \<Rightarrow> string \<Rightarrow> ('s, bool) state" where
  "guard_admits idem key =
     (case idem of
        None \<Rightarrow> ret True
      | Some G \<Rightarrow> do { r \<leftarrow> Acquire G key (10 * Minute); ret (r \<noteq> Inr False) })"

lemma run_is_duplicate:
  "run_state (is_duplicate (store_handler P record_result idem) payload) s =
     map_prod Not (\<lambda>s. s)
       (run_state (guard_admits idem (payload_key payload)) s)"
proof (cases idem)
  case (Some G)
  let ?r = "res (Acquire G (payload_key payload) idempotencyTTL) s"
  show ?thesis
    by (cases ?r)
      (simp_all add: Some is_duplicate_def guard_admits_def Let_def split_def idempotencyTTL_def map_prod_def payload_key_def)
qed (simp add: is_duplicate_def guard_admits_def)

text \<open>
  C10. The outcome of a delivery (\<open>TaskHandler.HandlePublish\<close> and \<open>handleFailure\<close> over the validating
  task store): for a pending or retrying task and any publisher, recorder and guard, or none, that
  leave its status alone. A delivery that the guard does not let through answers nil and leaves the
  status. Otherwise the task ends succeeded exactly if publisher and recorder answered this delivery
  without error, and processing if not: a permanent failure too leaves it processing, since the
  machine refuses \<open>dead\<close> from there, and the reply nil tells the queue that it is done; a retryable
  failure is returned for a retry.
\<close>

theorem queue_task_outcome:
  fixes s :: "'a PublishMemory_scheme"
  assumes "status_is (pl_task_id payload) st s"
    and "st \<in> {PublishTaskStatusPending, PublishTaskStatusRetrying}"
    and guard: "\<And>st. keeps (status_is (pl_task_id payload) st)
        (guard_admits idem (payload_key payload))"
      "run_state (guard_admits idem (payload_key payload))
         (s\<lparr>tick := Suc (tick s)\<rparr>) = (admitted, s1)"
    and publisher: "\<And>st. keeps (status_is (pl_task_id payload) st)
        (pub_Publish P (pl_content_id payload) (pl_platform payload))"
      "run_state (pub_Publish P (pl_content_id payload) (pl_platform payload))
         (fin (pts_UpdateTaskStatus (pl_task_id payload) PublishTaskStatusProcessing '''') s1) = ((result, err), s2)"
    and recorder: "\<And>st. keeps (status_is (pl_task_id payload) st) (record_result (pl_task_id payload) result)"
      "run_state (record_result (pl_task_id payload) result) (s2\<lparr>tick := Suc (tick s2)\<rparr>) = (record_err, s3)"
  shows "res (queue_HandlePublish (store_handler P record_result idem) payload) s =
           (if admitted then queue_reply result err record_err else None) \<and>
         status_is (pl_task_id payload)
           (if \<not> admitted then st
            else if err = None \<and> record_err = None then PublishTaskStatusSucceeded
            else PublishTaskStatusProcessing)
           (fin (queue_HandlePublish (store_handler P record_result idem) payload) s)"
proof -
  let ?i = "pl_task_id payload" and ?h = "store_handler P record_result idem"
  have s1: "status_is ?i st s1"
    using keepsD [OF guard(1), of st "s\<lparr>tick := Suc (tick s)\<rparr>"] assms(1) guard(2) by simp
  have can: "PublishTaskStatus_CanTransitionTo st PublishTaskStatusProcessing"
    "\<not> PublishTaskStatus_CanTransitionTo PublishTaskStatusProcessing PublishTaskStatusDead"
    "PublishTaskStatus_CanTransitionTo PublishTaskStatusProcessing PublishTaskStatusSucceeded"
    using assms(2) by (auto simp: PublishTaskStatus_CanTransitionTo_def)
  have u1: "res (pts_UpdateTaskStatus ?i PublishTaskStatusProcessing '''') s1 = None"
    "status_is ?i PublishTaskStatusProcessing (fin (pts_UpdateTaskStatus ?i PublishTaskStatusProcessing '''') s1)"
    using status_update [OF s1, of PublishTaskStatusProcessing "''''"] can(1) by simp_all
  have s2: "status_is ?i PublishTaskStatusProcessing (s2\<lparr>tick := Suc (tick s2)\<rparr>)"
    using keepsD [OF publisher(1) u1(2)] publisher(2) by simp
  have s3: "status_is ?i PublishTaskStatusProcessing s3"
    using keepsD [OF recorder(1) s2] recorder(2) by simp
  note upd = status_update [OF s2, of PublishTaskStatusDead] status_update [OF s3, of PublishTaskStatusSucceeded]
  have nil: "(case result of None \<Rightarrow> ret a | Some _ \<Rightarrow> ret b) = ret (if result = None then a else b)"
    for a b :: "go_error option" by (simp split: option.split)
  note run = queue_HandlePublish_def run_is_duplicate guard(2) publish_and_record_def handleFailure_def
    split_def Let_def u1(1) publisher(2) recorder(2) queue_reply_def nil
  show ?thesis
  proof (cases admitted)
    case False
    with s1 show ?thesis by (simp add: run)
  next
    case True
    have "res (queue_HandlePublish ?h payload) s = queue_reply result err record_err"
      using upd can True by (cases err; cases record_err) (simp_all add: run)
    moreover have "status_is ?i (if err = None \<and> record_err = None then PublishTaskStatusSucceeded
        else PublishTaskStatusProcessing) (fin (queue_HandlePublish ?h payload) s)"
      using upd can s2 s3 True by (cases err; cases record_err) (simp_all add: run)
    ultimately show ?thesis using True by simp
  qed
qed


section \<open>The Redis guard\<close>

text \<open>
  The Redis guard is best effort (\<open>TaskHandler.HandlePublish\<close> with \<open>RedisIdempotencyGuard\<close>): where
  \<open>SETNX\<close> fails without effect, a delivery runs as it does without a guard; where it reports that the
  key of the content and platform is there, the delivery is skipped with the state \<open>SETNX\<close> left.
\<close>

lemma redis_guard_best_effort:
  fixes C :: "('a env_scheme) RedisClient"
  assumes "run_state (SetNX C (''idempotency:'' @ pl_content_id payload @ '':'' @ pl_platform payload)
      ''1'' (10 * Minute)) (s\<lparr>tick := Suc (tick s)\<rparr>) = (r, s1)"
    and "r = Inr False \<or> (\<exists>e. r = Inl e \<and> s1 = s\<lparr>tick := Suc (tick s)\<rparr>)"
  shows "run_state (queue_HandlePublish
           (NewTaskHandler P S (Some (redis_Guard (NewRedisIdempotencyGuard C))) None) payload) s =
           (if r = Inr False then (None, s1)
            else run_state (queue_HandlePublish (NewTaskHandler P S None None) payload) s)"
  using assms
  by (elim disjE exE conjE)
    (simp_all add: queue_HandlePublish_def is_duplicate_def publish_and_record_guard [of P S "Some _"]
      redis_Guard_def redis_Acquire_def NewRedisIdempotencyGuard_def idempotencyTTL_def Let_def)

section \<open>Examples\<close>

text \<open>A program state with one pending task and an empty guard, and a publisher that fails.\<close>

definition queue_world :: "env \<Rightarrow> QueueWorld" where
  "queue_world e =
     fin (pts_CreateTask ''c'' ''x'')
       (PublishMemory.extend (NewPublishMemory e) (QueueWorld.fields NewInMemoryIdempotencyGuard))"

definition failing_publisher :: "QueueWorld Publisher" where
  "failing_publisher = \<lparr>pub_Publish = (\<lambda>_ _. ret (None, Some (Errorf ''timeout'')))\<rparr>"

definition example_payload :: PublishPayload where
  "example_payload = \<lparr>pl_task_id = pm_example_id, pl_content_id = ''c'', pl_platform = ''x''\<rparr>"

lemma queue_world_simps [simp]:
  "status_is pm_example_id PublishTaskStatusPending (queue_world env0)"
  "guard_expiry (queue_world e) k = None" "tick (queue_world env0) = 2" "clock (queue_world env0) = int"
  by (simp_all add: queue_world_def status_is_def run_pts_CreateTask Let_def pm_example_id_def uuid_at_def
      NewPublishMemory_def QueueWorld.defs PublishMemory.defs env.defs env0_def pm_combos_def pm_task_map_def
      new_task_def guard_expiry_def NewInMemoryIdempotencyGuard_def)

lemma guard_keeps_status: "keeps (status_is i st) (guard_admits (Some mem_guard) k)"
  by (rule keepsI) (auto simp: guard_admits_def run_mem_Acquire status_is_def pm_task_map_def split: option.split)

theorem queue_task_outcome_witness:
  "let h = store_handler failing_publisher (\<lambda>_ _. ret None) (Some mem_guard)
   in res (queue_HandlePublish h example_payload) (queue_world env0) =
        Some (Wrapf ''publish failed (retryable): '' (Errorf ''timeout'')) \<and>
      status_is pm_example_id PublishTaskStatusProcessing (fin (queue_HandlePublish h example_payload) (queue_world env0))"
proof -
  let ?s = "(queue_world env0)\<lparr>tick := Suc (tick (queue_world env0))\<rparr>"
  let ?g = "guard_admits (Some mem_guard) (payload_key example_payload) :: (QueueWorld, bool) state"
  let ?s2 = "fin (pts_UpdateTaskStatus (pl_task_id example_payload) PublishTaskStatusProcessing '''') (fin ?g ?s)"
  have "run_state ?g ?s = (True, fin ?g ?s)"
    by (simp add: guard_admits_def run_mem_Acquire)
  then show ?thesis
    using queue_task_outcome [where payload = example_payload and st = PublishTaskStatusPending
        and s = "queue_world env0" and idem = "Some mem_guard" and admitted = True and ?s1.0 = "fin ?g ?s"
        and P = failing_publisher and result = None and err = "Some (Errorf ''timeout'')" and ?s2.0 = ?s2
        and record_result = "\<lambda>_ _. ret None" and record_err = None
        and ?s3.0 = "?s2\<lparr>tick := Suc (tick ?s2)\<rparr>", OF _ _ guard_keeps_status]
    by (simp add: example_payload_def failing_publisher_def queue_reply_def isPermanentError_def keeps_return Let_def)
qed


lemma guard_kept_by_update:
  "keeps (\<lambda>s. guard_expiry s = e) (pts_UpdateTaskStatus i st msg)"
  by (rule keepsI) (auto simp: run_pts_UpdateTaskStatus guard_expiry_def split: option.split)

lemma clock_kept_by_update: "keeps (\<lambda>s. clock s = c) (pts_UpdateTaskStatus i st msg)"
  by (rule keepsI) (auto simp: run_pts_UpdateTaskStatus split: option.split)

text \<open>The key of another delivery is acquired between the two.\<close>

theorem duplicates_skipped_witness:
  "let h = store_handler failing_publisher (\<lambda>_ _. ret None) (Some mem_guard);
       s = queue_world env0; s1 = fin (queue_HandlePublish h example_payload) s;
       s2 = fin (Acquire mem_guard ''c:y'' idempotencyTTL) s1
   in run_state (queue_HandlePublish h example_payload) s2 = (None, s2\<lparr>tick := Suc (Suc (tick s2))\<rparr>)"
proof -
  let ?h = "store_handler failing_publisher (\<lambda>_ _. ret None) (Some mem_guard)" and ?s = "queue_world env0"
  let ?s1 = "fin (queue_HandlePublish ?h example_payload) ?s"
  let ?s2 = "fin (Acquire mem_guard ''c:y'' idempotencyTTL) ?s1"
  have kept: "handler_keeps (\<lambda>s. guard_expiry s = e) ?h \<and> handler_keeps (\<lambda>s. clock s = c) ?h" for e c
    by (simp add: handler_keeps_def failing_publisher_def keeps_return guard_kept_by_update clock_kept_by_update)
  have "tick ?s1 \<le> 10"
    by (simp add: queue_HandlePublish_def is_duplicate_def run_mem_Acquire publish_and_record_def
        handleFailure_def failing_publisher_def isPermanentError_def run_pts_UpdateTaskStatus Let_def
        split: option.split)
  then have "tick ?s2 \<le> 12" by (auto simp: run_mem_Acquire split: option.split)
  then have near: "clock ?s (Suc (tick ?s2)) < clock ?s (tick ?s) + 10 * Minute"
    unfolding queue_world_simps by linarith
  have "guard_use ?s1 ?s2" by (auto simp: guard_use_def mem.acquire_env)
  then have between: "guard_use\<^sup>*\<^sup>* ?s1 ?s2" by (rule r_into_rtranclp)
  have mono: "clock_mono ?s" unfolding clock_mono_def queue_world_simps by simp
  show ?thesis
    unfolding Let_def
    by (rule duplicates_skipped [OF mono _ _ kept _ prod.collapse [symmetric] between near]) simp_all
qed

end
