(* ===== verification/QueueConcurrency.thy ===== *)
theory QueueConcurrency
  imports Processes QueueProofs
begin

text \<open>
  Concurrent deliveries. A worker runs several tasks at once (\<open>WorkerConfig.Concurrency\<close>), so the
  handler of \<open>internal/queue/handler.go\<close> is here a process that may be interrupted between its calls
  to guard, store, publisher, metrics and clock. In any interleaving the in-memory guard lets one of
  the deliveries of a content and platform through to the publisher.
\<close>

section \<open>The handler as a process\<close>

definition p_handleFailure ::
  "'s TaskHandler \<Rightarrow> PublishPayload \<Rightarrow> go_error \<Rightarrow> Duration \<Rightarrow> (go_error option \<Rightarrow> ('s, 'b) proc) \<Rightarrow>
     ('s, 'b) proc" where
  "p_handleFailure h payload err duration k =
     call (TaskFailed (th_metrics h) (pl_task_id payload) (pl_platform payload) err) (\<lambda>_.
     if isPermanentError err then
       call (ss_UpdateTaskStatus (th_stateStore h) (pl_task_id payload) PublishTaskStatusDead (Error err)) (\<lambda>_.
       call (TaskDead (th_metrics h) (pl_task_id payload) (pl_platform payload)) (\<lambda>_.
       k None))
     else k (Some (Wrapf ''publish failed (retryable): '' err)))"

definition p_is_duplicate ::
  "'s TaskHandler \<Rightarrow> PublishPayload \<Rightarrow> (bool \<Rightarrow> ('s, 'b) proc) \<Rightarrow> ('s, 'b) proc" where
  "p_is_duplicate h payload k =
     (case th_idempotency h of
        None \<Rightarrow> k False
      | Some guard \<Rightarrow>
          let key = pl_content_id payload @ '':'' @ pl_platform payload in
          call (Acquire guard key idempotencyTTL) (\<lambda>r. case r of
            Inl err \<Rightarrow> k False
          | Inr acquired \<Rightarrow>
              if \<not> acquired then call (IdempotencyHit (th_metrics h) key) (\<lambda>_. k True)
              else k False))"

definition p_publish_and_record ::
  "('a env_scheme) TaskHandler \<Rightarrow> PublishPayload \<Rightarrow> Time \<Rightarrow> (go_error option \<Rightarrow> ('a env_scheme, 'b) proc) \<Rightarrow>
     ('a env_scheme, 'b) proc" where
  "p_publish_and_record h payload start k =
     call (pub_Publish (th_publisher h) (pl_content_id payload) (pl_platform payload)) (\<lambda>(result, err).
     call time_Now (\<lambda>now.
     let duration = now - start in
     case err of
       Some e \<Rightarrow> p_handleFailure h payload e duration k
     | None \<Rightarrow>
         call (ss_RecordPublishResult (th_stateStore h) (pl_task_id payload) result) (\<lambda>e. case e of
           Some e \<Rightarrow> k (Some (Wrapf ''record result: '' e))
         | None \<Rightarrow>
             call (ss_UpdateTaskStatus (th_stateStore h) (pl_task_id payload) PublishTaskStatusSucceeded '''') (\<lambda>e.
             case e of
               Some e \<Rightarrow> k (Some (Wrapf ''set succeeded: '' e))
             | None \<Rightarrow>
                 call (TaskCompleted (th_metrics h) (pl_task_id payload) (pl_platform payload) duration) (\<lambda>_.
                 case result of
                   None \<Rightarrow> k (Some (Panic ''nil pointer dereference''))
                 | Some _ \<Rightarrow> k None)))))"

definition p_queue_HandlePublish ::
  "('a env_scheme) TaskHandler \<Rightarrow> PublishPayload \<Rightarrow> (go_error option \<Rightarrow> ('a env_scheme, 'b) proc) \<Rightarrow>
     ('a env_scheme, 'b) proc" where
  "p_queue_HandlePublish h payload k =
     call time_Now (\<lambda>start.
     call (TaskStarted (th_metrics h) (pl_task_id payload) (pl_platform payload)) (\<lambda>_.
     p_is_duplicate h payload (\<lambda>duplicate.
     if duplicate then k None
     else
       call (ss_UpdateTaskStatus (th_stateStore h) (pl_task_id payload) PublishTaskStatusProcessing '''') (\<lambda>e.
       case e of
         Some e \<Rightarrow> k (Some (Wrapf ''set processing: '' e))
       | None \<Rightarrow> p_publish_and_record h payload start k))))"

section \<open>A delivery alone is the handler\<close>

lemma alone_failure:
  "run_alone (p_handleFailure h payload err d k) = handleFailure h payload err d \<bind> (\<lambda>r. run_alone (k r))"
  by (simp add: p_handleFailure_def handleFailure_def alone_simps cong: if_cong)

lemma alone_duplicate:
  "run_alone (p_is_duplicate h payload k) = is_duplicate h payload \<bind> (\<lambda>r. run_alone (k r))"
  by (simp add: p_is_duplicate_def is_duplicate_def alone_simps
      cong: if_cong option.case_cong sum.case_cong)

lemma alone_record:
  "run_alone (p_publish_and_record h payload start k) =
     publish_and_record h payload start \<bind> (\<lambda>r. run_alone (k r))"
  by (simp add: p_publish_and_record_def publish_and_record_def alone_failure alone_simps
      case_prod_unfold cong: option.case_cong)

text \<open>
  Cutting a delivery at its calls changes nothing of it (\<open>TaskHandler.HandlePublish\<close>): run without
  interruption, the process answers what the handler answers and ends in the same state, whatever
  its guard, store, publisher and metrics.
\<close>

lemma delivery_alone: "run_alone (p_queue_HandlePublish h payload Done) = queue_HandlePublish h payload"
  by (simp add: p_queue_HandlePublish_def queue_HandlePublish_def alone_duplicate alone_record
      alone_simps cong: if_cong option.case_cong)

section \<open>The guard as a lock\<close>

text \<open>
  The keys that are held at every reading of the clock; the window in which the readings lie is
  shorter than the time to live.
\<close>

definition within_ttl :: "'a env_scheme \<Rightarrow> bool" where
  "within_ttl s \<longleftrightarrow> (\<forall>i j. clock s i < clock s j + idempotencyTTL)"

definition held_keys ::
  "('a env_scheme \<Rightarrow> string \<Rightarrow> Time option) \<Rightarrow> string set \<Rightarrow> 'a env_scheme \<Rightarrow> string set" where
  "held_keys expiry K s = {k \<in> K. \<exists>x. expiry s k = Some x \<and> (\<forall>n. clock s n < x)}"

lemma finite_held [simp]: "finite K \<Longrightarrow> finite (held_keys expiry K s)"
  by (simp add: held_keys_def)

context idempotency_guard
begin

lemma acquire_answers:
  "res (Acquire G k ttl) s = Inr False \<and> expiry (fin (Acquire G k ttl) s) = expiry s \<or>
   res (Acquire G k ttl) s = Inr True \<and> (\<forall>x. expiry s k = Some x \<longrightarrow> x \<le> clock s (tick s)) \<and>
     (\<exists>n. expiry (fin (Acquire G k ttl) s) = (expiry s)(k \<mapsto> clock s n + ttl))"
proof (cases "\<exists>x. expiry s k = Some x \<and> clock s (tick s) < x")
  case True
  then show ?thesis using acquire_held by blast
next
  case False
  then have free: "x \<le> clock s (tick s)" if "expiry s k = Some x" for x
    using that by force
  with acquire_free [of s k ttl] show ?thesis by blast
qed

text \<open>Acquiring a key holds it for the whole window, and never drops another one.\<close>

lemma acquire_holds:
  assumes "within_ttl s" "res (Acquire G k idempotencyTTL) s \<noteq> Inr False"
  shows "held_keys expiry K (fin (Acquire G k idempotencyTTL) s) =
      (if k \<in> K then insert k (held_keys expiry K s) else held_keys expiry K s)"
    and "k \<notin> held_keys expiry K s"
proof -
  obtain n where n: "expiry (fin (Acquire G k idempotencyTTL) s) = (expiry s)(k \<mapsto> clock s n + idempotencyTTL)"
    and free: "\<forall>x. expiry s k = Some x \<longrightarrow> x \<le> clock s (tick s)"
    using acquire_answers [of k idempotencyTTL s] assms(2) by blast
  have "clock (fin (Acquire G k idempotencyTTL) s) = clock s" by (simp add: acquire_env)
  with n assms(1) free
  show "held_keys expiry K (fin (Acquire G k idempotencyTTL) s) =
      (if k \<in> K then insert k (held_keys expiry K s) else held_keys expiry K s)"
    by (auto simp: held_keys_def within_ttl_def not_less)
  show "k \<notin> held_keys expiry K s" using free by (auto simp: held_keys_def not_less)
qed

lemma acquire_refused:
  "res (Acquire G k ttl) s = Inr False \<Longrightarrow>
     held_keys expiry K (fin (Acquire G k ttl) s) = held_keys expiry K s"
  using acquire_answers [of k ttl s] acquire_env [of k ttl s] by (auto simp: held_keys_def)

end

section \<open>Concurrent deliveries\<close>

text \<open>
  A handler with a guard: its store and its guard leave the counter of publisher calls alone, its
  publisher raises it by at most one, and neither store nor publisher touches the guard or the clock.
\<close>

locale guarded_handler = idempotency_guard G expiry
  for G :: "('a env_scheme) IdempotencyGuard" and expiry :: "'a env_scheme \<Rightarrow> string \<Rightarrow> Time option" +
  fixes h :: "('a env_scheme) TaskHandler" and calls :: "'a env_scheme \<Rightarrow> nat"
  assumes guard: "th_idempotency h = Some G" and metrics: "th_metrics h = NopMetrics"
    and calls_tick: "calls (s\<lparr>tick := n\<rparr>) = calls s"
    and calls_acquire: "calls (fin (Acquire G k ttl) s) = calls s"
    and update_kept: "keeps (\<lambda>s. (calls s, expiry s, clock s) = X) (ss_UpdateTaskStatus (th_stateStore h) i st msg)"
    and record_kept: "keeps (\<lambda>s. (calls s, expiry s, clock s) = X) (ss_RecordPublishResult (th_stateStore h) i r)"
    and publish_kept: "keeps (\<lambda>s. (expiry s, clock s) = Y) (pub_Publish (th_publisher h) c p)"
    and publish_calls: "calls (fin (pub_Publish (th_publisher h) c p) s) \<le> calls s + 1"

sublocale guarded_handler < window: lock_budget within_ttl calls
  "\<lambda>s. card (held_keys expiry (set ks) s)" "1 :: nat" for ks .

context guarded_handler
begin

lemma kept_free:
  assumes "\<And>X. keeps (\<lambda>s. (calls s, expiry s, clock s) = X) m"
  shows "window.costs ks 0 m"
proof -
  have "(calls (fin m s), expiry (fin m s), clock (fin m s)) = (calls s, expiry s, clock s)" for s
    by (rule keepsD [OF assms]) (rule refl)
  then show ?thesis unfolding window.costs_def by (simp add: within_ttl_def held_keys_def)
qed

lemma time_free: "window.costs ks 0 time_Now"
  by (rule kept_free, rule keepsI) (simp add: calls_tick expiry_tick)

lemma nop_free: "window.costs ks 0 (ret a)"
  by (rule kept_free, rule keepsI) simp

lemma publish_pays: "window.costs ks 1 (pub_Publish (th_publisher h) c p)"
proof -
  have "(expiry (fin (pub_Publish (th_publisher h) c p) s), clock (fin (pub_Publish (th_publisher h) c p) s)) =
      (expiry s, clock s)" for s
    by (rule keepsD [OF publish_kept]) (rule refl)
  with publish_calls show ?thesis unfolding window.costs_def by (simp add: within_ttl_def held_keys_def)
qed

lemma acquire_free_of_charge: "window.costs ks 0 (Acquire G k idempotencyTTL)"
  unfolding window.costs_def
proof (intro allI impI conjI)
  fix s :: "'a env_scheme" assume s: "within_ttl s"
  let ?s' = "fin (Acquire G k idempotencyTTL) s"
  show "within_ttl ?s'" using s acquire_env [of k idempotencyTTL s] by (simp add: within_ttl_def)
  show "calls ?s' \<le> calls s + 0" by (simp add: calls_acquire)
  show "card (held_keys expiry (set ks) s) \<le> card (held_keys expiry (set ks) ?s')"
    using acquire_refused [of k idempotencyTTL s "set ks"] acquire_holds(1) [OF s, of k "set ks"]
    by (cases "res (Acquire G k idempotencyTTL) s = Inr False") (auto intro!: card_mono)
qed

lemmas free = time_free nop_free kept_free [OF update_kept] kept_free [OF record_kept]

lemma bounded_record: "window.bounded ks (p_publish_and_record h payload start Done) 1"
proof -
  have failure: "window.bounded ks (p_handleFailure h payload err d Done) 0" for err d
    unfolding p_handleFailure_def metrics NopMetrics_simps
    by (intro window.bounded_intros free)
  show ?thesis
    unfolding p_publish_and_record_def metrics NopMetrics_simps Let_def
    by (rule window.bounded_pay [where j = 1 and n = 0, unfolded add_0_right, OF publish_pays])
      (intro window.bounded_intros free failure)
qed

text \<open>Acquiring the key pays for the call.\<close>

lemma bounded_duplicate:
  assumes "payload_key payload \<in> set ks" "window.bounded ks (k True) 0" "window.bounded ks (k False) 1"
  shows "window.bounded ks (p_is_duplicate h payload k) 0"
  unfolding p_is_duplicate_def guard option.case Let_def payload_key_def [symmetric] metrics NopMetrics_simps
proof (rule window.bounded_take [where got = "\<lambda>r. r \<noteq> Inr False"])
  fix s :: "'a env_scheme"
  let ?r = "res (Acquire G (payload_key payload) idempotencyTTL) s"
    and ?rest = "\<lambda>r. case r of Inl err \<Rightarrow> k False
      | Inr acquired \<Rightarrow> if \<not> acquired then call (ret ()) (\<lambda>_. k True) else k False"
  { assume s: "within_ttl s" "?r \<noteq> Inr False"
    from acquire_holds [OF s, of "set ks"] assms(1)
    show "Suc (card (held_keys expiry (set ks) s)) \<le>
        card (held_keys expiry (set ks) (fin (Acquire G (payload_key payload) idempotencyTTL) s))" by simp
    have "?r = Inr True" using acquire_answers s(2) by blast
    with assms(3) show "window.bounded ks (?rest ?r) (0 + 1)" by simp }
  assume "\<not> ?r \<noteq> Inr False"
  moreover have "window.bounded ks (call (ret ()) (\<lambda>_. k True)) 0"
    by (rule window.bounded_call [OF nop_free assms(2)])
  ultimately show "window.bounded ks (?rest ?r) 0" by simp
qed (rule acquire_free_of_charge)

lemma bounded_delivery:
  assumes "payload_key payload \<in> set ks"
  shows "window.bounded ks (p_queue_HandlePublish h payload Done) 0"
  unfolding p_queue_HandlePublish_def metrics NopMetrics_simps
  by (intro window.bounded_call free bounded_duplicate [OF assms])
    (simp_all only: if_True if_False budget.simps,
      intro window.bounded_call window.bounded_option window.bounded_Done free bounded_record)

lemma deliveries_bounded:
  assumes "within_ttl s"
  shows "calls (snd (run_schedule js (map (\<lambda>pl. p_queue_HandlePublish h pl Done) payloads) s)) \<le>
    calls s + card (payload_key ` set payloads - held_keys expiry (payload_key ` set payloads) s)"
proof -
  let ?s' = "snd (run_schedule js (map (\<lambda>pl. p_queue_HandlePublish h pl Done) payloads) s)"
  let ?K = "payload_key ` set payloads"
  have b: "window.bounded (map payload_key payloads) (p_queue_HandlePublish h pl Done) 0"
    if "pl \<in> set payloads" for pl
    by (rule bounded_delivery) (simp add: that)
  have "calls ?s' + 1 * card (held_keys expiry (set (map payload_key payloads)) s) \<le>
      calls s + 1 * card (held_keys expiry (set (map payload_key payloads)) ?s')"
    by (rule schedule_bound_free [where I = within_ttl]) (use assms b in auto)
  moreover have "card (held_keys expiry ?K ?s') \<le> card ?K"
    by (rule card_mono) (auto simp: held_keys_def)
  moreover have "card (?K - held_keys expiry ?K s) = card ?K - card (held_keys expiry ?K s)"
    by (rule card_Diff_subset) (auto simp: held_keys_def)
  moreover have "card (held_keys expiry ?K s) \<le> card ?K"
    by (rule card_mono) (auto simp: held_keys_def)
  ultimately show ?thesis by (simp only: set_map)
qed

end

section \<open>Over the in-memory guard\<close>

text \<open>A program state with a mock publisher, which records its calls.\<close>

record DeliveryWorld = QueueWorld +
  dw_publisher :: "unit MockPublisher"

definition world_publisher :: "DeliveryWorld Publisher" where
  "world_publisher =
     \<lparr>pub_Publish = (\<lambda>c p. do {
        m \<leftarrow> gets dw_publisher;
        let (m', outcome) = res (MockPublisher_Publish m c p) ();
        modify (dw_publisher_update (\<lambda>_. m'));
        ret outcome
      })\<rparr>"

definition publisher_calls :: "DeliveryWorld \<Rightarrow> nat" where
  "publisher_calls s = length (mp_calls (dw_publisher s))"

text \<open>The handler over the stores of \<open>publish\<close>, a result recorded as the platform post of its task.\<close>

definition record_post :: "string \<Rightarrow> PublishResult option \<Rightarrow> (DeliveryWorld, go_error option) state" where
  "record_post taskID result = do {
     t \<leftarrow> pts_GetTask taskID;
     case (t, result) of
       (Inr task, Some r) \<Rightarrow> pps_CreatePlatformPost taskID (pt_platform task) (pr_platform_post_id r)
         (pr_platform_url r) (pr_response r)
     | (Inr task, None) \<Rightarrow> ret None
     | (Inl e, _) \<Rightarrow> ret (Some e)
   }"

definition delivery_handler :: "DeliveryWorld TaskHandler" where
  "delivery_handler = store_handler world_publisher record_post (Some mem_guard)"

lemma queue_mock_calls: "length (mp_calls (fst (res (MockPublisher_Publish m c p) u))) = Suc (length (mp_calls m))"
  by (simp add: MockPublisher_Publish_def Let_def split_def split: option.split)

interpretation deliveries: guarded_handler mem_guard guard_expiry delivery_handler publisher_calls
  by unfold_locales
    (auto simp: delivery_handler_def publisher_calls_def record_post_def run_pts_GetTask run_mem_Acquire run_pts_UpdateTaskStatus
      run_pps_CreatePlatformPost world_publisher_def guard_expiry_def split_def queue_mock_calls Let_def
      split: option.split sum.split intro!: keepsI)

text \<open>
  C12. One publisher call per content and platform, however deliveries interleave (\<open>TaskHandler.HandlePublish\<close>
  with \<open>InMemoryIdempotencyGuard\<close>): for any deliveries handled at once, in any order of their calls,
  while the clock's readings lie within ten minutes the publisher is called at most once for each
  key of content and platform among them, and not at all for a key that was held throughout. The
  stores and the publisher are any that leave guard and clock alone.
\<close>

theorem concurrent_deliveries_once:
  fixes s :: "'a QueueWorld_scheme"
  assumes "th_idempotency h = Some mem_guard" and "th_metrics h = NopMetrics"
    and "\<And>s n. calls (s\<lparr>tick := n\<rparr>) = calls s" and "\<And>s g. calls (s\<lparr>q_guard := g\<rparr>) = calls s"
    and update: "\<And>i st msg X. keeps (\<lambda>s. (calls s, q_guard s, clock s) = X) (ss_UpdateTaskStatus (th_stateStore h) i st msg)"
    and record_result: "\<And>i r X. keeps (\<lambda>s. (calls s, q_guard s, clock s) = X) (ss_RecordPublishResult (th_stateStore h) i r)"
    and publish: "\<And>c p Y. keeps (\<lambda>s. (q_guard s, clock s) = Y) (pub_Publish (th_publisher h) c p)"
      "\<And>c p s. calls (fin (pub_Publish (th_publisher h) c p) s) \<le> calls s + 1"
    and "within_ttl s"
  shows "calls (snd (run_schedule js (map (\<lambda>pl. p_queue_HandlePublish h pl Done) payloads) s)) \<le>
    calls s + card (payload_key ` set payloads - held_keys guard_expiry (payload_key ` set payloads) s)"
proof -
  have update': "(calls (fin (ss_UpdateTaskStatus (th_stateStore h) i st msg) s),
      q_guard (fin (ss_UpdateTaskStatus (th_stateStore h) i st msg) s),
      clock (fin (ss_UpdateTaskStatus (th_stateStore h) i st msg) s)) = (calls s, q_guard s, clock s)" for i st msg s
    by (rule keepsD [OF update]) (rule refl)
  have record': "(calls (fin (ss_RecordPublishResult (th_stateStore h) i r) s),
      q_guard (fin (ss_RecordPublishResult (th_stateStore h) i r) s),
      clock (fin (ss_RecordPublishResult (th_stateStore h) i r) s)) = (calls s, q_guard s, clock s)" for i r s
    by (rule keepsD [OF record_result]) (rule refl)
  have publish': "(q_guard (fin (pub_Publish (th_publisher h) c p) s), clock (fin (pub_Publish (th_publisher h) c p) s)) =
      (q_guard s, clock s)" for c p s
    by (rule keepsD [OF publish(1)]) (rule refl)
  have "guarded_handler mem_guard guard_expiry h calls"
    using assms(1-4) publish(2) update' record' publish'
    by unfold_locales (auto simp: run_mem_Acquire guard_expiry_def split: option.split intro!: keepsI)
  from guarded_handler.deliveries_bounded [OF this \<open>within_ttl s\<close>] show ?thesis .
qed

text \<open>Three deliveries of two tasks of one content, at a clock that stands still.\<close>

definition still_world :: DeliveryWorld where
  "still_world = QueueWorld.extend (queue_world (env0\<lparr>clock := \<lambda>_. 0\<rparr>))
     (DeliveryWorld.fields \<lparr>mp_publish_fn = None, mp_result = None, mp_err = Some (Errorf ''timeout''), mp_calls = []\<rparr>)"

theorem concurrent_deliveries_once_witness:
  "publisher_calls (snd (run_schedule [0, 1, 2, 0, 1, 2, 1, 0, 2, 1, 0, 2, 1, 1, 1, 0]
       (map (\<lambda>pl. p_queue_HandlePublish delivery_handler pl Done)
         [example_payload, example_payload, example_payload\<lparr>pl_platform := ''y''\<rparr>]) still_world)) \<le> 2"
proof -
  let ?pls = "[example_payload, example_payload, example_payload\<lparr>pl_platform := ''y''\<rparr>]"
  let ?js = "[0, 1, 2, 0, 1, 2, 1, 0, 2, 1, 0, 2, 1, 1, 1, 0]"
  have "publisher_calls (snd (run_schedule ?js (map (\<lambda>pl. p_queue_HandlePublish delivery_handler pl Done) ?pls) still_world)) \<le>
      publisher_calls still_world +
        card (payload_key ` set ?pls - held_keys guard_expiry (payload_key ` set ?pls) still_world)"
  proof (rule concurrent_deliveries_once)
    show "within_ttl still_world"
      by (simp add: within_ttl_def idempotencyTTL_def still_world_def queue_world_def run_pts_CreateTask Let_def
          NewPublishMemory_def DeliveryWorld.defs QueueWorld.defs PublishMemory.defs env.defs pm_combos_def)
  qed (auto simp: delivery_handler_def publisher_calls_def record_post_def run_pts_GetTask
      run_pts_UpdateTaskStatus run_pps_CreatePlatformPost world_publisher_def split_def queue_mock_calls Let_def
      split: option.split sum.split intro!: keepsI)
  also have "publisher_calls still_world = 0"
    by (simp add: publisher_calls_def still_world_def DeliveryWorld.defs QueueWorld.defs)
  also have "card (payload_key ` set ?pls - held_keys guard_expiry (payload_key ` set ?pls) still_world) \<le>
      card (payload_key ` set ?pls)"
    by (rule card_mono) auto
  also have "card (payload_key ` set ?pls) \<le> 2"
    by (simp add: card_insert_if payload_key_def)
  finally show ?thesis by simp
qed

end
