(* ===== verification/GoUtf8.thy ===== *)
theory GoUtf8
  imports GoJson
begin

text \<open>
  The bytes of JSON strings: UTF-8 as \<open>unicode/utf8\<close> decodes and encodes it, \<open>appendString\<close> of
  \<open>encoding/json\<close> (with the escaping of HTML, as \<open>Marshal\<close> and \<open>Encoder\<close> have it) and the reading
  of a string literal (the scanner's string states and \<open>unquoteBytes\<close>). The main fact is the round trip
  \<open>unquote_escape\<close>: what is read back is the string with its invalid bytes replaced, so a string in
  UTF-8 is read back as it was.
\<close>

section \<open>UTF-8\<close>

abbreviation byte_of :: "char \<Rightarrow> nat" where
  "byte_of \<equiv> of_char"

text \<open>The ranges of the bytes behind a first byte, or \<open>None\<close> where no encoding starts so.\<close>

definition rune_tail :: "nat \<Rightarrow> (nat \<times> nat) list option" where
  "rune_tail b =
     (if b < 0x80 then Some []
      else if b < 0xC2 then None
      else if b < 0xE0 then Some [(0x80, 0xBF)]
      else if b = 0xE0 then Some [(0xA0, 0xBF), (0x80, 0xBF)]
      else if b = 0xED then Some [(0x80, 0x9F), (0x80, 0xBF)]
      else if b < 0xF0 then Some [(0x80, 0xBF), (0x80, 0xBF)]
      else if b = 0xF0 then Some [(0x90, 0xBF), (0x80, 0xBF), (0x80, 0xBF)]
      else if b < 0xF4 then Some [(0x80, 0xBF), (0x80, 0xBF), (0x80, 0xBF)]
      else if b = 0xF4 then Some [(0x80, 0x8F), (0x80, 0xBF), (0x80, 0xBF)]
      else None)"

fun fits :: "(nat \<times> nat) list \<Rightarrow> string \<Rightarrow> bool" where
  "fits [] s = True"
| "fits (r # rs) [] = False"
| "fits ((lo, hi) # rs) (c # s) = (lo \<le> byte_of c \<and> byte_of c \<le> hi \<and> fits rs s)"

text \<open>The length of the rune a string starts with: 0 where \<open>DecodeRune\<close> finds none.\<close>

definition rune_len :: "string \<Rightarrow> nat" where
  "rune_len s =
     (case s of
        [] \<Rightarrow> 0
      | c # t \<Rightarrow>
          (case rune_tail (byte_of c) of
             None \<Rightarrow> 0
           | Some rs \<Rightarrow> if fits rs t then Suc (length rs) else 0))"

text \<open>\<open>AppendRune\<close>.\<close>

definition encode_rune :: "nat \<Rightarrow> string" where
  "encode_rune r =
     bytes
       (if r < 0x80 then [r]
        else if r < 0x800 then [0xC0 + r div 0x40, 0x80 + r mod 0x40]
        else if r < 0x10000 then
          [0xE0 + r div 0x1000, 0x80 + r div 0x40 mod 0x40, 0x80 + r mod 0x40]
        else
          [0xF0 + r div 0x40000, 0x80 + r div 0x1000 mod 0x40, 0x80 + r div 0x40 mod 0x40,
           0x80 + r mod 0x40])"

definition RuneError :: string where
  "RuneError = bytes [0xEF, 0xBF, 0xBD]"

lemma fits_take: "length rs \<le> length s \<Longrightarrow> fits rs (take (length rs) s @ t) \<longleftrightarrow> fits rs s"
  by (induction rs s rule: fits.induct) auto

lemma fits_length: "fits rs s \<Longrightarrow> length rs \<le> length s"
  by (induction rs s rule: fits.induct) auto

lemma rune_len_le: "rune_len s \<le> length s"
  by (auto simp: rune_len_def dest: fits_length split: list.split option.split)

lemma rune_len_take: "rune_len s \<noteq> 0 \<Longrightarrow> rune_len (take (rune_len s) s @ t) = rune_len s"
  using fits_take [where t = t]
  by (auto simp: rune_len_def fits_length split: list.splits option.splits if_splits)

lemma rune_len_ascii [simp]: "byte_of c < 0x80 \<Longrightarrow> rune_len (c # s) = 1"
  by (simp add: rune_len_def rune_tail_def)

text \<open>A string with every byte that starts no rune replaced by \<open>RuneError\<close>.\<close>

function to_valid :: "string \<Rightarrow> string" where
  "to_valid s =
     (if s = [] then []
      else if rune_len s = 0 then RuneError @ to_valid (drop 1 s)
      else take (rune_len s) s @ to_valid (drop (rune_len s) s))"
  by auto
termination
  by (relation "measure length") (auto simp: neq_Nil_conv)

declare to_valid.simps [simp del]

text \<open>\<open>utf8.ValidString\<close>.\<close>

function utf8 :: "string \<Rightarrow> bool" where
  "utf8 s = (if s = [] then True else if rune_len s = 0 then False else utf8 (drop (rune_len s) s))"
  by auto
termination
  by (relation "measure length") auto

declare utf8.simps [simp del]

lemma to_valid_utf8: "utf8 s \<Longrightarrow> to_valid s = s"
proof (induction s rule: utf8.induct)
  case (1 s)
  then show ?case
    by (auto simp: to_valid.simps [of s] utf8.simps [of s] split: if_splits)
qed

lemma utf8_ascii: "list_all (\<lambda>c. byte_of c < 0x80) s \<Longrightarrow> utf8 s"
  by (induction s) (simp_all add: utf8.simps)

lemma to_valid_ascii [simp]: "list_all (\<lambda>c. byte_of c < 0x80) s \<Longrightarrow> to_valid s = s"
  by (simp add: to_valid_utf8 utf8_ascii)

section \<open>String literals\<close>

definition escape_letter :: "char \<Rightarrow> char option" where
  "escape_letter =
     map_of
       [(CHR 0x22, CHR 0x22), (CHR 0x5C, CHR 0x5C), (CHR 0x08, CHR ''b''), (CHR 0x0C, CHR ''f''),
        (CHR 0x0A, CHR ''n''), (CHR 0x0D, CHR ''r''), (CHR 0x09, CHR ''t'')]"

definition unescape_letter :: "char \<Rightarrow> char option" where
  "unescape_letter =
     map_of
       [(CHR 0x22, CHR 0x22), (CHR 0x5C, CHR 0x5C), (CHR ''b'', CHR 0x08), (CHR ''f'', CHR 0x0C),
        (CHR ''n'', CHR 0x0A), (CHR ''r'', CHR 0x0D), (CHR ''t'', CHR 0x09), (CHR ''/'', CHR ''/'')]"

text \<open>What is written for a rune: \<open>r\<close> is its encoding.\<close>

definition html_unsafe :: "char set" where
  "html_unsafe = {CHR ''<'', CHR ''>'', CHR ''&''}"

definition escape_ascii :: "char \<Rightarrow> string" where
  "escape_ascii c =
     (case escape_letter c of
        Some e \<Rightarrow> [CHR 0x5C, e]
      | None \<Rightarrow>
          if byte_of c < 0x20 \<or> c \<in> html_unsafe
          then [CHR 0x5C] @ ''u00'' @ [digit (byte_of c div 16), digit (byte_of c mod 16)]
          else [c])"

definition escape_rune :: "string \<Rightarrow> string" where
  "escape_rune r =
     (if length r = 1 then escape_ascii (hd r)
      else if r = encode_rune 0x2028 then [CHR 0x5C] @ ''u2028''
      else if r = encode_rune 0x2029 then [CHR 0x5C] @ ''u2029''
      else r)"

function escape :: "string \<Rightarrow> string" where
  "escape s =
     (if s = [] then []
      else if rune_len s = 0 then [CHR 0x5C] @ ''ufffd'' @ escape (drop 1 s)
      else escape_rune (take (rune_len s) s) @ escape (drop (rune_len s) s))"
  by auto
termination
  by (relation "measure length") (auto simp: neq_Nil_conv)

declare escape.simps [simp del]

definition string_text :: "string \<Rightarrow> string" where
  "string_text s = [CHR 0x22] @ escape s @ [CHR 0x22]"

definition hex_value :: "char \<Rightarrow> nat option" where
  "hex_value c =
     (let n = byte_of c
      in if 48 \<le> n \<and> n \<le> 57 then Some (n - 48)
         else if 97 \<le> n \<and> n \<le> 102 then Some (n - 87)
         else if 65 \<le> n \<and> n \<le> 70 then Some (n - 55)
         else None)"

text \<open>\<open>getu4\<close> behind the backslash and the \<open>u\<close>.\<close>

fun hex4 :: "string \<Rightarrow> nat option" where
  "hex4 (a # b # c # d # _) =
     (case (hex_value a, hex_value b, hex_value c, hex_value d) of
        (Some i, Some j, Some k, Some l) \<Rightarrow> Some (((i * 16 + j) * 16 + k) * 16 + l)
      | _ \<Rightarrow> None)"
| "hex4 _ = None"

text \<open>The rune of a surrogate pair whose second half is at the front of \<open>s\<close>, behind a backslash.\<close>

definition low_surrogate :: "nat \<Rightarrow> string \<Rightarrow> nat option" where
  "low_surrogate r s =
     (if starts_with s [CHR 0x5C, CHR ''u''] then
        (case hex4 (drop 2 s) of
           Some r1 \<Rightarrow>
             if r < 0xDC00 \<and> 0xDC00 \<le> r1 \<and> r1 < 0xE000
             then Some ((r - 0xD800) * 0x400 + (r1 - 0xDC00) + 0x10000) else None
         | None \<Rightarrow> None)
      else None)"

text \<open>
  The runes of one \<open>u\<close> escape and how many bytes it takes behind the \<open>u\<close>: a surrogate without its
  other half is an error rune.
\<close>

definition unicode_escape :: "string \<Rightarrow> (string \<times> nat) option" where
  "unicode_escape s =
     (case hex4 s of
        None \<Rightarrow> None
      | Some r \<Rightarrow>
          if 0xD800 \<le> r \<and> r < 0xE000 then
            (case low_surrogate r (drop 4 s) of
               Some rr \<Rightarrow> Some (encode_rune rr, 10)
             | None \<Rightarrow> Some (RuneError, 4))
          else Some (encode_rune r, 4))"

text \<open>What is read at the front of a literal: its bytes, and how many were read.\<close>

definition unquote_step :: "string \<Rightarrow> (string \<times> nat) option" where
  "unquote_step s =
     (if starts_with s [CHR 0x5C, CHR ''u''] then
        map_option (\<lambda>(r, n). (r, n + 2)) (unicode_escape (drop 2 s))
      else if starts_with s [CHR 0x5C] then
        (if length s < 2 then None else map_option (\<lambda>c. ([c], 2)) (unescape_letter (s ! 1)))
      else if byte_of (hd s) < 0x20 then None
      else if rune_len s = 0 then Some (RuneError, 1)
      else Some (take (rune_len s) s, rune_len s))"

lemma unquote_step_pos: "unquote_step s = Some (r, n) \<Longrightarrow> 0 < n"
  by (auto simp: unquote_step_def split: if_splits)

text \<open>The literal behind its opening quote, and what follows its closing quote.\<close>

function unquote :: "string \<Rightarrow> (string \<times> string) option" where
  "unquote s =
     (if s = [] then None
      else if hd s = CHR 0x22 then Some ([], tl s)
      else case unquote_step s of
             None \<Rightarrow> None
           | Some (r, n) \<Rightarrow> map_option (\<lambda>(x, rest). (r @ x, rest)) (unquote (drop n s)))"
  by auto
termination
  by (relation "measure length") (auto dest: unquote_step_pos)

declare unquote.simps [simp del]

section \<open>The round trip\<close>

text \<open>\<open>t\<close> is read at the front of a literal as \<open>r\<close>.\<close>

definition reads_as :: "string \<Rightarrow> string \<Rightarrow> bool" where
  "reads_as t r \<longleftrightarrow>
     t \<noteq> [] \<and> hd t \<noteq> CHR 0x22 \<and> (\<forall>u. unquote_step (t @ u) = Some (r, length t))"

lemma unquote_reads_as:
  "reads_as t r \<Longrightarrow> unquote (t @ u) = map_option (\<lambda>(x, rest). (r @ x, rest)) (unquote u)"
  by (subst unquote.simps) (simp add: reads_as_def)

lemma hex_value_digits: "list_all (\<lambda>n. hex_value (digit n) = Some n) [0..<16]"
  by (simp add: upt_conv_Cons digit_def hex_value_def)

lemma hex_value_digit [simp]: "n < 16 \<Longrightarrow> hex_value (digit n) = Some n"
  using hex_value_digits by (simp add: list_all_iff)

lemma hex_value_0: "hex_value (CHR ''0'') = Some 0"
  by (simp add: hex_value_def)

lemma reads_as_u:
  "hex4 [a, b, c, d] = Some r \<Longrightarrow> \<not> (0xD800 \<le> r \<and> r < 0xE000) \<Longrightarrow>
     reads_as [CHR 0x5C, CHR ''u'', a, b, c, d] (encode_rune r)"
  by (auto simp: reads_as_def unquote_step_def starts_with_def unicode_escape_def split: option.splits)

lemma unescape_escape_letter:
  "escape_letter c = Some e \<Longrightarrow> unescape_letter e = Some c \<and> e \<noteq> CHR ''u''"
  by (auto simp: escape_letter_def unescape_letter_def split: if_splits)

lemma reads_as_ascii:
  assumes "byte_of c < 0x80"
  shows "reads_as (escape_ascii c) [c]"
proof (cases "escape_letter c")
  case (Some e)
  then show ?thesis
    using unescape_escape_letter [OF Some]
    by (simp add: reads_as_def escape_ascii_def unquote_step_def starts_with_def)
next
  case None
  then have "c \<noteq> CHR 0x22" "c \<noteq> CHR 0x5C" by (auto simp: escape_letter_def)
  moreover have "reads_as [CHR 0x5C, CHR ''u'', CHR ''0'', CHR ''0'', digit (byte_of c div 16), digit (byte_of c mod 16)] [c]"
    using reads_as_u [of "CHR ''0''" "CHR ''0''" "digit (byte_of c div 16)" "digit (byte_of c mod 16)" "byte_of c"] assms
    by (simp add: hex_value_0 encode_rune_def)
  ultimately show ?thesis
    using assms None
    by (auto simp: escape_ascii_def reads_as_def unquote_step_def starts_with_def)
qed

lemma reads_as_rune:
  assumes "rune_len r = length r" "r \<noteq> []"
  shows "reads_as (escape_rune r) r"
proof -
  obtain c t where r: "r = c # t" using assms(2) by (cases r) auto
  consider "length r = 1" | "length r \<noteq> 1" "r \<in> {encode_rune 0x2028, encode_rune 0x2029}"
    | "length r \<noteq> 1" "r \<notin> {encode_rune 0x2028, encode_rune 0x2029}" by blast
  then show ?thesis
  proof cases
    case 1
    then have "byte_of c < 0x80"
      using assms(1) r by (auto simp: rune_len_def rune_tail_def split: option.splits if_splits)
    with 1 r show ?thesis by (simp add: escape_rune_def reads_as_ascii)
  next
    case 2
    have "reads_as [CHR 0x5C, CHR ''u'', CHR ''2'', CHR ''0'', CHR ''2'', CHR ''8''] (encode_rune 0x2028)"
      "reads_as [CHR 0x5C, CHR ''u'', CHR ''2'', CHR ''0'', CHR ''2'', CHR ''9''] (encode_rune 0x2029)"
      by (intro reads_as_u; simp add: hex_value_def)+
    with 2 show ?thesis by (auto simp: escape_rune_def)
  next
    case 3
    then have "0x80 \<le> byte_of c"
      using assms r by (auto simp: rune_len_def rune_tail_def split: option.splits if_splits)
    then have "c \<noteq> CHR 0x22" "c \<noteq> CHR 0x5C" by auto
    moreover have "rune_len (r @ u) = length r" for u
      using rune_len_take [of r u] assms by simp
    ultimately show ?thesis
      using \<open>0x80 \<le> byte_of c\<close> 3 r
      by (simp add: escape_rune_def reads_as_def unquote_step_def starts_with_def)
  qed
qed

lemma unquote_escape: "unquote (escape s @ CHR 0x22 # rest) = Some (to_valid s, rest)"
proof (induction s rule: escape.induct)
  case (1 s)
  consider "s = []" | "s \<noteq> []" "rune_len s = 0" | "s \<noteq> []" "rune_len s \<noteq> 0" by blast
  then show ?case
  proof cases
    case 1
    then show ?thesis by (simp add: escape.simps unquote.simps to_valid.simps)
  next
    case 2
    have "reads_as ([CHR 0x5C] @ ''ufffd'') RuneError"
      using reads_as_u [of "CHR ''f''" "CHR ''f''" "CHR ''f''" "CHR ''d''" "0xFFFD"]
      by (simp add: hex_value_def encode_rune_def RuneError_def)
    from unquote_reads_as [OF this] 2 "1.IH"(1) show ?thesis
      by (simp add: escape.simps [of s] to_valid.simps [of s])
  next
    case 3
    have "reads_as (escape_rune (take (rune_len s) s)) (take (rune_len s) s)"
      using rune_len_take [of s "[]"] rune_len_le [of s] 3 by (intro reads_as_rune) auto
    from unquote_reads_as [OF this] 3 "1.IH"(2) show ?thesis
      by (simp add: escape.simps [of s] to_valid.simps [of s])
  qed
qed

end
