(* ===== verification/GoJsonText.thy ===== *)
theory GoJsonText
  imports GoUtf8
begin

text \<open>
  Texts of JSON: the grammar the scanner of \<open>encoding/json\<close> accepts, read into document trees
  (\<open>parse_document\<close> as \<open>Unmarshal\<close> reads a byte slice, \<open>decode_stream\<close> as a \<open>Decoder\<close> reads the first
  value of a request body), and the text \<open>Marshal\<close> writes. \<open>read_json_text\<close> is the round trip. Values
  nest at most 10000 deep. The parser recurses on fuel; \<open>parse_fuel\<close> says that what \<open>parse_document\<close> and
  \<open>decode_stream\<close> give it is enough, whatever the text.
\<close>

section \<open>The grammar\<close>

definition skip :: "string \<Rightarrow> string" where
  "skip s = dropWhile (\<lambda>c. c \<in> {CHR '' '', CHR 0x09, CHR 0x0A, CHR 0x0D}) s"

definition is_digit :: "char \<Rightarrow> bool" where
  "is_digit c \<longleftrightarrow> 48 \<le> byte_of c \<and> byte_of c \<le> 57"

text \<open>The digits at the front, of which there is at least one.\<close>

definition parse_digits :: "string \<Rightarrow> (string \<times> string) option" where
  "parse_digits s =
     (let ds = takeWhile is_digit s in if ds = [] then None else Some (ds, dropWhile is_digit s))"

definition parse_integer :: "string \<Rightarrow> (string \<times> string) option" where
  "parse_integer s = (if starts_with s ''0'' then Some (''0'', tl s) else parse_digits s)"

definition parse_fraction :: "string \<Rightarrow> (string \<times> string) option" where
  "parse_fraction s = (if starts_with s ''.'' then parse_digits (tl s) else Some ([], s))"

definition parse_exponent :: "string \<Rightarrow> (int \<times> string) option" where
  "parse_exponent s =
     (if starts_with s ''e'' \<or> starts_with s ''E'' then
        (let t = tl s; neg = starts_with t ''-'';
             t = (if neg \<or> starts_with t ''+'' then tl t else t)
         in map_option (\<lambda>(ds, r). ((if neg then - 1 else 1) * int (read_dec ds), r)) (parse_digits t))
      else Some (0, s))"

definition scale10 :: "rat \<Rightarrow> int \<Rightarrow> rat" where
  "scale10 q e = (if 0 \<le> e then q * 10 ^ nat e else q / 10 ^ nat (- e))"

definition parse_number :: "string \<Rightarrow> (json \<times> string) option" where
  "parse_number s =
     (let neg = starts_with s ''-''
      in do {
        (ds, s) \<leftarrow> parse_integer (if neg then tl s else s);
        (fs, s) \<leftarrow> parse_fraction s;
        (e, s) \<leftarrow> parse_exponent s;
        let q = scale10 (of_nat (read_dec (ds @ fs))) (e - int (length fs));
        Some (JNumber (if neg then - q else q), s)
      })"

text \<open>
  A value, the values of an array behind its bracket, the members of an object behind its brace.
  \<open>d\<close> is how much deeper values may nest.
\<close>

fun parse_value :: "nat \<Rightarrow> nat \<Rightarrow> string \<Rightarrow> (json \<times> string) option"
  and parse_elements :: "nat \<Rightarrow> nat \<Rightarrow> string \<Rightarrow> (json list \<times> string) option"
  and parse_members :: "nat \<Rightarrow> nat \<Rightarrow> string \<Rightarrow> ((string \<times> json) list \<times> string) option" where
  "parse_value 0 d s = None"
| "parse_value (Suc f) d s =
     (let s = skip s
      in if starts_with s [CHR 0x22] then map_option (\<lambda>(x, r). (JString x, r)) (unquote (tl s))
         else if starts_with s ''{'' then
           (let t = skip (tl s)
            in if d = 0 then None
               else if starts_with t ''}'' then Some (JObject [], tl t)
               else map_option (\<lambda>(ms, r). (JObject ms, r)) (parse_members f (d - 1) t))
         else if starts_with s ''['' then
           (let t = skip (tl s)
            in if d = 0 then None
               else if starts_with t '']'' then Some (JArray [], tl t)
               else map_option (\<lambda>(js, r). (JArray js, r)) (parse_elements f (d - 1) t))
         else if starts_with s ''null'' then Some (JNull, drop 4 s)
         else if starts_with s ''true'' then Some (JBool True, drop 4 s)
         else if starts_with s ''false'' then Some (JBool False, drop 5 s)
         else parse_number s)"
| "parse_elements 0 d s = None"
| "parse_elements (Suc f) d s =
     (case parse_value f d s of
        None \<Rightarrow> None
      | Some (j, r) \<Rightarrow>
          (let t = skip r
           in if starts_with t '']'' then Some ([j], tl t)
              else if starts_with t '','' then
                map_option (\<lambda>(js, r). (j # js, r)) (parse_elements f d (tl t))
              else None))"
| "parse_members 0 d s = None"
| "parse_members (Suc f) d s =
     (let s = skip s
      in if \<not> starts_with s [CHR 0x22] then None
         else case unquote (tl s) of
           None \<Rightarrow> None
         | Some (k, r) \<Rightarrow>
             (let t = skip r
              in if \<not> starts_with t '':'' then None
                 else case parse_value f d (tl t) of
                   None \<Rightarrow> None
                 | Some (j, r) \<Rightarrow>
                     (let t = skip r
                      in if starts_with t ''}'' then Some ([(k, j)], tl t)
                         else if starts_with t '','' then
                           map_option (\<lambda>(ms, r). ((k, j) # ms, r)) (parse_members f d (tl t))
                         else None)))"

definition maxNestingDepth :: nat where
  "maxNestingDepth = 10000"

definition enough_fuel :: "string \<Rightarrow> nat" where
  "enough_fuel s = 2 * length s + 1"

definition decode_stream :: "string \<Rightarrow> json option" where
  "decode_stream s = map_option fst (parse_value (enough_fuel s) maxNestingDepth s)"

definition parse_document :: "string \<Rightarrow> json option" where
  "parse_document s =
     (case parse_value (enough_fuel s) maxNestingDepth s of
        Some (j, r) \<Rightarrow> if skip r = [] then Some j else None
      | None \<Rightarrow> None)"

section \<open>Texts of documents\<close>

text \<open>
  The text \<open>Marshal\<close> writes, for documents without numbers and times (\<open>plain\<close>), and what is read back
  from it: the document with the invalid bytes of its strings replaced.
\<close>

fun json_text :: "json \<Rightarrow> string"
  and elements_text :: "json list \<Rightarrow> string"
  and members_text :: "(string \<times> json) list \<Rightarrow> string" where
  "json_text JNull = ''null''"
| "json_text (JBool b) = fmt_bool b"
| "json_text (JString s) = string_text s"
| "json_text (JArray js) = ''['' @ elements_text js @ '']''"
| "json_text (JObject kvs) = ''{'' @ members_text kvs @ ''}''"
| "json_text _ = []"
| "elements_text [] = []"
| "elements_text [j] = json_text j"
| "elements_text (j # js) = json_text j @ '','' @ elements_text js"
| "members_text [] = []"
| "members_text [(k, j)] = string_text k @ '':'' @ json_text j"
| "members_text ((k, j) # kvs) = string_text k @ '':'' @ json_text j @ '','' @ members_text kvs"

fun plain :: "json \<Rightarrow> bool" where
  "plain (JArray js) = (\<forall>j \<in> set js. plain j)"
| "plain (JObject kvs) = (\<forall>kj \<in> set kvs. plain (snd kj))"
| "plain (JNumber q) = False"
| "plain (JTime t) = False"
| "plain _ = True"

fun valid_json :: "json \<Rightarrow> json" where
  "valid_json (JString s) = JString (to_valid s)"
| "valid_json (JArray js) = JArray (map valid_json js)"
| "valid_json (JObject kvs) = JObject (map (\<lambda>(k, j). (to_valid k, valid_json j)) kvs)"
| "valid_json j = j"

fun nesting :: "json \<Rightarrow> nat" where
  "nesting (JArray js) = Suc (foldr (\<lambda>j. max (nesting j)) js 0)"
| "nesting (JObject kvs) = Suc (foldr (\<lambda>kj. max (nesting (snd kj))) kvs 0)"
| "nesting _ = 0"

section \<open>What is written is read back\<close>

lemma starts_with_Cons [simp]: "starts_with (c # s) [x] \<longleftrightarrow> c = x"
  by (simp add: starts_with_def)

lemma starts_with_Nil [simp]: "starts_with [] (x # xs) = False"
  by (simp add: starts_with_def)

lemma skip_Cons [simp]:
  "c \<notin> {CHR '' '', CHR 0x09, CHR 0x0A, CHR 0x0D} \<Longrightarrow> skip (c # s) = c # s"
  by (simp add: skip_def)

lemma string_text_append [simp]: "string_text s @ t = CHR 0x22 # escape s @ CHR 0x22 # t"
  by (simp add: string_text_def)

lemma parse_string_text [simp]:
  "parse_value (Suc f) d (CHR 0x22 # escape s @ CHR 0x22 # r) = Some (JString (to_valid s), r)"
  by (simp add: Let_def unquote_escape)

text \<open>The steps of the two lists, where what follows a value is a comma or the end.\<close>

lemma parse_elements_step:
  assumes "parse_value f d (t @ c # r) = Some (j, c # r)"
  shows "c = CHR '']'' \<Longrightarrow> parse_elements (Suc f) d (t @ c # r) = Some ([j], r)"
    and "c = CHR '','' \<Longrightarrow> parse_elements (Suc f) d (t @ c # r) =
      map_option (\<lambda>(js, r). (j # js, r)) (parse_elements f d r)"
  using assms by simp_all

lemma parse_members_step:
  assumes "parse_value f d (t @ c # r) = Some (j, c # r)"
  shows "c = CHR ''}'' \<Longrightarrow>
      parse_members (Suc f) d (string_text k @ '':'' @ t @ c # r) = Some ([(to_valid k, j)], r)"
    and "c = CHR '','' \<Longrightarrow>
      parse_members (Suc f) d (string_text k @ '':'' @ t @ c # r) =
      map_option (\<lambda>(ms, r). ((to_valid k, j) # ms, r)) (parse_members f d r)"
  using assms
  by (simp_all add: unquote_escape del: parse_value.simps parse_members.simps
      add: parse_members.simps(2) [of f d "CHR 0x22 # x" for x])

text \<open>The text of a value is not empty and starts with no white space or closing bracket.\<close>

lemma json_text_first:
  "plain j \<Longrightarrow> \<exists>c t. json_text j = c # t \<and> c \<notin> {CHR '' '', CHR 0x09, CHR 0x0A, CHR 0x0D, CHR '']'', CHR ''}''}"
  by (cases j) (auto simp: fmt_bool_def string_text_def)

lemma elements_text_first:
  "plain (JArray js) \<Longrightarrow> js \<noteq> [] \<Longrightarrow>
     \<exists>c t. elements_text js = c # t \<and> c \<notin> {CHR '' '', CHR 0x09, CHR 0x0A, CHR 0x0D, CHR '']''}"
  using json_text_first [of "hd js"] by (cases js rule: elements_text.cases) auto

lemma members_text_first: "kvs \<noteq> [] \<Longrightarrow> \<exists>t. members_text kvs = CHR 0x22 # t"
  by (cases kvs rule: members_text.cases) auto

lemma parse_json_text:
  "plain j \<Longrightarrow> nesting j \<le> d \<Longrightarrow> 2 * length (json_text j) < f \<Longrightarrow>
     parse_value f d (json_text j @ r) = Some (valid_json j, r)"
  "plain (JArray js) \<Longrightarrow> nesting (JArray js) \<le> Suc d \<Longrightarrow> js \<noteq> [] \<Longrightarrow> 2 * length (elements_text js) + 1 < f \<Longrightarrow>
     parse_elements f d (elements_text js @ CHR '']'' # r) = Some (map valid_json js, r)"
  "plain (JObject kvs) \<Longrightarrow> nesting (JObject kvs) \<le> Suc d \<Longrightarrow> kvs \<noteq> [] \<Longrightarrow> 2 * length (members_text kvs) + 1 < f \<Longrightarrow>
     parse_members f d (members_text kvs @ CHR ''}'' # r) =
       Some (map (\<lambda>(k, j). (to_valid k, valid_json j)) kvs, r)"
proof (induction j and js and kvs arbitrary: d f r and d f r and d f r
    rule: json_text_elements_text_members_text.induct)
  case 1
  then show ?case by (cases f) (simp_all add: Let_def starts_with_def)
next
  case (2 b)
  then show ?case by (cases f) (simp_all add: Let_def starts_with_def fmt_bool_def)
next
  case (3 s)
  then show ?case by (cases f) (simp_all del: parse_value.simps add: parse_value.simps(1))
next
  case (4 js)
  then obtain f' d' where f: "f = Suc f'" "d = Suc d'" by (cases f; cases d) auto
  show ?case
  proof (cases "js = []")
    case True
    then show ?thesis by (simp add: f Let_def)
  next
    case False
    obtain c t where t: "elements_text js = c # t" "c \<notin> {CHR '' '', CHR 0x09, CHR 0x0A, CHR 0x0D, CHR '']''}"
      using elements_text_first [OF "4.prems"(1) False] by blast
    have "parse_elements f' d' (elements_text js @ CHR '']'' # r) = Some (map valid_json js, r)"
      using 4 False f by auto
    with t show ?thesis by (simp add: f Let_def)
  qed
next
  case (5 kvs)
  then obtain f' d' where f: "f = Suc f'" "d = Suc d'" by (cases f; cases d) auto
  show ?case
  proof (cases "kvs = []")
    case True
    then show ?thesis by (simp add: f Let_def)
  next
    case False
    obtain t where t: "members_text kvs = CHR 0x22 # t" using members_text_first [OF False] by blast
    have "parse_members f' d' (members_text kvs @ CHR ''}'' # r) =
        Some (map (\<lambda>(k, j). (to_valid k, valid_json j)) kvs, r)"
      using 5 False f by auto
    with t show ?thesis by (simp add: f Let_def)
  qed
next
  case (8 j)
  then obtain f' where f: "f = Suc f'" by (cases f) auto
  have "parse_value f' d (json_text j @ CHR '']'' # r) = Some (valid_json j, CHR '']'' # r)"
    using 8 f by (intro "8.IH") auto
  from parse_elements_step(1) [OF this refl] show ?case by (simp add: f del: parse_elements.simps)
next
  case (9 j j' js)
  then obtain f' where f: "f = Suc f'" by (cases f) auto
  have "parse_value f' d (json_text j @ CHR '','' # elements_text (j' # js) @ CHR '']'' # r) =
      Some (valid_json j, CHR '','' # elements_text (j' # js) @ CHR '']'' # r)"
    using 9 f by (intro "9.IH"(1)) auto
  moreover have "parse_elements f' d (elements_text (j' # js) @ CHR '']'' # r) = Some (map valid_json (j' # js), r)"
    using "9.prems" f by (intro "9.IH"(2)) auto
  ultimately show ?case
    using parse_elements_step(2) by (simp add: f del: parse_elements.simps)
next
  case (11 k j)
  then obtain f' where f: "f = Suc f'" by (cases f) auto
  have "parse_value f' d (json_text j @ CHR ''}'' # r) = Some (valid_json j, CHR ''}'' # r)"
    using 11 f by (intro "11.IH") auto
  from parse_members_step(1) [OF this refl, of k] show ?case by (simp add: f del: parse_members.simps)
next
  case (12 k j kv kvs)
  then obtain f' where f: "f = Suc f'" by (cases f) auto
  have "parse_value f' d (json_text j @ CHR '','' # members_text (kv # kvs) @ CHR ''}'' # r) =
      Some (valid_json j, CHR '','' # members_text (kv # kvs) @ CHR ''}'' # r)"
    using 12 f by (intro "12.IH"(1)) auto
  from parse_members_step(2) [OF this refl, of k]
  moreover have "parse_members f' d (members_text (kv # kvs) @ CHR ''}'' # r) =
      Some (map (\<lambda>(k, j). (to_valid k, valid_json j)) (kv # kvs), r)"
    using "12.prems" f by (intro "12.IH"(2)) auto
  ultimately show ?case by (simp add: f del: parse_members.simps)
qed simp_all

lemma plain_strings [simp]:
  "valid_json (JArray (map JString xs)) = JArray (map JString (map to_valid xs))"
  "nesting (JArray (map JString xs)) = 1" "plain (JArray (map JString xs))"
  by (induction xs) auto

text \<open>Both readers give the document back, up to invalid bytes.\<close>

lemma read_json_text:
  assumes "plain j" "nesting j \<le> maxNestingDepth"
  shows "parse_document (json_text j) = Some (valid_json j)"
    and "decode_stream (json_text j @ r) = Some (valid_json j)"
proof -
  have *: "parse_value (enough_fuel (json_text j @ r)) maxNestingDepth (json_text j @ r) = Some (valid_json j, r)" for r
    by (rule parse_json_text(1) [OF assms]) (simp add: enough_fuel_def)
  from * [of "[]"] show "parse_document (json_text j) = Some (valid_json j)"
    by (simp add: parse_document_def skip_def)
  from * show "decode_stream (json_text j @ r) = Some (valid_json j)"
    by (simp add: decode_stream_def)
qed

section \<open>The fuel is enough\<close>

lemma skip_length: "length (skip s) \<le> length s"
  by (simp add: skip_def length_dropWhile_le)

lemma unquote_shorter: "unquote s = Some (x, r) \<Longrightarrow> length r < length s"
proof (induction s arbitrary: x rule: unquote.induct)
  case (1 s)
  then show ?case
    by (subst (asm) (2) unquote.simps)
      (fastforce split: if_splits option.splits simp: neq_Nil_conv)
qed

lemma parse_digits_shorter: "parse_digits s = Some (ds, r) \<Longrightarrow> length r < length s"
proof -
  assume *: "parse_digits s = Some (ds, r)"
  then have "s = ds @ r" "ds \<noteq> []"
    by (auto simp: parse_digits_def Let_def split: if_splits)
  then show ?thesis by simp
qed

lemma parse_number_shorter:
  assumes "parse_number s = Some (j, r)"
  shows "length r < length s"
proof -
  define t where "t = (if starts_with s ''-'' then tl s else s)"
  obtain ds a fs b e where "parse_integer t = Some (ds, a)"
    "parse_fraction a = Some (fs, b)" "parse_exponent b = Some (e, r)"
    using assms
    by (auto simp: parse_number_def Let_def t_def [symmetric] split: bind_splits prod.splits)
  moreover have "length t \<le> length s" by (simp add: t_def)
  ultimately have *: "length t \<le> length s" "parse_integer t = Some (ds, a)"
    "parse_fraction a = Some (fs, b)" "parse_exponent b = Some (e, r)" by blast+
  have "length a < length t"
    using *(2) by (cases t) (auto simp: parse_integer_def starts_with_def dest: parse_digits_shorter split: if_splits)
  moreover have "length b \<le> length a"
    using *(3) by (cases a) (auto simp: parse_fraction_def dest!: parse_digits_shorter split: if_splits)
  moreover have "length r \<le> length b"
    using *(4)
    by (cases b; cases "tl b")
      (auto simp: parse_exponent_def Let_def dest!: parse_digits_shorter split: if_splits)
  ultimately show ?thesis using *(1) by linarith
qed

lemma starts_with_Cons_iff: "starts_with s (x # xs) \<longleftrightarrow> (\<exists>t. s = x # t \<and> starts_with t xs)"
  by (cases s) (auto simp: starts_with_def)

lemma tl_shorter: "starts_with s (x # xs) \<Longrightarrow> length (tl s) < length s"
  by (cases s) auto

lemma starts_with_skip:
  "starts_with (skip s) (x # xs) \<Longrightarrow> \<exists>n. length (skip s) = Suc n \<and> Suc n \<le> length s"
  using skip_length [of s] by (auto simp: starts_with_Cons_iff)

lemma parse_shorter:
  "parse_value f d s = Some (j, r) \<Longrightarrow> length r < length s"
  "parse_elements f d s = Some (js, r) \<Longrightarrow> length r < length s"
  "parse_members f d s = Some (ms, r) \<Longrightarrow> length r < length s"
proof (induction f arbitrary: d s j r js ms)
  case (Suc f)
  note simps = parse_value.simps parse_elements.simps parse_members.simps Let_def
  note dests = Suc.IH unquote_shorter parse_number_shorter starts_with_skip
  {
    case 1
    then show ?case using skip_length [of s] skip_length [of "tl (skip s)"] unfolding simps
      by (auto split: if_splits dest!: dests)
  next
    case 2
    then show ?case using skip_length [of s] skip_length [of "tl (skip s)"] unfolding simps
      by (auto split: if_splits option.splits dest!: dests)
  next
    case 3
    then show ?case using skip_length [of s] skip_length [of "tl (skip s)"] unfolding simps
      by (auto split: if_splits option.splits dest!: dests) 
  }
qed simp_all

text \<open>Whatever is above the bound gives the same result.\<close>

lemma parse_fuel:
  "2 * length s < f \<Longrightarrow> 2 * length s < g \<Longrightarrow> parse_value f d s = parse_value g d s"
  "2 * length s + 1 < f \<Longrightarrow> 2 * length s + 1 < g \<Longrightarrow> parse_elements f d s = parse_elements g d s"
  "2 * length s + 1 < f \<Longrightarrow> 2 * length s + 1 < g \<Longrightarrow> parse_members f d s = parse_members g d s"
proof (induction f arbitrary: g d s)
  case (Suc f)
  {
    case 1
    then obtain g' where g: "g = Suc g'" by (cases g) auto
    let ?t = "skip (tl (skip s))"
    have "2 * length ?t + 1 < f \<and> 2 * length ?t + 1 < g'" if "starts_with (skip s) [c]" for c
      using 1 g starts_with_skip [OF that] skip_length [of "tl (skip s)"] by auto
    then have "parse_members f e ?t = parse_members g' e ?t"
      "parse_elements f e ?t = parse_elements g' e ?t" if "starts_with (skip s) [c]" for c e
      using that by (metis Suc.IH(3), metis Suc.IH(2))
    then show ?case by (simp add: g Let_def cong: if_cong)
  next
    case 2
    then obtain g' where g: "g = Suc g'" by (cases g) auto
    have "parse_value f d s = parse_value g' d s" using 2 g by (intro Suc.IH(1)) auto
    moreover have "parse_elements f d (tl (skip r)) = parse_elements g' d (tl (skip r))"
      if "parse_value g' d s = Some (j, r)" "starts_with (skip r) [c]" for j r c
      using 2 g parse_shorter(1) [OF that(1)] starts_with_skip [OF that(2)] by (intro Suc.IH(2)) auto
    ultimately show ?case by (simp add: g Let_def cong: if_cong split: option.split)
  next
    case 3
    then obtain g' where g: "g = Suc g'" by (cases g) auto
    have eqs: "parse_value f d (tl (skip r)) = parse_value g' d (tl (skip r)) \<and>
        (\<forall>j q c. parse_value g' d (tl (skip r)) = Some (j, q) \<longrightarrow> starts_with (skip q) [c] \<longrightarrow>
          parse_members f d (tl (skip q)) = parse_members g' d (tl (skip q)))"
      if "starts_with (skip s) [b]" "unquote (tl (skip s)) = Some (k, r)" "starts_with (skip r) [a]"
      for a b k r
    proof -
      have r: "2 * length (tl (skip r)) + 4 \<le> 2 * length s"
        using starts_with_skip [OF that(1)] unquote_shorter [OF that(2)] starts_with_skip [OF that(3)]
        by auto
      have "parse_members f d (tl (skip q)) = parse_members g' d (tl (skip q))"
        if "parse_value g' d (tl (skip r)) = Some (j, q)" "starts_with (skip q) [c]" for j q c
        using r 3 g parse_shorter(1) [OF that(1)] starts_with_skip [OF that(2)]
        by (intro Suc.IH(3)) auto
      moreover have "parse_value f d (tl (skip r)) = parse_value g' d (tl (skip r))"
        using r 3 g by (intro Suc.IH(1)) auto
      ultimately show ?thesis by blast
    qed
    show ?case
      using eqs [where a = "CHR '':''" and b = "CHR 0x22"]
      by (auto simp: g Let_def split: option.split)
  }
qed simp_all

end
