(* ===== verification/Api.thy ===== *)
theory Api
  imports StorageTypes Queue GoJsonText
begin

text \<open>
  \<open>internal/api/handlers.go\<close>: the HTTP handlers of the JSON API. A request is its parts the handler
  reads (the bytes of the body; the \<open>id\<close> of the path), a response
  is its status, content type and JSON body, and a handler is an operation on the program's state.
\<close>

section \<open>Responses\<close>

record Response =
  rs_status :: int
  rs_content_type :: string
  rs_body :: json

definition writeJSON :: "int \<Rightarrow> json \<Rightarrow> Response" where
  "writeJSON status v = \<lparr>rs_status = status, rs_content_type = ''application/json'', rs_body = v\<rparr>"

definition ErrorDetail_json :: "ErrorDetail \<Rightarrow> json" where
  "ErrorDetail_json d = JObject [(''field'', JString (ed_field d)), (''message'', JString (ed_message d))]"

definition AppError_json :: "AppError \<Rightarrow> json" where
  "AppError_json e =
     JObject ([(''error'', JString (ErrorCode_string (ae_code e))), (''message'', JString (ae_message e))] @
       (if ae_details e = [] then [] else [(''details'', JArray (map ErrorDetail_json (ae_details e)))]))"

definition TaskStatus_json :: "TaskStatus \<Rightarrow> json" where
  "TaskStatus_json t =
     JObject ([(''task_id'', JString (ts_task_id t)), (''platform'', JString (ts_platform t)),
       (''status'', JString (PublishTaskStatus_string (ts_status t)))] @
       omit_empty ''platform_post_id'' (ts_platform_post_id t) @
       omit_empty ''platform_url'' (ts_platform_url t) @ omit_empty ''error'' (ts_error t) @
       [(''created_at'', JTime (ts_created_at t)), (''updated_at'', JTime (ts_updated_at t))])"

definition PublishStatus_json :: "PublishStatus \<Rightarrow> json" where
  "PublishStatus_json p =
     JObject [(''content_id'', JString (ps_content_id p)),
       (''status'', JString (ContentStatus_string (ps_status p))),
       (''tasks'', JArray (map TaskStatus_json (ps_tasks p)))]"

definition PublishBatchResponse_json :: "PublishBatchResponse \<Rightarrow> json" where
  "PublishBatchResponse_json b =
     JObject [(''content_id'', JString (pb_content_id b)),
       (''tasks'', JArray (map TaskStatus_json (pb_tasks b)))]"

definition writeError :: "int \<Rightarrow> ErrorCode \<Rightarrow> string \<Rightarrow> Response" where
  "writeError status code message =
     writeJSON status (AppError_json \<lparr>ae_code = code, ae_message = message, ae_details = []\<rparr>)"

definition writeAppError :: "AppError \<Rightarrow> Response" where
  "writeAppError err =
     (let status =
        (case ae_code err of
           ErrCodeValidation \<Rightarrow> 400
         | ErrCodeNotFound \<Rightarrow> 404
         | ErrCodeForbidden \<Rightarrow> 403
         | ErrCodeConflict \<Rightarrow> 409
         | ErrCodeRateLimited \<Rightarrow> 429
         | _ \<Rightarrow> 500)
      in writeJSON status (AppError_json err))"

section \<open>Health\<close>

record HealthHandler =
  hh_version :: string

record HealthResponse =
  hr_status :: string
  hr_version :: string

definition HealthResponse_json :: "HealthResponse \<Rightarrow> json" where
  "HealthResponse_json h =
     JObject [(''status'', JString (hr_status h)), (''version'', JString (hr_version h))]"

definition api_HandleHealth :: "HealthHandler \<Rightarrow> Response" where
  "api_HandleHealth h =
     writeJSON 200 (HealthResponse_json \<lparr>hr_status = ''ok'', hr_version = hh_version h\<rparr>)"

section \<open>Publish requests\<close>

record 's PublishHandler =
  ph_ContentStore :: "'s ContentStore"
  ph_TaskStore :: "'s PublishTaskStore"
  ph_Enqueuer :: "'s Enqueuer"

record publishRequest =
  rq_title :: string
  rq_body :: string
  rq_tags :: string_slice
  rq_platforms :: string_slice

definition empty_request :: publishRequest where
  "empty_request = \<lparr>rq_title = '''', rq_body = '''', rq_tags = ([], []), rq_platforms = ([], [])\<rparr>"

definition request_field :: "string \<Rightarrow> json \<Rightarrow> publishRequest \<Rightarrow> publishRequest option" where
  "request_field key x r =
     (if name_matches ''title'' key
      then map_option (\<lambda>s. r\<lparr>rq_title := s\<rparr>) (decode_string x (rq_title r))
      else if name_matches ''body'' key
      then map_option (\<lambda>s. r\<lparr>rq_body := s\<rparr>) (decode_string x (rq_body r))
      else if name_matches ''tags'' key
      then map_option (\<lambda>s. r\<lparr>rq_tags := s\<rparr>) (decode_strings x (rq_tags r))
      else if name_matches ''platforms'' key
      then map_option (\<lambda>s. r\<lparr>rq_platforms := s\<rparr>) (decode_strings x (rq_platforms r))
      else Some r)"

definition decode_request :: "json \<Rightarrow> publishRequest option" where
  "decode_request j = decode_object request_field j empty_request"

text \<open>
  The request is changed in place: the first result is what the caller's request is afterwards.
\<close>

definition validatePublishRequest :: "publishRequest \<Rightarrow> publishRequest \<times> AppError option" where
  "validatePublishRequest req =
     (let details = [];
          req = req\<lparr>rq_title := TrimSpace (rq_title req)\<rparr>;
          details =
            (if rq_title req = ''''
             then details @ [\<lparr>ed_field = ''title'', ed_message = ''title is required''\<rparr>]
             else if length (rq_title req) > 200
             then details @ [\<lparr>ed_field = ''title'', ed_message = ''title must be 200 characters or less''\<rparr>]
             else details);
          req = req\<lparr>rq_body := TrimSpace (rq_body req)\<rparr>;
          details =
            (if rq_body req = ''''
             then details @ [\<lparr>ed_field = ''body'', ed_message = ''body is required''\<rparr>] else details);
          details =
            (if length (fst (rq_platforms req)) = 0
             then details @ [\<lparr>ed_field = ''platforms'', ed_message = ''at least one platform is required''\<rparr>]
             else details)
      in if length details > 0
         then (req, Some \<lparr>ae_code = ErrCodeValidation,
                ae_message = ''validation failed with '' @ dec_nat (length details) @ '' error(s)'',
                ae_details = details\<rparr>)
         else (req, None))"

text \<open>The loop over the platforms: the statuses of the tasks that could be created, in order.\<close>

fun create_tasks :: "'s PublishHandler \<Rightarrow> string \<Rightarrow> string list \<Rightarrow> ('s, TaskStatus list) state" where
  "create_tasks h contentID [] = ret []"
| "create_tasks h contentID (platform # platforms) = do {
     r \<leftarrow> CreateTask (ph_TaskStore h) contentID platform;
     case r of
       Inl err \<Rightarrow> create_tasks h contentID platforms
     | Inr task \<Rightarrow> do {
         let payload = \<lparr>pl_task_id = pt_id task, pl_content_id = contentID, pl_platform = platform\<rparr>;
         _ \<leftarrow> EnqueuePublish (ph_Enqueuer h) payload
           \<lparr>eo_max_retry = rp_max_retries (pt_retry_policy task), eo_queue = '''', eo_timeout = 0,
            eo_retry_policy = None\<rparr>;
         tasks \<leftarrow> create_tasks h contentID platforms;
         ret (\<lparr>ts_task_id = pt_id task, ts_platform = platform, ts_status = pt_status task,
               ts_platform_post_id = '''', ts_platform_url = '''', ts_error = '''',
               ts_created_at = pt_created_at task, ts_updated_at = pt_updated_at task\<rparr> # tasks)
       }
   }"

text \<open>From the created content on.\<close>

definition publish_created ::
  "'s PublishHandler \<Rightarrow> publishRequest \<Rightarrow> Content \<Rightarrow> ('s, Response) state" where
  "publish_created h req content = do {
     e \<leftarrow> UpdateContent (ph_ContentStore h) (ct_id content) ContentStatusReady 1;
     case e of
       Some _ \<Rightarrow> ret (writeError 500 ErrCodeInternal ''failed to prepare content'')
     | None \<Rightarrow> do {
         e \<leftarrow> UpdateContent (ph_ContentStore h) (ct_id content) ContentStatusPublishing 2;
         case e of
           Some _ \<Rightarrow> ret (writeError 500 ErrCodeInternal ''failed to prepare content'')
         | None \<Rightarrow> do {
             tasks \<leftarrow> create_tasks h (ct_id content) (fst (rq_platforms req));
             if length tasks = 0
             then ret (writeError 500 ErrCodeInternal ''failed to create any publish tasks'')
             else ret (writeJSON 202 (PublishBatchResponse_json
               \<lparr>pb_content_id = ct_id content, pb_tasks = tasks\<rparr>))
           }
       }
   }"

definition api_HandlePublish :: "'s PublishHandler \<Rightarrow> string \<Rightarrow> ('s, Response) state" where
  "api_HandlePublish h body =
     (case Option.bind (decode_stream body) decode_request of
        None \<Rightarrow> ret (writeError 400 ErrCodeValidation ''invalid request body'')
      | Some req \<Rightarrow>
          (case validatePublishRequest req of
             (_, Some err) \<Rightarrow> ret (writeAppError err)
           | (req, None) \<Rightarrow> do {
               r \<leftarrow> CreateContent (ph_ContentStore h) (rq_title req) (rq_body req) (fst (rq_tags req));
               case r of
                 Inl err \<Rightarrow> ret (writeError 500 ErrCodeInternal ''failed to create content'')
               | Inr content \<Rightarrow> publish_created h req content
             }))"

definition task_to_status :: "PublishTask \<Rightarrow> TaskStatus" where
  "task_to_status t =
     \<lparr>ts_task_id = pt_id t, ts_platform = pt_platform t, ts_status = pt_status t,
      ts_platform_post_id = '''', ts_platform_url = '''', ts_error = pt_error t,
      ts_created_at = pt_created_at t, ts_updated_at = pt_updated_at t\<rparr>"

definition api_HandlePublishStatus :: "'s PublishHandler \<Rightarrow> string \<Rightarrow> ('s, Response) state" where
  "api_HandlePublishStatus h contentID =
     (if contentID = '''' then ret (writeError 400 ErrCodeValidation ''content id is required'')
      else do {
        r \<leftarrow> GetContent (ph_ContentStore h) contentID;
        case r of
          Inl err \<Rightarrow>
            if errors_Is err ErrNotFound then ret (writeError 404 ErrCodeNotFound ''content not found'')
            else ret (writeError 500 ErrCodeInternal ''failed to get content'')
        | Inr content \<Rightarrow> do {
            r \<leftarrow> GetTasksByContent (ph_TaskStore h) contentID;
            case r of
              Inl err \<Rightarrow> ret (writeError 500 ErrCodeInternal ''failed to get publish status'')
            | Inr taskList \<Rightarrow>
                ret (writeJSON 200 (PublishStatus_json
                  \<lparr>ps_content_id = ct_id content, ps_status = ct_status content,
                   ps_tasks = map task_to_status taskList\<rparr>))
          }
      })"

section \<open>The enqueuer of the API server without Redis\<close>

definition noOpEnqueuer :: "'s Enqueuer" where
  "noOpEnqueuer = \<lparr>EnqueuePublish = (\<lambda>_ _. ret None)\<rparr>"

end
