(* ===== verification/Web.thy ===== *)
theory Web
  imports Api
begin

text \<open>
  \<open>internal/web/handler.go\<close>: the pages of the demo user interface. A page is the name of the template
  that is executed and the data it is given; what the templates make of the data is not modelled.
  The form values and the \<open>id\<close> of the path are arguments of the handlers.
\<close>

record pageData =
  pd_content_id :: string
  pd_tasks :: "TaskStatus list"
  pd_status :: ContentStatus
  pd_error :: string

datatype page =
    Template string "pageData option"  \<comment> \<open>\<open>ExecuteTemplate\<close>; \<open>None\<close> is nil\<close>
  | Html string
  | NoBody

record WebResponse =
  wr_status :: int
  wr_page :: page

record 's WebHandler =
  wh_ContentStore :: "'s ContentStore"
  wh_TaskStore :: "'s PublishTaskStore"

definition web_NewHandler :: "'s ContentStore \<Rightarrow> 's PublishTaskStore \<Rightarrow> 's WebHandler" where
  "web_NewHandler cs ts = \<lparr>wh_ContentStore = cs, wh_TaskStore = ts\<rparr>"

definition render :: "string \<Rightarrow> pageData option \<Rightarrow> WebResponse" where
  "render name data = \<lparr>wr_status = 200, wr_page = Template name data\<rparr>"

text \<open>The zero value of \<open>Status\<close> is the empty string.\<close>

definition error_page :: "string \<Rightarrow> WebResponse" where
  "error_page msg =
     render ''error.html'' (Some \<lparr>pd_content_id = '''', pd_tasks = [], pd_status = OtherContentStatus '''',
       pd_error = msg\<rparr>)"

definition web_HandleIndex :: WebResponse where
  "web_HandleIndex = render ''index.html'' None"

definition web_HandlePublish ::
  "'s WebHandler \<Rightarrow> string \<Rightarrow> string \<Rightarrow> string \<Rightarrow> ('s, WebResponse) state" where
  "web_HandlePublish h title body platform =
     (if title = '''' \<or> body = '''' \<or> platform = '''' then ret (error_page ''All fields are required'')
      else do {
        r \<leftarrow> CreateContent (wh_ContentStore h) title body [];
        case r of
          Inl err \<Rightarrow> ret (error_page ''Failed to create content'')
        | Inr content \<Rightarrow> do {
            _ \<leftarrow> UpdateContent (wh_ContentStore h) (ct_id content) ContentStatusReady 1;
            _ \<leftarrow> UpdateContent (wh_ContentStore h) (ct_id content) ContentStatusPublishing 2;
            r \<leftarrow> CreateTask (wh_TaskStore h) (ct_id content) platform;
            case r of
              Inl err \<Rightarrow> ret (error_page ''Failed to create publish task'')
            | Inr task \<Rightarrow>
                ret (render ''status.html'' (Some
                  \<lparr>pd_content_id = ct_id content,
                   pd_tasks = [\<lparr>ts_task_id = pt_id task, ts_platform = pt_platform task,
                     ts_status = pt_status task, ts_platform_post_id = '''', ts_platform_url = '''',
                     ts_error = '''', ts_created_at = pt_created_at task, ts_updated_at = pt_updated_at task\<rparr>],
                   pd_status = ct_status content, pd_error = ''''\<rparr>))
          }
      })"

text \<open>The task list of a page; an error of the store is dropped and gives no tasks.\<close>

definition page_tasks :: "'s WebHandler \<Rightarrow> string \<Rightarrow> ('s, TaskStatus list) state" where
  "page_tasks h contentID = do {
     r \<leftarrow> GetTasksByContent (wh_TaskStore h) contentID;
     ret (map task_to_status (case r of Inl _ \<Rightarrow> [] | Inr taskList \<Rightarrow> taskList))
   }"

definition web_HandleStatus :: "'s WebHandler \<Rightarrow> string \<Rightarrow> ('s, WebResponse) state" where
  "web_HandleStatus h contentID = do {
     r \<leftarrow> GetContent (wh_ContentStore h) contentID;
     case r of
       Inl err \<Rightarrow> ret (error_page ''Content not found'')
     | Inr content \<Rightarrow> do {
         tasks \<leftarrow> page_tasks h contentID;
         ret (render ''status.html'' (Some
           \<lparr>pd_content_id = ct_id content, pd_tasks = tasks, pd_status = ct_status content, pd_error = ''''\<rparr>))
       }
   }"

fun all_terminal :: "TaskStatus list \<Rightarrow> bool" where
  "all_terminal [] = True"
| "all_terminal (t # ts) = (if PublishTaskStatus_IsActive (ts_status t) then False else all_terminal ts)"

definition web_HandleStatusPoll :: "'s WebHandler \<Rightarrow> string \<Rightarrow> ('s, WebResponse) state" where
  "web_HandleStatusPoll h contentID = do {
     r \<leftarrow> GetContent (wh_ContentStore h) contentID;
     case r of
       Inl err \<Rightarrow> ret \<lparr>wr_status = 404, wr_page = NoBody\<rparr>
     | Inr content \<Rightarrow> do {
         tasks \<leftarrow> page_tasks h contentID;
         let data = \<lparr>pd_content_id = ct_id content, pd_tasks = tasks, pd_status = ct_status content,
                     pd_error = ''''\<rparr>;
         if all_terminal tasks then ret (render ''status-final.html'' (Some data))
         else ret (render ''status-poll.html'' (Some data))
       }
   }"

definition web_HandleHealth :: WebResponse where
  "web_HandleHealth =
     \<lparr>wr_status = 200, wr_page = Html ''<!DOCTYPE html><html><body><h1>OK</h1></body></html>''\<rparr>"

end
