(* ===== verification/Server.thy ===== *)
theory Server
  imports Web StorageMemory
begin

text \<open>
  \<open>cmd/api/main.go\<close>: how the API server is put together. \<open>serve\<close> is the route table of \<open>buildRouter\<close>
  after the third-party router has matched method and path; \<open>api_server\<close> are the handlers \<open>main\<close> builds,
  over one memory storage that the API and the web pages share and an enqueuer that does nothing.
  The middleware (request identifiers, logging, panic recovery, time-outs) changes no store.
\<close>

datatype request =
    GetApiHealth
  | GetIndex
  | PostPublishForm string string string
  | GetStatusPage string
  | GetStatusPoll string
  | GetHealthPage
  | PostPublish string
  | GetPublishStatus string

datatype reply = Api Response | Page WebResponse

definition serve ::
  "HealthHandler \<Rightarrow> 's PublishHandler \<Rightarrow> request \<Rightarrow> ('s, reply) state" where
  "serve hh ph req =
     (let wh = web_NewHandler (ph_ContentStore ph) (ph_TaskStore ph)
      in case req of
           GetApiHealth \<Rightarrow> ret (Api (api_HandleHealth hh))
         | GetIndex \<Rightarrow> ret (Page web_HandleIndex)
         | PostPublishForm title body platform \<Rightarrow> do {
             r \<leftarrow> web_HandlePublish wh title body platform; ret (Page r) }
         | GetStatusPage i \<Rightarrow> do { r \<leftarrow> web_HandleStatus wh i; ret (Page r) }
         | GetStatusPoll i \<Rightarrow> do { r \<leftarrow> web_HandleStatusPoll wh i; ret (Page r) }
         | GetHealthPage \<Rightarrow> ret (Page web_HandleHealth)
         | PostPublish body \<Rightarrow> do { r \<leftarrow> api_HandlePublish ph body; ret (Api r) }
         | GetPublishStatus i \<Rightarrow> do { r \<leftarrow> api_HandlePublishStatus ph i; ret (Api r) })"

definition api_handler :: "('a MemoryStorage_scheme) PublishHandler" where
  "api_handler =
     \<lparr>ph_ContentStore = MemoryContentStore, ph_TaskStore = MemoryPublishTaskStore,
      ph_Enqueuer = noOpEnqueuer\<rparr>"

definition api_server :: "request \<Rightarrow> ('a MemoryStorage_scheme, reply) state" where
  "api_server = serve \<lparr>hh_version = ''0.1.0''\<rparr> api_handler"

text \<open>The requests of a list, one after the other.\<close>

fun serve_all :: "request list \<Rightarrow> ('a MemoryStorage_scheme, reply list) state" where
  "serve_all [] = ret []"
| "serve_all (r # rs) = do { a \<leftarrow> api_server r; as \<leftarrow> serve_all rs; ret (a # as) }"

end
