(* ===== verification/QueueWorker.thy ===== *)
theory QueueWorker
  imports Queue GoJsonText
begin

text \<open>
  \<open>internal/queue/enqueuer.go\<close> and \<open>worker.go\<close>: the enqueuer that hands publishes to Asynq, the worker
  that takes them out, and the dead-letter inspector. Asynq is third-party code: its client, server
  and inspector are the parameters \<open>AsynqClient\<close>, \<open>Asynq\<close> and \<open>AsynqInspector\<close>, and a mux is the table
  of the handlers registered with it. The texts of the errors of \<open>encoding/json\<close> are a parameter
  (\<open>json_error\<close>).
\<close>

section \<open>Payloads as JSON\<close>

definition PublishPayload_json :: "PublishPayload \<Rightarrow> json" where
  "PublishPayload_json p =
     JObject [(''task_id'', JString (pl_task_id p)), (''content_id'', JString (pl_content_id p)),
       (''platform'', JString (pl_platform p))]"

definition marshal_payload :: "PublishPayload \<Rightarrow> string result" where
  "marshal_payload p = Inr (json_text (PublishPayload_json p))"

definition empty_payload :: PublishPayload where
  "empty_payload = \<lparr>pl_task_id = '''', pl_content_id = '''', pl_platform = ''''\<rparr>"

definition payload_field :: "string \<Rightarrow> json \<Rightarrow> PublishPayload \<Rightarrow> PublishPayload option" where
  "payload_field key x p =
     (if name_matches ''task_id'' key
      then map_option (\<lambda>s. p\<lparr>pl_task_id := s\<rparr>) (decode_string x (pl_task_id p))
      else if name_matches ''content_id'' key
      then map_option (\<lambda>s. p\<lparr>pl_content_id := s\<rparr>) (decode_string x (pl_content_id p))
      else if name_matches ''platform'' key
      then map_option (\<lambda>s. p\<lparr>pl_platform := s\<rparr>) (decode_string x (pl_platform p))
      else Some p)"

definition decodePayload ::
  "(string \<Rightarrow> go_error) \<Rightarrow> string \<Rightarrow> PublishPayload \<Rightarrow> PublishPayload result" where
  "decodePayload json_error data v =
     (case Option.bind (parse_document data) (\<lambda>j. decode_object payload_field j v) of
        None \<Rightarrow> Inl (json_error data)
      | Some p \<Rightarrow> Inr p)"

section \<open>The enqueuer\<close>

record AsynqTask =
  at_type :: string
  at_payload :: string

record TaskInfo =
  ai_id :: string
  ai_queue :: string
  ai_max_retry :: int

record 's AsynqClient =
  EnqueueContext :: "AsynqTask \<Rightarrow> AsynqOption list \<Rightarrow> ('s, TaskInfo result) state"

record 's AsynqEnqueuer =
  aq_client :: "'s AsynqClient"

definition NewAsynqEnqueuer :: "'s AsynqClient \<Rightarrow> 's AsynqEnqueuer" where
  "NewAsynqEnqueuer client = \<lparr>aq_client = client\<rparr>"

definition asynq_EnqueuePublish ::
  "'s AsynqEnqueuer \<Rightarrow> PublishPayload \<Rightarrow> EnqueueOptions \<Rightarrow> ('s, go_error option) state" where
  "asynq_EnqueuePublish e payload opts =
     (case marshal_payload payload of
        Inl err \<Rightarrow> ret (Some (Wrapf ''marshal publish payload: '' err))
      | Inr data \<Rightarrow> do {
          let asynqOpts = buildOptions opts;
          let task = \<lparr>at_type = TypePublishContent, at_payload = data\<rparr>;
          r \<leftarrow> EnqueueContext (aq_client e) task asynqOpts;
          case r of
            Inl err \<Rightarrow> ret (Some (Wrapf ''enqueue publish task: '' err))
          | Inr info \<Rightarrow> ret None
        })"

definition asynq_Enqueuer :: "'s AsynqEnqueuer \<Rightarrow> 's Enqueuer" where
  "asynq_Enqueuer e = \<lparr>EnqueuePublish = asynq_EnqueuePublish e\<rparr>"

section \<open>The worker\<close>

record WorkerConfig =
  wc_redis_addr :: string
  wc_redis_password :: string
  wc_redis_db :: int
  wc_concurrency :: int
  wc_queues :: "int gomap"

definition DefaultWorkerConfig :: WorkerConfig where
  "DefaultWorkerConfig =
     \<lparr>wc_redis_addr = ''localhost:6379'', wc_redis_password = '''', wc_redis_db = 0,
      wc_concurrency = 10,
      wc_queues = DAList.update ''default'' 4 (DAList.update ''publish'' 6 DAList.empty)\<rparr>"

record 's Handler =
  HandlePublish :: "PublishPayload \<Rightarrow> ('s, go_error option) state"

definition task_Handler :: "('a env_scheme) TaskHandler \<Rightarrow> ('a env_scheme) Handler" where
  "task_Handler h = \<lparr>HandlePublish = queue_HandlePublish h\<rparr>"

type_synonym 's ServeMux = "(string \<times> (AsynqTask \<Rightarrow> ('s, go_error option) state)) list"

record RedisClientOpt =
  ro_addr :: string
  ro_password :: string
  ro_db :: int

record AsynqConfig =
  ac_concurrency :: int
  ac_queues :: "int gomap"

text \<open>An option of a listing; the code gives none.\<close>

datatype ListOption = PageSize int | Page int

record 's AsynqServer =
  srv_Run :: "'s ServeMux \<Rightarrow> ('s, go_error option) state"
  srv_Shutdown :: "('s, unit) state"

record 's AsynqInspector =
  ListArchivedTasks :: "string \<Rightarrow> ListOption list \<Rightarrow> ('s, TaskInfo list result) state"
  RunTask :: "string \<Rightarrow> string \<Rightarrow> ('s, go_error option) state"
  RunAllArchivedTasks :: "string \<Rightarrow> ('s, int result) state"
  DeleteTask :: "string \<Rightarrow> string \<Rightarrow> ('s, go_error option) state"
  DeleteAllArchivedTasks :: "string \<Rightarrow> ('s, int result) state"

record 's Asynq =
  NewServer :: "RedisClientOpt \<Rightarrow> AsynqConfig \<Rightarrow> 's AsynqServer"
  NewInspector :: "RedisClientOpt \<Rightarrow> 's AsynqInspector"

record 's Worker =
  w_srv :: "'s AsynqServer"
  w_mux :: "'s ServeMux"
  w_inspector :: "'s AsynqInspector"

text \<open>The function registered for publish tasks.\<close>

definition process_task ::
  "(string \<Rightarrow> go_error) \<Rightarrow> 's Handler \<Rightarrow> AsynqTask \<Rightarrow> ('s, go_error option) state" where
  "process_task json_error handler t =
     (case decodePayload json_error (at_payload t) empty_payload of
        Inl err \<Rightarrow> ret (Some (Wrapf ''decode payload: '' err))
      | Inr payload \<Rightarrow> HandlePublish handler payload)"

definition NewWorker ::
  "'s Asynq \<Rightarrow> (string \<Rightarrow> go_error) \<Rightarrow> WorkerConfig \<Rightarrow> 's Handler \<Rightarrow> 's Worker" where
  "NewWorker asynq json_error cfg handler =
     (let redisOpt = \<lparr>ro_addr = wc_redis_addr cfg, ro_password = wc_redis_password cfg,
                      ro_db = wc_redis_db cfg\<rparr>;
          srv = NewServer asynq redisOpt
                  \<lparr>ac_concurrency = wc_concurrency cfg, ac_queues = wc_queues cfg\<rparr>;
          mux = [(TypePublishContent, process_task json_error handler)];
          inspector = NewInspector asynq redisOpt
      in \<lparr>w_srv = srv, w_mux = mux, w_inspector = inspector\<rparr>)"

definition worker_Run :: "'s Worker \<Rightarrow> ('s, go_error option) state" where
  "worker_Run w = do {
     r \<leftarrow> srv_Run (w_srv w) (w_mux w);
     case r of
       Some err \<Rightarrow> ret (Some (Wrapf ''worker run: '' err))
     | None \<Rightarrow> ret None
   }"

definition worker_Shutdown :: "'s Worker \<Rightarrow> ('s, unit) state" where
  "worker_Shutdown w = srv_Shutdown (w_srv w)"

section \<open>The dead-letter inspector\<close>

record 's DLQInspector =
  dq_inspector :: "'s AsynqInspector"

definition DLQ :: "'s Worker \<Rightarrow> 's DLQInspector" where
  "DLQ w = \<lparr>dq_inspector = w_inspector w\<rparr>"

definition DeadTaskCount :: "'s DLQInspector \<Rightarrow> string \<Rightarrow> ('s, int \<times> go_error option) state" where
  "DeadTaskCount d queue = do {
     r \<leftarrow> ListArchivedTasks (dq_inspector d) queue [];
     case r of
       Inl err \<Rightarrow> ret (0, Some (Wrapf ''list archived tasks: '' err))
     | Inr tasks \<Rightarrow> ret (int (length tasks), None)
   }"

definition ListDeadTasks :: "'s DLQInspector \<Rightarrow> string \<Rightarrow> ('s, TaskInfo list result) state" where
  "ListDeadTasks d queue = do {
     r \<leftarrow> ListArchivedTasks (dq_inspector d) queue [];
     case r of
       Inl err \<Rightarrow> ret (Inl (Wrapf ''list archived tasks: '' err))
     | Inr tasks \<Rightarrow> ret (Inr tasks)
   }"

definition RetryDeadTask ::
  "'s DLQInspector \<Rightarrow> string \<Rightarrow> string \<Rightarrow> ('s, go_error option) state" where
  "RetryDeadTask d queue asynqID = do {
     r \<leftarrow> RunTask (dq_inspector d) queue asynqID;
     case r of
       Some err \<Rightarrow> ret (Some (Wrapf ''retry archived task: '' err))
     | None \<Rightarrow> ret None
   }"

definition RetryAllDeadTasks :: "'s DLQInspector \<Rightarrow> string \<Rightarrow> ('s, int \<times> go_error option) state" where
  "RetryAllDeadTasks d queue = do {
     r \<leftarrow> RunAllArchivedTasks (dq_inspector d) queue;
     case r of
       Inl err \<Rightarrow> ret (0, Some (Wrapf ''retry all archived tasks: '' err))
     | Inr n \<Rightarrow> ret (n, None)
   }"

definition DeleteDeadTask ::
  "'s DLQInspector \<Rightarrow> string \<Rightarrow> string \<Rightarrow> ('s, go_error option) state" where
  "DeleteDeadTask d queue asynqID = do {
     r \<leftarrow> DeleteTask (dq_inspector d) queue asynqID;
     case r of
       Some err \<Rightarrow> ret (Some (Wrapf ''delete archived task: '' err))
     | None \<Rightarrow> ret None
   }"

definition DeleteAllDeadTasks :: "'s DLQInspector \<Rightarrow> string \<Rightarrow> ('s, int \<times> go_error option) state" where
  "DeleteAllDeadTasks d queue = do {
     r \<leftarrow> DeleteAllArchivedTasks (dq_inspector d) queue;
     case r of
       Inl err \<Rightarrow> ret (0, Some (Wrapf ''delete all archived tasks: '' err))
     | Inr n \<Rightarrow> ret (n, None)
   }"

section \<open>Facts\<close>

lemma payload_names [simp]:
  "name_matches ''task_id'' ''content_id'' = False" "name_matches ''task_id'' ''platform'' = False"
  "name_matches ''content_id'' ''platform'' = False"
  by (simp_all add: name_matches_def starts_with_def upper_byte_def Let_def char_of_def)

definition valid_payload :: "PublishPayload \<Rightarrow> PublishPayload" where
  "valid_payload p =
     \<lparr>pl_task_id = to_valid (pl_task_id p), pl_content_id = to_valid (pl_content_id p),
      pl_platform = to_valid (pl_platform p)\<rparr>"

lemma decode_marshalled:
  "decodePayload json_error (json_text (PublishPayload_json p)) empty_payload = Inr (valid_payload p)"
  by (simp add: decodePayload_def read_json_text(1) PublishPayload_json_def maxNestingDepth_def
      decode_object_Cons payload_field_def empty_payload_def valid_payload_def del: json_text.simps)

lemma NewWorker_mux: "w_mux (NewWorker asynq json_error cfg h) = [(TypePublishContent, process_task json_error h)]"
  by (simp add: NewWorker_def Let_def)

text \<open>
  C19. From the enqueuer to the handler (\<open>EnqueuePublish\<close>, \<open>NewWorker\<close>, \<open>decodePayload\<close>): with any client, a publish
  is enqueued by exactly one call of it, whose error is wrapped and whose answer is success otherwise;
  and what the worker's mux runs for the enqueued task is the handler on the same payload, where the
  three fields are text in UTF-8. Other bytes are replaced on the way, so the handler then sees
  another payload.
\<close>

theorem enqueued_is_handled:
  assumes "utf8 (pl_task_id p)" and "utf8 (pl_content_id p)" and "utf8 (pl_platform p)"
  shows "\<exists>t f. at_type t = TypePublishContent \<and>
    asynq_EnqueuePublish (NewAsynqEnqueuer client) p opts = do {
      r \<leftarrow> EnqueueContext client t (buildOptions opts);
      ret (case r of Inl err \<Rightarrow> Some (Wrapf ''enqueue publish task: '' err) | Inr _ \<Rightarrow> None) } \<and>
    map_of (w_mux (NewWorker asynq json_error cfg h)) (at_type t) = Some f \<and> f t = HandlePublish h p"
proof -
  let ?t = "\<lparr>at_type = TypePublishContent, at_payload = json_text (PublishPayload_json p)\<rparr>"
  have "valid_payload p = p" using assms by (simp add: valid_payload_def to_valid_utf8)
  then have "process_task json_error h ?t = HandlePublish h p"
    by (simp add: process_task_def decode_marshalled)
  moreover have "asynq_EnqueuePublish (NewAsynqEnqueuer client) p opts = do {
      r \<leftarrow> EnqueueContext client ?t (buildOptions opts);
      ret (case r of Inl err \<Rightarrow> Some (Wrapf ''enqueue publish task: '' err) | Inr _ \<Rightarrow> None) }"
    by (auto simp: asynq_EnqueuePublish_def NewAsynqEnqueuer_def marshal_payload_def
        intro!: arg_cong2 [where f = State_Monad.bind] split: sum.split)
  ultimately show ?thesis by (intro exI [of _ ?t] exI [of _ "process_task json_error h"]) (simp add: NewWorker_mux)
qed

text \<open>
  The dead-letter listing is capped (\<open>DeadTaskCount\<close>, \<open>ListDeadTasks\<close>): Asynq's \<open>ListArchivedTasks\<close> answers the
  first page of 30 tasks unless it is given options, and the inspector gives none. So the count never
  exceeds 30, and the listing, said to return all tasks, misses those after the thirtieth.
\<close>

lemma dead_tasks_capped:
  assumes "\<And>q s. run_state (ListArchivedTasks (w_inspector w) q []) s = (Inr (take 30 (archived s q)), s)"
  shows "run_state (DeadTaskCount (DLQ w) q) s = ((int (min 30 (length (archived s q))), None), s)"
    and "run_state (ListDeadTasks (DLQ w) q) s = (Inr (take 30 (archived s q)), s)"
  using assms by (simp_all add: DeadTaskCount_def ListDeadTasks_def DLQ_def min.commute)

section \<open>Examples\<close>

definition example_inspector :: "TaskInfo list AsynqInspector" where
  "example_inspector =
     \<lparr>ListArchivedTasks = (\<lambda>_ opts. gets (\<lambda>s. Inr (take 30 s))), RunTask = (\<lambda>_ _. ret None),
      RunAllArchivedTasks = (\<lambda>_. gets (\<lambda>s. Inr (int (length s)))), DeleteTask = (\<lambda>_ _. ret None),
      DeleteAllArchivedTasks = (\<lambda>_. gets (\<lambda>s. Inr (int (length s))))\<rparr>"

definition example_asynq :: "TaskInfo list Asynq" where
  "example_asynq =
     \<lparr>NewServer = (\<lambda>_ _. \<lparr>srv_Run = (\<lambda>_. ret None), srv_Shutdown = ret ()\<rparr>),
      NewInspector = (\<lambda>_. example_inspector)\<rparr>"

theorem enqueued_is_handled_witness:
  "\<exists>t f. at_type t = TypePublishContent \<and>
    map_of (w_mux (NewWorker example_asynq Errorf DefaultWorkerConfig
      \<lparr>HandlePublish = (\<lambda>p. ret (if pl_platform p = ''mock'' then None else Some ErrNotFound))\<rparr>)) (at_type t) = Some f \<and>
    f t = ret None"
  using enqueued_is_handled [where p = "\<lparr>pl_task_id = ''t1'', pl_content_id = ''c1'', pl_platform = ''mock''\<rparr>"
      and asynq = example_asynq and json_error = Errorf and cfg = DefaultWorkerConfig and h = "\<lparr>HandlePublish = (\<lambda>p. ret (if pl_platform p = ''mock'' then None else Some ErrNotFound))\<rparr>"]
  by (simp add: utf8_ascii) blast

end
