(* ===== verification/ApiQueue.thy ===== *)
theory ApiQueue
  imports Server QueueWorker
begin

text \<open>
  The publish handler of the API over the Asynq enqueuer: what the options it enqueues with mean to
  Asynq, which refuses a queue without a name.
\<close>

lemma bind_ignored:
  assumes "\<And>s. fin m s = s"
  shows "m \<bind> (\<lambda>_. f) = f"
proof (rule state.expand, rule ext)
  fix s
  show "run_state (m \<bind> (\<lambda>_. f)) s = run_state f s" using assms [of s] by (simp add: split_def)
qed

text \<open>The documented check of \<open>asynq.Queue\<close>: a name that is white space only is an error of the call.\<close>

definition refuses_unnamed :: "'s AsynqClient \<Rightarrow> bool" where
  "refuses_unnamed client \<longleftrightarrow>
     (\<forall>t os s q. OptQueue q \<in> set os \<longrightarrow> TrimSpace q = [] \<longrightarrow>
        (\<exists>err. run_state (EnqueueContext client t os) s = (Inl err, s)))"

lemma enqueue_refused:
  assumes "refuses_unnamed client" "TrimSpace (eo_queue opts) = []"
  shows "\<exists>err. run_state (asynq_EnqueuePublish (NewAsynqEnqueuer client) p opts) s =
    (Some (Wrapf ''enqueue publish task: '' err), s)"
proof -
  let ?t = "\<lparr>at_type = TypePublishContent, at_payload = json_text (PublishPayload_json p)\<rparr>"
  have "OptQueue (eo_queue opts) \<in> set (buildOptions opts)" by (simp add: buildOptions_def Let_def)
  with assms obtain err where "run_state (EnqueueContext client ?t (buildOptions opts)) s = (Inl err, s)"
    unfolding refuses_unnamed_def by blast
  then show ?thesis
    by (simp add: asynq_EnqueuePublish_def NewAsynqEnqueuer_def marshal_payload_def)
qed

lemma enqueue_ignored:
  assumes "refuses_unnamed client" "eo_queue opts = []"
  shows "asynq_EnqueuePublish (NewAsynqEnqueuer client) p opts \<bind> (\<lambda>_. f) = f"
  using enqueue_refused [OF assms(1), of opts p] assms(2)
  by (intro bind_ignored) (metis TrimSpace_Nil snd_conv)

lemma create_tasks_refused:
  assumes "refuses_unnamed client"
  shows "create_tasks (h\<lparr>ph_Enqueuer := asynq_Enqueuer (NewAsynqEnqueuer client)\<rparr>) i ps =
    create_tasks (h\<lparr>ph_Enqueuer := noOpEnqueuer\<rparr>) i ps"
proof (induction ps)
  case (Cons p ps)
  then show ?case
    by (simp add: enqueue_ignored [OF assms] asynq_Enqueuer_def noOpEnqueuer_def Let_def cong: sum.case_cong)
qed simp

text \<open>
  C18. The API over Asynq (\<open>PublishHandler.HandlePublish\<close>, \<open>EnqueuePublish\<close>, \<open>buildOptions\<close>): the handler enqueues
  without a queue name and drops the error. As Asynq refuses such a task, with any stores and for every
  request body the handler over the Asynq enqueuer answers and does exactly what it does over the
  enqueuer that does nothing: publishes are accepted with 202 and never reach the queue.
\<close>

theorem api_over_asynq_enqueues_nothing:
  assumes "refuses_unnamed client"
  shows "api_HandlePublish (h\<lparr>ph_Enqueuer := asynq_Enqueuer (NewAsynqEnqueuer client)\<rparr>) body =
    api_HandlePublish (h\<lparr>ph_Enqueuer := noOpEnqueuer\<rparr>) body"
proof -
  have "ph_ContentStore (h\<lparr>ph_Enqueuer := e\<rparr>) = ph_ContentStore h" for e by simp
  then show ?thesis
    unfolding api_HandlePublish_def publish_created_def create_tasks_refused [OF assms] by (simp only:)
qed

text \<open>A client that keeps the accepted tasks in the state of the API server.\<close>

record QueueServer = MemoryStorage +
  asynq_queue :: "AsynqTask list"

definition list_client :: "QueueServer AsynqClient" where
  "list_client =
     \<lparr>EnqueueContext = (\<lambda>t os.
        if list_ex (\<lambda>x. case x of OptQueue q \<Rightarrow> TrimSpace q = [] | _ \<Rightarrow> False) os
        then ret (Inl (Errorf ''queue name must contain one or more characters''))
        else do {
          modify (\<lambda>s. s\<lparr>asynq_queue := asynq_queue s @ [t]\<rparr>);
          ret (Inr \<lparr>ai_id = ''1'', ai_queue = ''publish'', ai_max_retry = 3\<rparr>)
        })\<rparr>"

theorem api_over_asynq_enqueues_nothing_witness:
  "let s = MemoryStorage.extend (NewMemoryStorage env0) (QueueServer.fields [])
   in \<forall>body. run_state (api_HandlePublish
          (api_handler\<lparr>ph_Enqueuer := asynq_Enqueuer (NewAsynqEnqueuer list_client)\<rparr>) body) s =
        run_state (api_HandlePublish api_handler body) s"
proof -
  have "refuses_unnamed list_client" by (fastforce simp: refuses_unnamed_def list_client_def list_ex_iff)
  from api_over_asynq_enqueues_nothing [OF this, of api_handler] show ?thesis
    by (simp add: api_handler_def)
qed

end
