(* ===== verification/ApiProofs.thy ===== *)
theory ApiProofs
  imports Server StorageContracts
begin

text \<open>
  What the JSON API guarantees: which requests pass validation and what the others are told, what an
  accepted publish leaves in \<open>storage.MemoryStorage\<close> (the store the server runs on), and that the
  status endpoint reports it.
\<close>

section \<open>Validation\<close>

definition request_details :: "publishRequest \<Rightarrow> ErrorDetail list" where
  "request_details r =
     (if TrimSpace (rq_title r) = [] then [\<lparr>ed_field = ''title'', ed_message = ''title is required''\<rparr>]
      else if 200 < length (TrimSpace (rq_title r))
      then [\<lparr>ed_field = ''title'', ed_message = ''title must be 200 characters or less''\<rparr>] else []) @
     (if TrimSpace (rq_body r) = [] then [\<lparr>ed_field = ''body'', ed_message = ''body is required''\<rparr>] else []) @
     (if fst (rq_platforms r) = []
      then [\<lparr>ed_field = ''platforms'', ed_message = ''at least one platform is required''\<rparr>] else [])"

lemma validate_eq:
  "validatePublishRequest r =
     (r\<lparr>rq_title := TrimSpace (rq_title r), rq_body := TrimSpace (rq_body r)\<rparr>,
      if request_details r = [] then None
      else Some \<lparr>ae_code = ErrCodeValidation,
        ae_message = ''validation failed with '' @ dec_nat (length (request_details r)) @ '' error(s)'',
        ae_details = request_details r\<rparr>)"
  by (simp add: validatePublishRequest_def request_details_def Let_def)

lemma request_details_Nil:
  "request_details r = [] \<longleftrightarrow> TrimSpace (rq_title r) \<noteq> [] \<and> length (TrimSpace (rq_title r)) \<le> 200 \<and>
     TrimSpace (rq_body r) \<noteq> [] \<and> fst (rq_platforms r) \<noteq> []"
  by (simp add: request_details_def)

lemma request_details_fields:
  "map ed_field (request_details r) =
     (if TrimSpace (rq_title r) = [] \<or> 200 < length (TrimSpace (rq_title r)) then [''title''] else []) @
     (if TrimSpace (rq_body r) = [] then [''body''] else []) @
     (if fst (rq_platforms r) = [] then [''platforms''] else [])"
  by (simp add: request_details_def)

text \<open>
  C34. Validation of publish requests (\<open>validatePublishRequest\<close>): title and body are trimmed and
  nothing else is changed; the request passes exactly if the trimmed title is not empty and has at
  most 200 bytes, the trimmed body is not empty and there is a platform. Otherwise the answer is a
  validation error with one detail per bad field, which becomes a response with status 400; a
  request that passed passes again unchanged. Tags and platform names are not looked at, where
  \<open>docs/architecture/api-design.md\<close> allows at most 10 tags of at most 50 characters and asks for
  registered platforms.
\<close>

theorem validate_request:
  assumes "validatePublishRequest r = (r', e)"
  shows "r' = r\<lparr>rq_title := TrimSpace (rq_title r), rq_body := TrimSpace (rq_body r)\<rparr> \<and>
    (e = None \<longleftrightarrow> TrimSpace (rq_title r) \<noteq> [] \<and> length (TrimSpace (rq_title r)) \<le> 200 \<and>
           TrimSpace (rq_body r) \<noteq> [] \<and> fst (rq_platforms r) \<noteq> []) \<and>
    (case e of
        None \<Rightarrow> validatePublishRequest r' = (r', None)
      | Some err \<Rightarrow> ae_code err = ErrCodeValidation \<and> rs_status (writeAppError err) = 400 \<and>
          map ed_field (ae_details err) =
            (if TrimSpace (rq_title r) = [] \<or> 200 < length (TrimSpace (rq_title r)) then [''title''] else []) @
            (if TrimSpace (rq_body r) = [] then [''body''] else []) @
            (if fst (rq_platforms r) = [] then [''platforms''] else []))"
proof (intro conjI)
  show "r' = r\<lparr>rq_title := TrimSpace (rq_title r), rq_body := TrimSpace (rq_body r)\<rparr>"
    using assms by (simp add: validate_eq)
  show "e = None \<longleftrightarrow> TrimSpace (rq_title r) \<noteq> [] \<and> length (TrimSpace (rq_title r)) \<le> 200 \<and>
           TrimSpace (rq_body r) \<noteq> [] \<and> fst (rq_platforms r) \<noteq> []"
    using assms by (auto simp: validate_eq request_details_Nil split: if_splits)
  show "case e of
        None \<Rightarrow> validatePublishRequest r' = (r', None)
      | Some err \<Rightarrow> ae_code err = ErrCodeValidation \<and> rs_status (writeAppError err) = 400 \<and>
          map ed_field (ae_details err) =
            (if TrimSpace (rq_title r) = [] \<or> 200 < length (TrimSpace (rq_title r)) then [''title''] else []) @
            (if TrimSpace (rq_body r) = [] then [''body''] else []) @
            (if fst (rq_platforms r) = [] then [''platforms''] else [])"
  proof (cases e)
    case None
    with assms have "request_details r = []" by (auto simp: validate_eq split: if_splits)
    then have "request_details r' = []" using assms by (auto simp: validate_eq request_details_Nil)
    with None assms show ?thesis by (auto simp: validate_eq)
  next
    case (Some err)
    with assms have "ae_details err = request_details r" "ae_code err = ErrCodeValidation"
      by (auto simp: validate_eq split: if_splits)
    with Some show ?thesis
      by (simp only: option.case request_details_fields) (simp add: writeAppError_def writeJSON_def)
  qed
qed

definition example_request :: publishRequest where
  "example_request =
     \<lparr>rq_title = ''T'', rq_body = ''B'', rq_tags = ([], []), rq_platforms = ([''x'', ''y'', ''x''], [])\<rparr>"

lemma trim_example [simp]: "TrimSpace ''T'' = ''T''" "TrimSpace ''B'' = ''B''"
  by (simp_all add: TrimSpace_def strip_id no_leading_def go_spaces_def starts_with_def upt_rec char_of_def)

theorem validate_request_witness:
  "validatePublishRequest example_request = (example_request, None)"
proof -
  obtain r' e where v: "validatePublishRequest example_request = (r', e)" by fastforce
  have "r' = example_request"
    using validate_request [OF v] by (simp add: example_request_def)
  moreover have "e = None"
    using validate_request [OF v] by (simp add: example_request_def)
  ultimately show ?thesis using v by simp
qed

lemma rev_concat_replicate: "rev (concat (replicate n xs)) = concat (replicate n (rev xs))"
proof (induction n)
  case (Suc n)
  have "concat (replicate n ys) @ ys = ys @ concat (replicate n ys)" for ys :: "'a list"
    by (induction n) simp_all
  with Suc show ?case by simp
qed simp

lemma trim_long: "TrimSpace (concat (replicate 101 (bytes [0xC3, 0xA9]))) = concat (replicate 101 (bytes [0xC3, 0xA9]))"
proof -
  have r: "replicate 101 x = x # replicate 100 x" for x :: string
    using replicate_Suc [of 100 x] by simp
  let ?t = "concat (replicate 101 (bytes [0xC3, 0xA9]))"
  have "no_leading go_spaces (bytes [0xC3, 0xA9] @ u)" for u
    by (simp add: no_leading_def go_spaces_def starts_with_def upt_rec char_of_def)
  then have "strip go_spaces ?t = ?t" by (intro strip_id) (simp only: r concat.simps)
  moreover have "no_leading (map rev go_spaces) (rev (bytes [0xC3, 0xA9]) @ u)" for u
    by (simp add: no_leading_def go_spaces_def starts_with_def upt_rec char_of_def)
  moreover have "rev ?t = rev (bytes [0xC3, 0xA9]) @ concat (replicate 100 (rev (bytes [0xC3, 0xA9])))"
    unfolding rev_concat_replicate by (simp only: r concat.simps)
  ultimately have "strip (map rev go_spaces) (rev ?t) = rev ?t" "strip go_spaces ?t = ?t"
    using strip_id by metis+
  then show ?thesis by (simp only: TrimSpace_def rev_rev_ident)
qed

text \<open>
  The title limit counts bytes (\<open>validatePublishRequest\<close>): a title of 101 two-byte characters
  is refused with the message that it must be 200 characters or less.
\<close>

theorem title_limit_in_bytes:
  "snd (validatePublishRequest
     \<lparr>rq_title = concat (replicate 101 (bytes [0xC3, 0xA9])), rq_body = ''B'', rq_tags = ([], []),
      rq_platforms = ([''x''], [])\<rparr>) =
   Some \<lparr>ae_code = ErrCodeValidation, ae_message = ''validation failed with '' @ dec_nat 1 @ '' error(s)'',
     ae_details = [\<lparr>ed_field = ''title'', ed_message = ''title must be 200 characters or less''\<rparr>]\<rparr>"
proof -
  have "length (concat (replicate n (bytes [0xC3, 0xA9]))) = 2 * n" for n
    by (induction n) simp_all
  then have len: "length (concat (replicate 101 (bytes [0xC3, 0xA9]))) = 202" by simp
  then have "concat (replicate 101 (bytes [0xC3, 0xA9])) \<noteq> []" by (metis length_0_conv zero_neq_numeral)
  with len show ?thesis
    by (simp only: validate_eq request_details_def publishRequest.simps trim_long trim_example) simp
qed

section \<open>Publishing\<close>

lemma api_handler_simps [simp]:
  "ph_ContentStore api_handler = MemoryContentStore" "ph_TaskStore api_handler = MemoryPublishTaskStore"
  "EnqueuePublish (ph_Enqueuer api_handler) p opts = ret None"
  by (simp_all add: api_handler_def noOpEnqueuer_def)

text \<open>The members of a list in the order of their first occurrences.\<close>

definition firsts :: "'b list \<Rightarrow> 'b list" where
  "firsts xs = rev (remdups (rev xs))"

lemma remdups_snoc: "remdups (ys @ [p]) = remdups (filter (\<lambda>q. q \<noteq> p) ys) @ [p]"
  by (induction ys) auto

lemma firsts_Cons [simp]: "firsts (p # ps) = p # firsts (filter (\<lambda>q. q \<noteq> p) ps)"
  by (simp add: firsts_def remdups_snoc rev_filter)

lemma firsts_Nil [simp]: "firsts [] = []"
  by (simp add: firsts_def)

text \<open>The statuses \<open>ts\<close> report pending tasks of content \<open>i\<close> that are stored and that \<open>s\<close> lacked.\<close>

definition tasks_created ::
  "string \<Rightarrow> TaskStatus list \<Rightarrow> 'a MemoryStorage_scheme \<Rightarrow> 'a MemoryStorage_scheme \<Rightarrow> bool" where
  "tasks_created i ts s s' \<longleftrightarrow>
     (\<forall>t \<in> set ts. ms_task_map s (ts_task_id t) = None \<and>
        (\<exists>u. ms_task_map s' (ts_task_id t) = Some u \<and> pending_task i (ts_platform t) u \<and> t = task_to_status u)) \<and>
     (\<forall>j. j \<notin> ts_task_id ` set ts \<longrightarrow> ms_task_map s' j = ms_task_map s j)"

lemma tasks_created_Cons:
  assumes "tasks_created i ts s1 s'" "ms_task_map s1 = (ms_task_map s)(pt_id u \<mapsto> u)"
    and "ms_task_map s (pt_id u) = None" "pending_task i (pt_platform u) u"
  shows "tasks_created i (task_to_status u # ts) s s'"
proof -
  have ts: "ms_task_map s1 (ts_task_id t) = None"
    "\<exists>u. ms_task_map s' (ts_task_id t) = Some u \<and> pending_task i (ts_platform t) u \<and> t = task_to_status u"
    if "t \<in> set ts" for t
    using assms(1) that by (auto simp: tasks_created_def)
  then have notin: "pt_id u \<notin> ts_task_id ` set ts" using assms(2) by force
  then have "ms_task_map s' (pt_id u) = Some u" using assms(1,2) by (simp add: tasks_created_def)
  moreover have "ms_task_map s (ts_task_id t) = None" if "t \<in> set ts" for t
    using ts(1) [OF that] assms(2) by (auto split: if_splits)
  moreover have "ms_task_map s' j = ms_task_map s j" if "j \<noteq> pt_id u" "j \<notin> ts_task_id ` set ts" for j
    using assms(1,2) that by (simp add: tasks_created_def)
  moreover have "ts_task_id (task_to_status u) = pt_id u" "ts_platform (task_to_status u) = pt_platform u"
    by (simp_all add: task_to_status_def)
  ultimately show ?thesis using ts(2) assms(3,4) by (simp add: tasks_created_def)
qed

lemma fresh_less: "fresh_until s n \<Longrightarrow> m \<le> n \<Longrightarrow> fresh_until s m"
  by (auto simp: fresh_until_def elim: inj_on_subset)

lemma fresh_later:
  "fresh_until s n \<Longrightarrow> same_but_env s s' \<Longrightarrow> m \<le> n \<Longrightarrow> fresh_until s' m"
  using uuid_at_env [of s s'] by (auto simp: fresh_until_def elim: inj_on_subset)

lemma create_tasks_memory:
  assumes "task_wf s" "fresh_until s (tick s + 3 * length ps)"
    and "run_state (create_tasks api_handler i ps) s = (ts, s')"
  shows "map ts_platform ts = firsts (filter (\<lambda>p. \<not> has_pair (ms_task_map s) i p) ps) \<and>
     tasks_created i ts s s' \<and> task_wf s' \<and> ms_contents s' = ms_contents s \<and> same_but_env s s'"
  using assms
proof (induction ps arbitrary: s ts s')
  case Nil
  then show ?case by (auto simp: tasks_created_def same_but_env_def)
next
  case (Cons p ps)
  let ?s1 = "fin (mts_CreateTask i p) s"
  have tick: "tick ?s1 \<le> tick s + 3" "same_but_env s ?s1" "ms_contents ?s1 = ms_contents s"
    by (auto simp: run_mts_CreateTask Let_def same_but_env_def ms_contents_def)
  have wf1: "task_wf ?s1"
    by (rule create_task_wf [OF Cons.prems(1)]) (use Cons.prems(2) tick in \<open>simp add: fresh_until_def inj_on_def\<close>)
  have fresh1: "fresh_until ?s1 (tick ?s1 + 3 * length ps)"
    by (rule fresh_later [OF Cons.prems(2) tick(2)]) (use tick(1) in simp)
  note IH = Cons.IH [OF wf1 fresh1]
  show ?case
  proof (cases "has_pair (ms_task_map s) i p")
    case True
    then have "run_state (create_tasks api_handler i ps) ?s1 = (ts, s')"
      and same: "ms_task_map ?s1 = ms_task_map s"
      using Cons.prems(3) by (simp_all add: run_mts_CreateTask)
    from IH [OF this(1)] True tick show ?thesis
      by (auto simp: same tasks_created_def same_but_env_def)
  next
    case False
    let ?t = "new_task (uuid_at s (tick s + 2)) (clock s (tick s + 1)) i p"
    define ts' where "ts' = res (create_tasks api_handler i ps) ?s1"
    have run: "run_state (create_tasks api_handler i ps) ?s1 = (ts', s')"
      and ts: "ts = task_to_status ?t # ts'"
      using Cons.prems(3) False
      by (simp_all add: ts'_def run_mts_CreateTask Let_def split_def task_to_status_def new_task_def
          prod_eq_iff)
    have map1: "ms_task_map ?s1 = (ms_task_map s)(pt_id ?t \<mapsto> ?t)"
      using False by (simp add: run_mts_CreateTask Let_def)
    have "\<not> drawn s (pt_id ?t)" using drawn_next [OF Cons.prems(2)] by simp
    then have new: "ms_task_map s (pt_id ?t) = None"
      using Cons.prems(1) by (cases "ms_task_map s (pt_id ?t)") (auto simp: task_wf_def)
    have pair: "has_pair (ms_task_map ?s1) i q \<longleftrightarrow> q = p \<or> has_pair (ms_task_map s) i q" for q
      using new by (auto simp: map1 has_pair_def) (metis option.simps(3))
    from IH [OF run] have IH':
      "map ts_platform ts' = firsts (filter (\<lambda>q. \<not> has_pair (ms_task_map ?s1) i q) ps)"
      "tasks_created i ts' ?s1 s'" "task_wf s'" "ms_contents s' = ms_contents ?s1" "same_but_env ?s1 s'"
      by blast+
    have "filter (\<lambda>q. \<not> has_pair (ms_task_map ?s1) i q) ps =
        filter (\<lambda>q. q \<noteq> p) (filter (\<lambda>q. \<not> has_pair (ms_task_map s) i q) ps)"
      by (simp add: pair conj_commute)
    then have "map ts_platform ts = firsts (filter (\<lambda>q. \<not> has_pair (ms_task_map s) i q) (p # ps))"
      using False by (simp add: ts IH'(1) task_to_status_def)
    moreover have "tasks_created i ts s s'"
      unfolding ts using tasks_created_Cons [OF IH'(2) map1 new] by simp
    ultimately show ?thesis
      using IH' tick by (auto simp: same_but_env_def)
  qed
qed

section \<open>Decoding\<close>

lemma request_names [simp]:
  "name_matches ''title'' ''body'' = False" "name_matches ''title'' ''tags'' = False"
  "name_matches ''title'' ''platforms'' = False" "name_matches ''body'' ''tags'' = False"
  "name_matches ''body'' ''platforms'' = False" "name_matches ''tags'' ''platforms'' = False"
  by (simp_all add: name_matches_def starts_with_def upper_byte_def Let_def char_of_def)

lemma decode_canonical:
  "decode_request (JObject [(''title'', JString t), (''body'', JString b), (''tags'', JArray (map JString gs)),
     (''platforms'', JArray (map JString ps))]) =
   Some \<lparr>rq_title = t, rq_body = b, rq_tags = (gs, []), rq_platforms = (ps, [])\<rparr>"
  by (simp add: decode_request_def decode_object_Cons request_field_def empty_request_def)

lemma decode_object_append:
  "decode_object f (JObject (xs @ ys)) v = Option.bind (decode_object f (JObject xs) v) (decode_object f (JObject ys))"
proof (induction xs arbitrary: v)
  case (Cons kx xs)
  show ?case
    by (cases kx; cases "f (fst kx) (snd kx) v") (simp_all add: decode_object_Cons Cons.IH)
qed simp

text \<open>
  C37. Decoding of publish requests (\<open>publishRequest\<close> and its tags): the bytes a client marshals from a title,
  a body, tags and platforms, whatever follows them, decode to exactly these, with bytes that are
  not UTF-8 replaced; a name that is none of the four, in any case, is skipped wherever it stands; and
  a title that is neither a string nor null makes the whole request invalid.
\<close>

theorem request_decoding:
  "Option.bind (decode_stream (json_text (JObject [(''title'', JString t), (''body'', JString b),
       (''tags'', JArray (map JString gs)), (''platforms'', JArray (map JString ps))]) @ rest)) decode_request =
     Some \<lparr>rq_title = to_valid t, rq_body = to_valid b, rq_tags = (map to_valid gs, []),
           rq_platforms = (map to_valid ps, [])\<rparr> \<and>
   (list_ex (\<lambda>n. name_matches n k) [''title'', ''body'', ''tags'', ''platforms''] \<or>
     decode_request (JObject (xs @ (k, v) # ys)) = decode_request (JObject (xs @ ys))) \<and>
   (v = JNull \<or> (\<exists>s. v = JString s) \<or> decode_request (JObject (xs @ (''Title'', v) # ys)) = None)"
proof (intro conjI)
  show "list_ex (\<lambda>n. name_matches n k) [''title'', ''body'', ''tags'', ''platforms''] \<or>
      decode_request (JObject (xs @ (k, v) # ys)) = decode_request (JObject (xs @ ys))"
    by (cases "decode_object request_field (JObject xs) empty_request")
      (simp_all add: decode_request_def decode_object_append decode_object_Cons request_field_def)
  have "name_matches ''title'' ''Title''" by code_simp
  then show "v = JNull \<or> (\<exists>s. v = JString s) \<or> decode_request (JObject (xs @ (''Title'', v) # ys)) = None"
    by (cases "decode_object request_field (JObject xs) empty_request"; cases v)
      (simp_all add: decode_request_def decode_object_append decode_object_Cons request_field_def)
next
  let ?j = "JObject [(''title'', JString t), (''body'', JString b),
       (''tags'', JArray (map JString gs)), (''platforms'', JArray (map JString ps))]"
  have "plain ?j" "nesting ?j \<le> maxNestingDepth"
    by (simp_all add: maxNestingDepth_def del: nesting.simps(1) plain.simps(1))
  from read_json_text(2) [OF this, of rest]
  show "Option.bind (decode_stream (json_text ?j @ rest)) decode_request =
     Some \<lparr>rq_title = to_valid t, rq_body = to_valid b, rq_tags = (map to_valid gs, []),
           rq_platforms = (map to_valid ps, [])\<rparr>"
    using decode_canonical [of "to_valid t" "to_valid b" "map to_valid gs" "map to_valid ps"]
    by (simp del: json_text.simps valid_json.simps(2))
qed

end
