(* ===== verification/ServerProofs.thy ===== *)
theory ServerProofs
  imports ApiProofs
begin

text \<open>
  The API server as a whole. Requests are served concurrently, and every call of a store is atomic, so
  a run of the server is an interleaving of the store calls its handlers make: \<open>server_op\<close> is one such
  call, and \<open>serve_is_run\<close> shows that each request is a sequence of them. The invariant holds for
  every interleaving; the answers of single requests follow from it.
\<close>

section \<open>Runs\<close>

inductive server_op :: "'a MemoryStorage_scheme \<Rightarrow> 'a MemoryStorage_scheme \<Rightarrow> bool" where
  create: "server_op s (fin (mcs_CreateContent title body tags) s)"
| ready: "server_op s (fin (mcs_UpdateContent i ContentStatusReady 1) s)"
| publishing: "server_op s (fin (mcs_UpdateContent i ContentStatusPublishing 2) s)"
| task: "ms_contents s i \<noteq> None \<Longrightarrow> server_op s (fin (mts_CreateTask i p) s)"
| content: "server_op s (fin (mcs_GetContent i) s)"
| tasks: "server_op s (fin (mts_GetTasksByContent i) s)"

text \<open>What every such state satisfies.\<close>

definition server_inv :: "'a MemoryStorage_scheme \<Rightarrow> bool" where
  "server_inv s \<longleftrightarrow> content_wf s \<and> task_wf s \<and>
     (\<forall>i c v. ms_contents s i = Some (c, v) \<longrightarrow>
        (v, ct_status c) \<in> {(1, ContentStatusDraft), (2, ContentStatusReady), (3, ContentStatusPublishing)}) \<and>
     (\<forall>j t. ms_task_map s j = Some t \<longrightarrow>
        ms_contents s (pt_content_id t) \<noteq> None \<and> pending_task (pt_content_id t) (pt_platform t) t)"

lemma server_op_step: "server_op s s' \<Longrightarrow> ms_step s s'"
  by (induction rule: server_op.induct) (rule ms_step.intros)+

lemma ms_step_keeps_content: "history s s' \<Longrightarrow> ms_contents s i \<noteq> None \<Longrightarrow> ms_contents s' i \<noteq> None"
  by (fastforce simp: history_def)

lemma create_view:
  "\<exists>c. ms_contents (fin (mcs_CreateContent title body tags) s) = (ms_contents s)(ct_id c \<mapsto> (c, 1)) \<and>
     ct_status c = ContentStatusDraft"
  by (rule exI [of _ "new_content (uuid_at s (Suc (tick s))) (clock s (tick s)) title body tags"])
    (simp add: run_mcs_CreateContent Let_def)

lemma create_task_view:
  "ms_task_map (fin (mts_CreateTask i p) s) = ms_task_map s \<or>
   (\<exists>t. ms_task_map (fin (mts_CreateTask i p) s) = (ms_task_map s)(pt_id t \<mapsto> t) \<and> pending_task i p t)"
proof (cases "has_pair (ms_task_map s) i p")
  case False
  then show ?thesis
    by (intro disjI2 exI [of _ "new_task (uuid_at s (tick s + 2)) (clock s (tick s + 1)) i p"])
      (simp add: run_mts_CreateTask Let_def)
qed (simp add: run_mts_CreateTask)

lemma views_of_ops [simp]:
  "ms_task_map (fin (mcs_CreateContent title body tags) s) = ms_task_map s"
  "ms_task_map (fin (mcs_UpdateContent i st v) s) = ms_task_map s"
  "ms_contents (fin (mts_CreateTask i p) s) = ms_contents s"
  "fin (mcs_GetContent i) s = s"
  "ms_contents (fin (mts_GetTasksByContent i) s) = ms_contents s"
  "ms_task_map (fin (mts_GetTasksByContent i) s) = ms_task_map s"
proof -
  show "ms_task_map (fin (mcs_UpdateContent i st v) s) = ms_task_map s"
  proof (cases "\<exists>c. ms_contents s i = Some (c, v)")
    case False
    then show ?thesis
      by (cases "ms_contents s i") (auto simp: run_mcs_UpdateContent(1,2))
  qed (auto simp: run_mcs_UpdateContent(3) ms_task_map_def)
qed (auto simp: run_mcs_CreateContent run_mts_CreateTask run_mcs_GetContent mts_GetTasksByContent_def
    Let_def ms_task_map_def ms_contents_def)

lemma update_content_view:
  "ms_contents (fin (mcs_UpdateContent i st v) s) = ms_contents s \<or>
   (\<exists>c now. ms_contents s i = Some (c, v) \<and> ms_contents (fin (mcs_UpdateContent i st v) s) =
      (ms_contents s)(i \<mapsto> (c\<lparr>ct_status := st, ct_updated_at := now\<rparr>, v + 1)))"
proof (cases "\<exists>c. ms_contents s i = Some (c, v)")
  case False
  then show ?thesis by (cases "ms_contents s i") (auto simp: run_mcs_UpdateContent(1,2))
next
  case True
  then show ?thesis by (auto simp: run_mcs_UpdateContent(3))
qed

lemma content_updated:
  assumes "ms_contents s i = Some (c, v)"
  shows "res (mcs_UpdateContent i st v) s = None"
    and "ms_contents (fin (mcs_UpdateContent i st v) s) =
           (ms_contents s)(i \<mapsto> (c\<lparr>ct_status := st, ct_updated_at := clock s (tick s)\<rparr>, v + 1))"
    and "tick (fin (mcs_UpdateContent i st v) s) = Suc (tick s)"
    and "same_but_env s (fin (mcs_UpdateContent i st v) s)"
  by (simp_all add: run_mcs_UpdateContent(3) [OF assms] same_but_env_def)

lemma server_op_inv:
  assumes "server_op s s'" "fresh_until s (tick s')" "server_inv s"
  shows "server_inv s'"
proof -
  have wf: "content_wf s'" "history s s'" "task_wf s'"
    using ms_step_wf [OF server_op_step [OF assms(1)] assms(2)] assms(3) by (auto simp: server_inv_def)
  show ?thesis
    using assms(1,3) wf
  proof (induction rule: server_op.induct)
    case (create s title body tags)
    then show ?case using create_view [of title body tags s]
      by (elim exE conjE) (auto simp: server_inv_def split: if_splits)
  next
    case (ready s i)
    then show ?case using update_content_view [of i ContentStatusReady 1 s]
      by (elim disjE exE conjE) (auto simp: server_inv_def split: if_splits)
  next
    case (publishing s i)
    then show ?case using update_content_view [of i ContentStatusPublishing 2 s]
      by (elim disjE exE conjE) (auto simp: server_inv_def split: if_splits)
  next
    case (task s i p)
    then show ?case using create_task_view [of i p s]
      by (elim disjE exE conjE) (auto simp: server_inv_def pending_task_def split: if_splits)
  qed (auto simp: server_inv_def)
qed

lemma server_run_inv:
  assumes "server_op\<^sup>*\<^sup>* s s'" "fresh_until s (tick s')" "server_inv s"
  shows "server_inv s' \<and> same_but_env s s'"
  using assms
proof (induction rule: rtranclp_induct)
  case base
  then show ?case by (simp add: same_but_env_def)
next
  case (step t u)
  have env: "same_but_env t u" using ms_step_env [OF server_op_step [OF step.hyps(2)]] .
  then have "fresh_until s (tick t)"
    using step.prems(1) by (auto simp: fresh_until_def same_but_env_def elim: inj_on_subset)
  with step.IH step.prems have t: "server_inv t" "same_but_env s t" by blast+
  then have "fresh_until t (tick u)" using fresh_later [OF step.prems(1)] by blast
  from server_op_inv [OF step.hyps(2) this t(1)] t(2) env show ?case by (auto simp: same_but_env_def)
qed

lemma new_server_inv: "server_inv (NewMemoryStorage e)"
  using empty_wf by (simp add: server_inv_def)

section \<open>Requests are runs\<close>

lemma MemoryPublishTaskStore_list [simp]:
  "GetTasksByContent MemoryPublishTaskStore = mts_GetTasksByContent"
  by (simp add: MemoryPublishTaskStore_def)

definition ran_from :: "'a MemoryStorage_scheme \<Rightarrow> 'a MemoryStorage_scheme \<Rightarrow> bool" where
  "ran_from s0 s \<longleftrightarrow> server_op\<^sup>*\<^sup>* s0 s"

definition ran_with :: "string \<Rightarrow> 'a MemoryStorage_scheme \<Rightarrow> 'a MemoryStorage_scheme \<Rightarrow> bool" where
  "ran_with i s0 s \<longleftrightarrow> server_op\<^sup>*\<^sup>* s0 s \<and> ms_contents s i \<noteq> None"

lemma ran_step: "ran_from s0 s \<Longrightarrow> server_op s s' \<Longrightarrow> ran_from s0 s'"
  by (simp add: ran_from_def)

lemma ran_keeps:
  "keeps (ran_from s0) (mcs_GetContent i)" "keeps (ran_from s0) (mts_GetTasksByContent i)"
  by (rule keepsI, erule ran_step, rule server_op.intros)+

lemma ran_with_keeps:
  "keeps (ran_with i s0) (mcs_UpdateContent j ContentStatusReady 1)"
  "keeps (ran_with i s0) (mcs_UpdateContent j ContentStatusPublishing 2)"
  "keeps (ran_with i s0) (mts_CreateTask i p)"
proof -
  have "ms_contents (fin (mcs_UpdateContent j st v) s) i \<noteq> None" if "ms_contents s i \<noteq> None"
    for s :: "'a MemoryStorage_scheme" and j st v
    using update_content_view [of j st v s] that by auto
  then show "keeps (ran_with i s0) (mcs_UpdateContent j ContentStatusReady 1)"
    and "keeps (ran_with i s0) (mcs_UpdateContent j ContentStatusPublishing 2)"
    and "keeps (ran_with i s0) (mts_CreateTask i p)"
    by (rule_tac [!] keepsI, unfold ran_with_def)
      (auto simp del: not_None_eq intro: rtranclp.rtrancl_into_rtrancl server_op.intros)
qed

lemma ran_with_create:
  "triple (ran_from s0) (mcs_CreateContent title body tags)
     (\<lambda>r s. case r of Inl _ \<Rightarrow> False | Inr c \<Rightarrow> ran_with (ct_id c) s0 s)"
proof (rule tripleI)
  fix s assume "ran_from s0 s"
  then have "server_op\<^sup>*\<^sup>* s0 (fin (mcs_CreateContent title body tags) s)"
    unfolding ran_from_def by (rule rtranclp.rtrancl_into_rtrancl) (rule server_op.create)
  then show "case res (mcs_CreateContent title body tags) s of Inl _ \<Rightarrow> False
      | Inr c \<Rightarrow> ran_with (ct_id c) s0 (fin (mcs_CreateContent title body tags) s)"
    by (simp add: ran_with_def run_mcs_CreateContent Let_def)
qed

lemma create_tasks_ran: "keeps (ran_with i s0) (create_tasks api_handler i ps)"
  by (induction ps) (auto intro!: keeps_intros ran_with_keeps simp: Let_def)

lemma created_ran:
  assumes "\<And>c. keeps (ran_with (ct_id c) s0) (f c)"
  shows "keeps (ran_from s0) (mcs_CreateContent title body tags \<bind>
           (\<lambda>r. case r of Inl err \<Rightarrow> ret e | Inr c \<Rightarrow> f c))"
  unfolding keeps_def
proof (rule triple_bind [OF ran_with_create])
  fix r :: "Content result"
  show "triple (\<lambda>s. case r of Inl _ \<Rightarrow> False | Inr c \<Rightarrow> ran_with (ct_id c) s0 s)
      (case r of Inl err \<Rightarrow> ret e | Inr c \<Rightarrow> f c) (\<lambda>_. ran_from s0)"
  proof (cases r)
    case (Inr c)
    have "triple (ran_with (ct_id c) s0) (f c) (\<lambda>_. ran_with (ct_id c) s0)"
      using assms [of c] by (simp add: keeps_def)
    then show ?thesis unfolding Inr sum.case
      by (rule triple_weaken) (simp_all add: ran_with_def ran_from_def)
  qed (simp add: triple_def)
qed

text \<open>Every request, whatever it is, is a sequence of the store calls above.\<close>

lemma api_server_ran: "keeps (ran_from s0) (api_server req)"
proof -
  have web: "wh_ContentStore (web_NewHandler cs ts) = cs" "wh_TaskStore (web_NewHandler cs ts) = ts"
    for cs :: "('a MemoryStorage_scheme) ContentStore" and ts
    by (simp_all add: web_NewHandler_def)
  note ops = created_ran keeps_intros ran_keeps ran_with_keeps create_tasks_ran
  show ?thesis
    unfolding api_server_def serve_def Let_def
    by (cases req; hypsubst; unfold request.case api_HandlePublish_def publish_created_def
        api_HandlePublishStatus_def web_HandlePublish_def web_HandleStatus_def web_HandleStatusPoll_def
        page_tasks_def api_handler_simps web MemoryContentStore_simps MemoryPublishTaskStore_simps
        MemoryPublishTaskStore_list Let_def; intro ops)
qed

text \<open>The content part of a publish: created, made ready, set to publishing.\<close>

lemma content_prepared:
  assumes "server_inv s" and "fresh_until s (tick s + 2)"
  obtains c s1 s2 s3 c' where
    "run_state (mcs_CreateContent title body tags) s = (Inr c, s1)"
    "run_state (mcs_UpdateContent (ct_id c) ContentStatusReady 1) s1 = (None, s2)"
    "run_state (mcs_UpdateContent (ct_id c) ContentStatusPublishing 2) s2 = (None, s3)"
    "ct_status c = ContentStatusDraft" "ms_contents s (ct_id c) = None"
    "ms_contents s3 = (ms_contents s)(ct_id c \<mapsto> (c', 3))"
    "ct_title c' = title" "ct_body c' = body" "ct_tags c' = tags" "ct_status c' = ContentStatusPublishing"
    "ms_task_map s3 = ms_task_map s" "tick s3 = tick s + 4" "same_but_env s s3" "task_wf s3"
    "\<And>p. \<not> has_pair (ms_task_map s3) (ct_id c) p"
proof -
  let ?create = "mcs_CreateContent title body tags"
  define i where "i = uuid_at s (tick s + 1)"
  define c1 where "c1 = new_content i (clock s (tick s)) title body tags"
  let ?s1 = "fin ?create s"
  let ?s2 = "fin (mcs_UpdateContent i ContentStatusReady 1) ?s1"
  let ?s3 = "fin (mcs_UpdateContent i ContentStatusPublishing 2) ?s2"
  have s1: "res ?create s = Inr c1" "ms_contents ?s1 = (ms_contents s)(i \<mapsto> (c1, 1))" "tick ?s1 = tick s + 2"
    "same_but_env s ?s1"
    by (simp_all add: run_mcs_CreateContent Let_def same_but_env_def c1_def i_def)
  then have "ms_contents ?s1 i = Some (c1, 1)" by simp
  note s2 = content_updated [OF this, of ContentStatusReady]
  define c2 where "c2 = c1\<lparr>ct_status := ContentStatusReady, ct_updated_at := clock ?s1 (tick ?s1)\<rparr>"
  have "ms_contents ?s2 i = Some (c2, 2)" using s2(2) by (simp add: c2_def)
  note s3 = content_updated [OF this, of ContentStatusPublishing]
  define c3 where "c3 = c2\<lparr>ct_status := ContentStatusPublishing, ct_updated_at := clock ?s2 (tick ?s2)\<rparr>"
  have s3': "ms_contents ?s3 = (ms_contents s)(i \<mapsto> (c3, 3))" "tick ?s3 = tick s + 4" "same_but_env s ?s3"
    using s1 s2 s3 by (simp_all add: c3_def c2_def same_but_env_def)
  have tasks: "ms_task_map ?s3 = ms_task_map s" by simp
  have new: "ms_contents s i = None"
    using drawn_next [OF assms(2), of "tick s + 1"] assms(1)
    by (cases "ms_contents s i") (auto simp: server_inv_def content_wf_def i_def)
  then have none: "\<not> has_pair (ms_task_map ?s3) i p" for p
    using assms(1) unfolding tasks by (force simp: server_inv_def has_pair_def)
  have wf: "task_wf ?s3"
    using assms(1) s3'(3) by (auto simp: tasks task_wf_def ms_inv_def server_inv_def intro: drawn_later)
  have fields: "ct_title c3 = title" "ct_body c3 = body" "ct_tags c3 = tags"
    "ct_status c3 = ContentStatusPublishing" "ct_status c1 = ContentStatusDraft" "ct_id c1 = i"
    by (simp_all add: c3_def c2_def c1_def)
  from that [of c1 ?s1 ?s2 ?s3 c3] s1(1) s2(1) s3(1) s3' tasks new none wf fields show thesis
    by (simp add: prod_eq_iff)
qed

section \<open>Properties of the server\<close>

text \<open>
  C15. The server as wired publishes nothing (\<open>main\<close>, \<open>buildRouter\<close>, the handlers of \<open>api\<close> and \<open>web\<close>): in
  every state reachable by any interleaving of its handlers' store calls, each content is a draft of
  version 1, ready at version 2 or publishing at version 3, and each task belongs to a stored content
  and is pending with no attempt made: the enqueuer does nothing and no worker runs.
\<close>

theorem server_never_publishes:
  fixes s :: MemoryStorage
  assumes "server_op\<^sup>*\<^sup>* (NewMemoryStorage e) s" and "fresh_until (NewMemoryStorage e) (tick s)"
  shows "(\<forall>c \<in> ran (ms_contents s).
           (snd c, ct_status (fst c)) \<in>
             {(1, ContentStatusDraft), (2, ContentStatusReady), (3, ContentStatusPublishing)}) \<and>
         (\<forall>t \<in> ran (ms_task_map s).
           pt_status t = PublishTaskStatusPending \<and> pt_attempt_count t = 0 \<and>
           ms_contents s (pt_content_id t) \<noteq> None)"
proof (intro conjI)
  have inv: "server_inv s" using server_run_inv [OF assms(1,2) new_server_inv] by blast
  show "\<forall>c \<in> ran (ms_contents s). (snd c, ct_status (fst c)) \<in>
      {(1, ContentStatusDraft), (2, ContentStatusReady), (3, ContentStatusPublishing)}"
  proof
    fix c assume "c \<in> ran (ms_contents s)"
    then obtain i where "ms_contents s i = Some (fst c, snd c)" by (auto simp: ran_def)
    with inv show "(snd c, ct_status (fst c)) \<in>
        {(1, ContentStatusDraft), (2, ContentStatusReady), (3, ContentStatusPublishing)}"
      unfolding server_inv_def by blast
  qed
  show "\<forall>t \<in> ran (ms_task_map s). pt_status t = PublishTaskStatusPending \<and> pt_attempt_count t = 0 \<and>
      ms_contents s (pt_content_id t) \<noteq> None"
  proof
    fix t assume "t \<in> ran (ms_task_map s)"
    then obtain j where "ms_task_map s j = Some t" by (auto simp: ran_def)
    with inv show "pt_status t = PublishTaskStatusPending \<and> pt_attempt_count t = 0 \<and>
        ms_contents s (pt_content_id t) \<noteq> None"
      unfolding server_inv_def pending_task_def by blast
  qed
qed

text \<open>
  C16. Requests refine the store runs (\<open>buildRouter\<close> and all handlers): serving any list of requests
  ends in a state that some sequence of the handlers' store calls reaches, so what holds of every
  interleaving of these calls holds after every list of requests.
\<close>

theorem requests_are_runs: "server_op\<^sup>*\<^sup>* s (fin (serve_all reqs) s)"
proof -
  have "keeps (ran_from s) (serve_all reqs)"
    by (induction reqs) (auto intro!: keeps_intros api_server_ran)
  from keepsD [OF this, of s] show ?thesis by (simp add: ran_from_def)
qed

text \<open>
  C14. An accepted publish (\<open>PublishHandler.HandlePublish\<close>): in every reachable state of the server,
  whatever happened before, a request whose body decodes and passes validation is answered 202 with a new
  content identifier and one task per distinct platform, in the order of first mention (a repeated
  platform is dropped without notice). The content is stored once with the trimmed title and body,
  publishing at version 3; the reported tasks are stored, pending, and nothing else has changed.
\<close>

theorem api_publish_accepted:
  fixes s :: MemoryStorage
  assumes "server_op\<^sup>*\<^sup>* (NewMemoryStorage e) s"
    and "fresh_until (NewMemoryStorage e) (tick s + 4 + 3 * length (fst (rq_platforms req)))"
    and "Option.bind (decode_stream text) decode_request = Some req" and "snd (validatePublishRequest req) = None"
  shows "\<exists>i ts c s'. run_state (api_HandlePublish api_handler text) s =
      (writeJSON 202 (PublishBatchResponse_json \<lparr>pb_content_id = i, pb_tasks = ts\<rparr>), s') \<and>
    ms_contents s i = None \<and> ms_contents s' = (ms_contents s)(i \<mapsto> (c, 3)) \<and>
    ct_title c = TrimSpace (rq_title req) \<and> ct_body c = TrimSpace (rq_body req) \<and>
    ct_tags c = fst (rq_tags req) \<and> ct_status c = ContentStatusPublishing \<and>
    map ts_platform ts = firsts (fst (rq_platforms req)) \<and> tasks_created i ts s s'"
proof -
  let ?ps = "fst (rq_platforms req)" and ?n = "tick s + 4 + 3 * length (fst (rq_platforms req))"
  let ?req = "req\<lparr>rq_title := TrimSpace (rq_title req), rq_body := TrimSpace (rq_body req)\<rparr>"
  have valid: "validatePublishRequest req = (?req, None)" and some: "?ps \<noteq> []"
    using assms(4) by (auto simp: validate_eq request_details_Nil split: if_splits)
  have inv: "server_inv s" and env: "same_but_env (NewMemoryStorage e) s"
    using server_run_inv [OF assms(1) fresh_less [OF assms(2)] new_server_inv] by simp_all
  have fresh: "fresh_until s ?n" by (rule fresh_later [OF assms(2) env]) simp
  then have "fresh_until s (tick s + 2)" by (rule fresh_less) simp
  then obtain c s1 s2 s3 c' where pre:
    "run_state (mcs_CreateContent (TrimSpace (rq_title req)) (TrimSpace (rq_body req)) (fst (rq_tags req))) s =
       (Inr c, s1)"
    "run_state (mcs_UpdateContent (ct_id c) ContentStatusReady 1) s1 = (None, s2)"
    "run_state (mcs_UpdateContent (ct_id c) ContentStatusPublishing 2) s2 = (None, s3)"
    "ct_status c = ContentStatusDraft" "ms_contents s (ct_id c) = None"
    "ms_contents s3 = (ms_contents s)(ct_id c \<mapsto> (c', 3))"
    "ct_title c' = TrimSpace (rq_title req)" "ct_body c' = TrimSpace (rq_body req)"
    "ct_tags c' = fst (rq_tags req)" "ct_status c' = ContentStatusPublishing"
    and tasks: "ms_task_map s3 = ms_task_map s" and tick: "tick s3 = tick s + 4"
    and env3: "same_but_env s s3" and wf: "task_wf s3" and none: "\<And>p. \<not> has_pair (ms_task_map s3) (ct_id c) p"
    by (rule content_prepared [OF inv, where title = "TrimSpace (rq_title req)"
        and body = "TrimSpace (rq_body req)" and tags = "fst (rq_tags req)"]) blast
  obtain ts s' where run: "run_state (create_tasks api_handler (ct_id c) ?ps) s3 = (ts, s')" by fastforce
  have "fresh_until s3 (tick s3 + 3 * length ?ps)"
    by (rule fresh_later [OF fresh env3]) (simp add: tick)
  from create_tasks_memory [OF wf this run] none
  have made: "map ts_platform ts = firsts ?ps" "tasks_created (ct_id c) ts s3 s'"
    "ms_contents s' = ms_contents s3"
    by auto
  then have "ts \<noteq> []" using some by (cases ?ps) auto
  then have "run_state (api_HandlePublish api_handler text) s =
      (writeJSON 202 (PublishBatchResponse_json \<lparr>pb_content_id = ct_id c, pb_tasks = ts\<rparr>), s')"
    using pre(1-3) run by (simp add: api_HandlePublish_def assms(3) valid publish_created_def split_def)
  moreover have "tasks_created (ct_id c) ts s s'" using made(2) by (simp add: tasks_created_def tasks)
  ultimately show ?thesis
    using pre(4-) made by (intro exI [of _ "ct_id c"] exI [of _ ts] exI [of _ c'] exI [of _ s']) simp
qed

section \<open>Status\<close>

definition tasks_of :: "'a MemoryStorage_scheme \<Rightarrow> string \<Rightarrow> PublishTask multiset" where
  "tasks_of s i = image_mset (\<lambda>j. the (ms_task_map s j))
     (mset_set {j. \<exists>t. ms_task_map s j = Some t \<and> pt_content_id t = i})"

lemma run_mts_GetTasksByContent:
  "\<exists>ts. run_state (mts_GetTasksByContent i) s = (Inr ts, s\<lparr>tick := Suc (tick s)\<rparr>) \<and>
     sorted (map pt_created_at ts) \<and> mset ts = tasks_of s i"
proof -
  let ?es = "map snd (shuffle (range_order s (tick s)) (DAList.impl_of (ms_tasks s)))"
  have "map copyTask xs = xs" for xs by (simp add: copyTask_def map_idI)
  moreover have "map (\<lambda>t. t) xs = xs" for xs :: "PublishTask list" by simp
  ultimately show ?thesis
    using filter_values_mset [of "\<lambda>t. pt_content_id t = i" "\<lambda>t. t" "range_order s (tick s)" "ms_tasks s"]
    by (simp add: mts_GetTasksByContent_def Let_def tasks_of_def ms_task_map_def)
qed

lemma all_terminal_iff: "all_terminal ts \<longleftrightarrow> (\<forall>t \<in> set ts. \<not> PublishTaskStatus_IsActive (ts_status t))"
  by (induction ts) auto

text \<open>
  C35. The status views (\<open>HandlePublishStatus\<close> of the API, \<open>HandleStatusPoll\<close> of the pages): for content
  that is not stored both answer 404; for stored content both report its status and exactly its tasks,
  oldest first, and change nothing; the page stops polling exactly when no task is active.
\<close>

theorem status_views:
  fixes s :: "'a MemoryStorage_scheme"
  assumes "i \<noteq> ''''"
  shows "case ms_contents s i of
      None \<Rightarrow>
        run_state (api_HandlePublishStatus api_handler i) s =
          (writeError 404 ErrCodeNotFound ''content not found'', s) \<and>
        run_state (web_HandleStatusPoll (web_NewHandler MemoryContentStore MemoryPublishTaskStore) i) s =
          (\<lparr>wr_status = 404, wr_page = NoBody\<rparr>, s)
    | Some (c, v) \<Rightarrow> \<exists>ts. mset ts = tasks_of s i \<and> sorted (map pt_created_at ts) \<and>
        run_state (api_HandlePublishStatus api_handler i) s =
          (writeJSON 200 (PublishStatus_json \<lparr>ps_content_id = ct_id c, ps_status = ct_status c,
             ps_tasks = map task_to_status ts\<rparr>), s\<lparr>tick := Suc (tick s)\<rparr>) \<and>
        run_state (web_HandleStatusPoll (web_NewHandler MemoryContentStore MemoryPublishTaskStore) i) s =
          (render (if \<forall>t \<in># tasks_of s i. \<not> PublishTaskStatus_IsActive (pt_status t)
                   then ''status-final.html'' else ''status-poll.html'')
             (Some \<lparr>pd_content_id = ct_id c, pd_tasks = map task_to_status ts, pd_status = ct_status c,
                pd_error = ''''\<rparr>), s\<lparr>tick := Suc (tick s)\<rparr>)"
proof (cases "ms_contents s i")
  case None
  with assms show ?thesis
    by (simp add: api_HandlePublishStatus_def web_HandleStatusPoll_def web_NewHandler_def run_mcs_GetContent)
next
  case (Some cv)
  obtain c v where cv: "cv = (c, v)" by fastforce
  obtain ts where ts: "run_state (mts_GetTasksByContent i) s = (Inr ts, s\<lparr>tick := Suc (tick s)\<rparr>)"
    "sorted (map pt_created_at ts)" "mset ts = tasks_of s i"
    using run_mts_GetTasksByContent by blast
  have "all_terminal (map task_to_status ts) \<longleftrightarrow>
      (\<forall>t \<in># tasks_of s i. \<not> PublishTaskStatus_IsActive (pt_status t))"
    unfolding all_terminal_iff ts(3) [symmetric] by (simp add: task_to_status_def)
  with ts assms Some cv show ?thesis
    by (auto simp: api_HandlePublishStatus_def web_HandleStatusPoll_def web_NewHandler_def
        run_mcs_GetContent page_tasks_def Let_def intro!: exI [of _ ts])
qed

text \<open>
  C36. The page after a form is posted (\<open>web.Handler.HandlePublish\<close>): in every reachable state of the
  server a form whose three fields are not empty (they are not trimmed, and the platform may be any
  text) stores the content publishing at version 3 with one pending task, but the page that is shown
  reports the status draft, which the content had when it was created.
\<close>

theorem web_publish_page:
  fixes s :: MemoryStorage
  assumes "server_op\<^sup>*\<^sup>* (NewMemoryStorage e) s" and "fresh_until (NewMemoryStorage e) (tick s + 7)"
    and "title \<noteq> ''''" and "body \<noteq> ''''" and "platform \<noteq> ''''"
  shows "\<exists>i t c s'. run_state (web_HandlePublish (web_NewHandler MemoryContentStore MemoryPublishTaskStore)
        title body platform) s =
      (render ''status.html'' (Some \<lparr>pd_content_id = i, pd_tasks = [task_to_status t],
         pd_status = ContentStatusDraft, pd_error = ''''\<rparr>), s') \<and>
    ms_contents s i = None \<and> ms_contents s' = (ms_contents s)(i \<mapsto> (c, 3)) \<and>
    ct_title c = title \<and> ct_body c = body \<and> ct_status c = ContentStatusPublishing \<and>
    ms_task_map s' = (ms_task_map s)(pt_id t \<mapsto> t) \<and> ms_task_map s (pt_id t) = None \<and>
    pending_task i platform t"
proof -
  have inv: "server_inv s" and env: "same_but_env (NewMemoryStorage e) s"
    using server_run_inv [OF assms(1) fresh_less [OF assms(2)] new_server_inv] by simp_all
  have fresh: "fresh_until s (tick s + 7)" by (rule fresh_later [OF assms(2) env]) simp
  then have "fresh_until s (tick s + 2)" by (rule fresh_less) simp
  then obtain c s1 s2 s3 c' where pre:
    "run_state (mcs_CreateContent title body []) s = (Inr c, s1)"
    "run_state (mcs_UpdateContent (ct_id c) ContentStatusReady 1) s1 = (None, s2)"
    "run_state (mcs_UpdateContent (ct_id c) ContentStatusPublishing 2) s2 = (None, s3)"
    "ct_status c = ContentStatusDraft"
    "ms_contents s (ct_id c) = None" "ms_contents s3 = (ms_contents s)(ct_id c \<mapsto> (c', 3))"
    "ct_title c' = title" "ct_body c' = body" "ct_tags c' = []" "ct_status c' = ContentStatusPublishing"
    and tasks: "ms_task_map s3 = ms_task_map s" and tick: "tick s3 = tick s + 4"
    and env3: "same_but_env s s3" and wf: "task_wf s3" and none: "\<And>p. \<not> has_pair (ms_task_map s3) (ct_id c) p"
    by (rule content_prepared [OF inv, where title = title and body = body and tags = "[]"]) blast
  define t where "t = new_task (uuid_at s3 (tick s3 + 2)) (clock s3 (tick s3 + 1)) (ct_id c) platform"
  have "\<not> drawn s3 (pt_id t)"
    unfolding t_def new_task_simps by (rule drawn_next [OF fresh_later [OF fresh env3 order_refl]]) (simp_all add: tick)
  then have new: "ms_task_map s (pt_id t) = None"
    using wf tasks by (cases "ms_task_map s (pt_id t)") (auto simp: task_wf_def)
  let ?s' = "fin (mts_CreateTask (ct_id c) platform) s3"
  have "res (mts_CreateTask (ct_id c) platform) s3 = Inr t"
    "ms_task_map ?s' = (ms_task_map s)(pt_id t \<mapsto> t)"
    using none tasks by (simp_all add: run_mts_CreateTask Let_def t_def)
  moreover have "ms_contents ?s' = ms_contents s3" by simp
  ultimately show ?thesis
    using pre new assms(3-5)
    by (intro exI [of _ "ct_id c"] exI [of _ t] exI [of _ c'] exI [of _ ?s'])
      (simp add: web_HandlePublish_def web_NewHandler_def task_to_status_def t_def new_task_def
        pending_task_def split_def)
qed

section \<open>Examples\<close>

lemma ms_example_server: "server_op\<^sup>*\<^sup>* (NewMemoryStorage env0) ms_example"
  unfolding ms_example_def by (intro r_into_rtranclp server_op.intros)

theorem server_never_publishes_witness:
  "let s = fin (mts_CreateTask ms_example_id ''x'') ms_example
   in \<forall>t \<in> ran (ms_task_map s). pt_status t = PublishTaskStatusPending \<and> pt_attempt_count t = 0 \<and>
        ms_contents s (pt_content_id t) \<noteq> None"
proof -
  let ?s = "fin (mts_CreateTask ms_example_id ''x'') ms_example"
  have "server_op ms_example ?s" by (rule server_op.task) simp
  then have run: "server_op\<^sup>*\<^sup>* (NewMemoryStorage env0) ?s" using ms_example_server by simp
  have "tick ?s \<le> 256" by (simp add: run_mts_CreateTask Let_def)
  from server_never_publishes [OF run fresh_example [OF this]] show ?thesis unfolding Let_def by (rule conjunct2)
qed

definition example_text :: string where
  "example_text = ''{\"title\":\"T\",\"body\":\"B\",\"platforms\":[\"x\",\"y\",\"x\"]}''"

lemma decode_example_text: "Option.bind (decode_stream example_text) decode_request = Some example_request"
proof -
  have "decode_stream example_text = Some (JObject [(''title'', JString ''T''), (''body'', JString ''B''),
      (''platforms'', JArray (map JString [''x'', ''y'', ''x'']))])"
    by code_simp
  moreover have "decode_request (JObject [(''title'', JString ''T''), (''body'', JString ''B''),
      (''platforms'', JArray (map JString [''x'', ''y'', ''x'']))]) = Some example_request"
    by (simp add: decode_request_def decode_object_Cons request_field_def empty_request_def
        example_request_def)
  ultimately show ?thesis by (simp only: Option.bind.simps)
qed

theorem api_publish_accepted_witness:
  "\<exists>i ts c s'. run_state (api_HandlePublish api_handler example_text) ms_example =
      (writeJSON 202 (PublishBatchResponse_json \<lparr>pb_content_id = i, pb_tasks = ts\<rparr>), s') \<and>
    ms_contents s' = (ms_contents ms_example)(i \<mapsto> (c, 3)) \<and> map ts_platform ts = [''x'', ''y'']"
proof -
  have valid: "snd (validatePublishRequest example_request) = None"
    by (simp add: validate_eq request_details_def example_request_def)
  from api_publish_accepted [OF ms_example_server _ decode_example_text valid] show ?thesis
    using fresh_example [of 15] by (fastforce simp: example_request_def)
qed

theorem status_views_witness:
  "run_state (api_HandlePublishStatus api_handler ''c'') (NewMemoryStorage env0) =
     (writeError 404 ErrCodeNotFound ''content not found'', NewMemoryStorage env0)"
  using status_views [of "''c''" "NewMemoryStorage env0"] by simp

theorem web_publish_page_witness:
  "\<exists>i t c s'. run_state (web_HandlePublish (web_NewHandler MemoryContentStore MemoryPublishTaskStore)
        '' '' ''B'' ''nowhere'') ms_example =
      (render ''status.html'' (Some \<lparr>pd_content_id = i, pd_tasks = [task_to_status t],
         pd_status = ContentStatusDraft, pd_error = ''''\<rparr>), s') \<and>
    ms_contents s' i = Some (c, 3) \<and> ct_status c = ContentStatusPublishing"
proof -
  have "fresh_until (NewMemoryStorage env0) (tick ms_example + 7)"
    using fresh_example [of 9] by simp
  have "'' '' \<noteq> ''''" "''B'' \<noteq> ''''" "''nowhere'' \<noteq> ''''" by simp_all
  from web_publish_page [OF ms_example_server \<open>fresh_until _ _\<close> this]
  show ?thesis by (metis (no_types, lifting) fun_upd_same)
qed

end
