(* ===== verification/GoStrconv.thy ===== *)
theory GoStrconv
  imports GoFloat GoJsonText
begin

text \<open>
  What the configuration uses of Go's parsers: \<open>strconv.Atoi\<close> (decimal, of 64 bits),
  \<open>strconv.ParseBool\<close> and \<open>time.ParseDuration\<close> with its limits: whole parts up to \<open>2 ^ 63\<close>, fractions
  scaled in \<open>float64\<close>, sums of parts in 64-bit words, and the parts in any order.
\<close>

section \<open>Integers and truth values\<close>

definition Atoi :: "string \<Rightarrow> int option" where
  "Atoi s =
     (let neg = starts_with s ''-'';
          ds = (if neg \<or> starts_with s ''+'' then tl s else s);
          n = (if neg then - int (read_dec ds) else int (read_dec ds))
      in if ds \<noteq> [] \<and> list_all is_digit ds \<and> int64 n then Some n else None)"

definition ParseBool :: "string \<Rightarrow> bool option" where
  "ParseBool s =
     (if s \<in> set [''1'', ''t'', ''T'', ''TRUE'', ''true'', ''True''] then Some True
      else if s \<in> set [''0'', ''f'', ''F'', ''FALSE'', ''false'', ''False''] then Some False
      else None)"

section \<open>Durations\<close>

definition unit_map :: "string \<Rightarrow> nat option" where
  "unit_map =
     map_of
       [(''ns'', 1), (''us'', 10 ^ 3), (bytes [0xC2, 0xB5] @ ''s'', 10 ^ 3),
        (bytes [0xCE, 0xBC] @ ''s'', 10 ^ 3), (''ms'', 10 ^ 6), (''s'', 10 ^ 9),
        (''m'', 60 * 10 ^ 9), (''h'', 3600 * 10 ^ 9)]"

definition leadingInt :: "string \<Rightarrow> (nat \<times> string) option" where
  "leadingInt s =
     (let x = read_dec (takeWhile is_digit s)
      in if x > 2 ^ 63 then None else Some (x, dropWhile is_digit s))"

text \<open>
  The digits of a fraction, as many as fit: the number they make and how many they are. Further
  digits are skipped.
\<close>

fun leadingFraction :: "string \<Rightarrow> nat \<Rightarrow> nat \<Rightarrow> nat \<times> nat" where
  "leadingFraction [] x k = (x, k)"
| "leadingFraction (c # s) x k =
     (let y = x * 10 + undigit c
      in if x > (2 ^ 63 - 1) div 10 \<or> y > 2 ^ 63 then (x, k) else leadingFraction s y (k + 1))"

definition f64_div :: "rat \<Rightarrow> rat \<Rightarrow> f64" where
  "f64_div a b = f64_round (a / b)"

text \<open>\<open>uint64(float64(f) * (float64(unit) / scale))\<close>, where \<open>scale\<close> is a power of ten that \<open>float64\<close> has.\<close>

definition scaled_fraction :: "nat \<Rightarrow> nat \<Rightarrow> nat \<Rightarrow> nat" where
  "scaled_fraction f k u =
     (case f64_mul (f64_of_int (int f)) (f64_div (of_nat u) (10 ^ k)) of
        Fin q \<Rightarrow> nat (truncate_rat q)
      | _ \<Rightarrow> 0)"

text \<open>One part, a number and its unit, in nanoseconds, and the rest.\<close>

definition duration_part :: "string \<Rightarrow> (nat \<times> string) option" where
  "duration_part s =
     (case leadingInt s of
        None \<Rightarrow> None
      | Some (v, s1) \<Rightarrow>
          (let pre = (length s1 \<noteq> length s);
               t = (if starts_with s1 ''.'' then tl s1 else []);
               fs = takeWhile is_digit t;
               post = (fs \<noteq> []);
               (f, k) = leadingFraction fs 0 0;
               s2 = (if starts_with s1 ''.'' then dropWhile is_digit t else s1);
               u = takeWhile (\<lambda>c. \<not> (c = CHR ''.'' \<or> is_digit c)) s2;
               s3 = dropWhile (\<lambda>c. \<not> (c = CHR ''.'' \<or> is_digit c)) s2
           in if \<not> pre \<and> \<not> post then None
              else case unit_map u of
                None \<Rightarrow> None
              | Some w \<Rightarrow>
                  if v > 2 ^ 63 div w then None
                  else let v = v * w + (if f > 0 then scaled_fraction f k w else 0)
                       in if v > 2 ^ 63 then None else Some (v, s3)))"

lemma duration_part_shorter: "duration_part s = Some (v, r) \<Longrightarrow> length r < length s"
proof -
  assume part: "duration_part s = Some (v, r)"
  define P where "P = (\<lambda>c. \<not> (c = CHR ''.'' \<or> is_digit c))"
  define s1 where "s1 = dropWhile is_digit s"
  define s2 where "s2 = (if starts_with s1 ''.'' then dropWhile is_digit (tl s1) else s1)"
  from part have "unit_map (takeWhile P s2) \<noteq> None" and r: "r = dropWhile P s2"
    by (auto simp: duration_part_def leadingInt_def Let_def P_def s1_def s2_def split_def
        split: if_splits option.splits)
  then have "takeWhile P s2 \<noteq> []" by (auto simp: unit_map_def)
  moreover have "length s2 = length (takeWhile P s2) + length (dropWhile P s2)"
    by (metis length_append takeWhile_dropWhile_id)
  moreover have "length s2 \<le> length s"
    using length_dropWhile_le [of is_digit s] length_dropWhile_le [of is_digit "tl s1"]
    by (auto simp: s2_def s1_def)
  ultimately show ?thesis by (cases "takeWhile P s2") (simp_all add: r)
qed

text \<open>The sum of the parts; the sum is a 64-bit word.\<close>

function duration_sum :: "nat \<Rightarrow> string \<Rightarrow> nat option" where
  "duration_sum d s =
     (if s = [] then Some d
      else case duration_part s of
             None \<Rightarrow> None
           | Some (v, r) \<Rightarrow>
               let d = (d + v) mod 2 ^ 64
               in if d > 2 ^ 63 then None else duration_sum d r)"
  by auto
termination
  by (relation "measure (\<lambda>(d, s). length s)") (auto dest: duration_part_shorter)

declare duration_sum.simps [simp del]

definition ParseDuration :: "string \<Rightarrow> Duration option" where
  "ParseDuration s =
     (let neg = starts_with s ''-'';
          s = (if neg \<or> starts_with s ''+'' then tl s else s)
      in if s = ''0'' then Some 0
         else if s = '''' then None
         else case duration_sum 0 s of
                None \<Rightarrow> None
              | Some d \<Rightarrow>
                  if neg then Some (- int d)
                  else if d > 2 ^ 63 - 1 then None else Some (int d))"

section \<open>Facts\<close>

lemma Atoi_int64: "Atoi s = Some n \<Longrightarrow> int64 n"
  by (auto simp: Atoi_def Let_def split: if_splits)

lemma duration_sum_le: "duration_sum d s = Some n \<Longrightarrow> d \<le> 2 ^ 63 \<Longrightarrow> n \<le> 2 ^ 63"
proof (induction d s rule: duration_sum.induct)
  case (1 d s)
  then show ?case
    by (subst (asm) (2) duration_sum.simps) (auto simp: Let_def split: if_splits option.splits)
qed

lemma ParseDuration_int64:
  assumes "ParseDuration s = Some d"
  shows "int64 d"
proof -
  have "n \<le> 2 ^ 63" if "duration_sum 0 t = Some n" for t n
    using duration_sum_le [OF that] by simp
  then show ?thesis
    using assms by (fastforce simp: ParseDuration_def Let_def int64_def split: if_splits option.splits)
qed

lemma Atoi_Nil [simp]: "Atoi '''' = None"
  and ParseBool_Nil [simp]: "ParseBool '''' = None"
  and ParseDuration_Nil [simp]: "ParseDuration '''' = None"
  by (simp_all add: Atoi_def ParseBool_def ParseDuration_def)

end
