(* ===== verification/Config.thy ===== *)
theory Config
  imports GoStrconv ContractsPolicy
begin

text \<open>
  \<open>internal/config/config.go\<close>: the configuration a process loads from its environment. The
  environment is the function \<open>os.Getenv\<close>, which answers the empty string for a variable that is
  not set.
\<close>

section \<open>The records\<close>

record APIConfig =
  api_port :: int
  api_read_timeout :: Duration
  api_write_timeout :: Duration
  api_idle_timeout :: Duration

record PostgresConfig =
  pg_url :: string
  pg_max_open_conns :: int
  pg_max_idle_conns :: int
  pg_conn_max_lifetime :: Duration

record RedisConfig =
  rd_url :: string
  rd_password :: string
  rd_db :: int

record QueueConfig =
  qu_concurrency :: int
  qu_retry_max_attempts :: int
  qu_retry_delay :: Duration

record LoggingConfig =
  lg_level :: string
  lg_format :: string
  lg_add_source :: bool

record Config =
  cf_api :: APIConfig
  cf_postgres :: PostgresConfig
  cf_redis :: RedisConfig
  cf_queue :: QueueConfig
  cf_logging :: LoggingConfig
  cf_service_name :: string
  cf_environment :: string

section \<open>Reading variables\<close>

type_synonym getenv = "string \<Rightarrow> string"

definition envStr :: "getenv \<Rightarrow> string \<Rightarrow> string \<Rightarrow> string" where
  "envStr getenv key defaultVal = (let v = getenv key in if v \<noteq> '''' then v else defaultVal)"

definition envInt :: "getenv \<Rightarrow> string \<Rightarrow> int \<Rightarrow> int" where
  "envInt getenv key defaultVal =
     (let v = getenv key
      in if v \<noteq> '''' then (case Atoi v of Some n \<Rightarrow> n | None \<Rightarrow> defaultVal) else defaultVal)"

definition envBool :: "getenv \<Rightarrow> string \<Rightarrow> bool \<Rightarrow> bool" where
  "envBool getenv key defaultVal =
     (let v = getenv key
      in if v \<noteq> '''' then (case ParseBool v of Some b \<Rightarrow> b | None \<Rightarrow> defaultVal) else defaultVal)"

definition envDuration :: "getenv \<Rightarrow> string \<Rightarrow> Duration \<Rightarrow> Duration" where
  "envDuration getenv key defaultVal =
     (let v = getenv key
      in if v \<noteq> '''' then (case ParseDuration v of Some d \<Rightarrow> d | None \<Rightarrow> defaultVal) else defaultVal)"

section \<open>Validation and loading\<close>

definition Config_Validate :: "Config \<Rightarrow> go_error option" where
  "Config_Validate c =
     (if pg_url (cf_postgres c) = '''' then Some (Errorf ''DATABASE_URL is required'')
      else if rd_url (cf_redis c) = '''' then Some (Errorf ''REDIS_URL is required'')
      else if api_port (cf_api c) < 1 \<or> api_port (cf_api c) > 65535 then
        Some (Errorf (''API_PORT must be between 1 and 65535, got '' @ itoa (api_port (cf_api c))))
      else if qu_concurrency (cf_queue c) < 1 then
        Some (Errorf (''WORKER_CONCURRENCY must be at least 1, got '' @ itoa (qu_concurrency (cf_queue c))))
      else if pg_max_open_conns (cf_postgres c) < 1 then
        Some (Errorf (''PG_MAX_OPEN_CONNS must be at least 1, got '' @
          itoa (pg_max_open_conns (cf_postgres c))))
      else if pg_max_idle_conns (cf_postgres c) < 1 then
        Some (Errorf (''PG_MAX_IDLE_CONNS must be at least 1, got '' @
          itoa (pg_max_idle_conns (cf_postgres c))))
      else if rd_db (cf_redis c) < 0 \<or> rd_db (cf_redis c) > 15 then
        Some (Errorf (''REDIS_DB must be between 0 and 15, got '' @ itoa (rd_db (cf_redis c))))
      else None)"

text \<open>What the variables say, before the log format is derived and the whole is validated.\<close>

definition read_config :: "getenv \<Rightarrow> Config" where
  "read_config getenv =
     \<lparr>cf_api =
        \<lparr>api_port = envInt getenv ''API_PORT'' 8080,
         api_read_timeout = envDuration getenv ''API_READ_TIMEOUT'' (10 * Second),
         api_write_timeout = envDuration getenv ''API_WRITE_TIMEOUT'' (30 * Second),
         api_idle_timeout = envDuration getenv ''API_IDLE_TIMEOUT'' (60 * Second)\<rparr>,
      cf_postgres =
        \<lparr>pg_url = envStr getenv ''DATABASE_URL'' ''postgres://localhost:5432/posthub?sslmode=disable'',
         pg_max_open_conns = envInt getenv ''PG_MAX_OPEN_CONNS'' 25,
         pg_max_idle_conns = envInt getenv ''PG_MAX_IDLE_CONNS'' 5,
         pg_conn_max_lifetime = envDuration getenv ''PG_CONN_MAX_LIFETIME'' (5 * Minute)\<rparr>,
      cf_redis =
        \<lparr>rd_url = envStr getenv ''REDIS_URL'' ''redis://localhost:6379'',
         rd_password = envStr getenv ''REDIS_PASSWORD'' '''',
         rd_db = envInt getenv ''REDIS_DB'' 0\<rparr>,
      cf_queue =
        \<lparr>qu_concurrency = envInt getenv ''WORKER_CONCURRENCY'' 10,
         qu_retry_max_attempts = envInt getenv ''QUEUE_RETRY_MAX'' 3,
         qu_retry_delay = envDuration getenv ''QUEUE_RETRY_DELAY'' (30 * Second)\<rparr>,
      cf_logging =
        \<lparr>lg_level = envStr getenv ''LOG_LEVEL'' ''info'',
         lg_format = envStr getenv ''LOG_FORMAT'' '''',
         lg_add_source = envBool getenv ''LOG_ADD_SOURCE'' False\<rparr>,
      cf_service_name = envStr getenv ''SERVICE_NAME'' ''posthub'',
      cf_environment = envStr getenv ''ENVIRONMENT'' ''development''\<rparr>"

definition derive_format :: "Config \<Rightarrow> Config" where
  "derive_format cfg =
     (if lg_format (cf_logging cfg) = '''' then
        cfg\<lparr>cf_logging := (cf_logging cfg)
          \<lparr>lg_format := (if cf_environment cfg = ''production'' then ''json'' else ''console'')\<rparr>\<rparr>
      else cfg)"

definition Load :: "getenv \<Rightarrow> Config result" where
  "Load getenv =
     (let cfg = derive_format (read_config getenv)
      in case Config_Validate cfg of
           Some err \<Rightarrow> Inl err
         | None \<Rightarrow> Inr cfg)"

section \<open>Facts\<close>

lemma envInt_int64: "int64 d \<Longrightarrow> int64 (envInt getenv key d)"
  by (auto simp: envInt_def Let_def Atoi_int64 split: option.split)

lemma envDuration_int64: "int64 d \<Longrightarrow> int64 (envDuration getenv key d)"
  by (auto simp: envDuration_def Let_def ParseDuration_int64 split: option.split)

lemma envStr_nonempty: "d \<noteq> '''' \<Longrightarrow> envStr getenv key d \<noteq> ''''"
  by (simp add: envStr_def Let_def)

text \<open>The value of a variable that does not parse is the default, as if it were not set.\<close>

lemma env_unparsable:
  "Atoi (getenv k) = None \<Longrightarrow> envInt (getenv(k := '''')) key d = envInt getenv key d"
  "ParseBool (getenv k) = None \<Longrightarrow> envBool (getenv(k := '''')) key b = envBool getenv key b"
  "ParseDuration (getenv k) = None \<Longrightarrow> envDuration (getenv(k := '''')) key d = envDuration getenv key d"
  by (simp_all add: envInt_def envBool_def envDuration_def Let_def)

section \<open>What a loaded configuration is\<close>

text \<open>The checked variables with the values they may have.\<close>

definition checked_vars :: "(string \<times> int \<times> int) list" where
  "checked_vars =
     [(''API_PORT'', 1, 65535), (''WORKER_CONCURRENCY'', 1, 2 ^ 63 - 1),
      (''PG_MAX_OPEN_CONNS'', 1, 2 ^ 63 - 1), (''PG_MAX_IDLE_CONNS'', 1, 2 ^ 63 - 1),
      (''REDIS_DB'', 0, 15)]"

definition config_typed :: "Config \<Rightarrow> bool" where
  "config_typed c \<longleftrightarrow>
     list_all int64
       [api_port (cf_api c), api_read_timeout (cf_api c), api_write_timeout (cf_api c),
        api_idle_timeout (cf_api c), pg_max_open_conns (cf_postgres c),
        pg_max_idle_conns (cf_postgres c), pg_conn_max_lifetime (cf_postgres c), rd_db (cf_redis c),
        qu_concurrency (cf_queue c), qu_retry_max_attempts (cf_queue c), qu_retry_delay (cf_queue c)] \<and>
     list_all (\<lambda>s. s \<noteq> '''')
       [pg_url (cf_postgres c), rd_url (cf_redis c), lg_level (cf_logging c),
        lg_format (cf_logging c), cf_service_name c, cf_environment c]"

lemma derive_format_simps [simp]:
  "cf_api (derive_format c) = cf_api c" "cf_postgres (derive_format c) = cf_postgres c"
  "cf_redis (derive_format c) = cf_redis c" "cf_queue (derive_format c) = cf_queue c"
  "lg_level (cf_logging (derive_format c)) = lg_level (cf_logging c)"
  "lg_add_source (cf_logging (derive_format c)) = lg_add_source (cf_logging c)"
  "cf_service_name (derive_format c) = cf_service_name c"
  "cf_environment (derive_format c) = cf_environment c"
  "lg_format (cf_logging (derive_format c)) \<noteq> ''''"
  by (simp_all add: derive_format_def)

lemma read_config_typed: "config_typed (derive_format (read_config getenv))"
proof -
  have "int64 d" if "d \<in> set [8080, 10 * Second, 30 * Second, 60 * Second, 25, 5, 5 * Minute, 0, 10, 3]" for d
    using that by (auto simp: int64_def)
  then show ?thesis
    by (simp add: config_typed_def read_config_def envInt_int64 envDuration_int64 envStr_nonempty)
qed

lemma envInt_outside:
  "envInt getenv key d = n \<Longrightarrow> n \<noteq> d \<Longrightarrow> Atoi (getenv key) = Some n"
  by (auto simp: envInt_def Let_def split: option.splits if_splits)

text \<open>The error names a checked variable that was set to a number out of range, and that number.\<close>

definition out_of_range_error :: "getenv \<Rightarrow> go_error \<Rightarrow> bool" where
  "out_of_range_error getenv err \<longleftrightarrow>
     (\<exists>(key, lo, hi) \<in> set checked_vars. \<exists>n msg. Atoi (getenv key) = Some n \<and> (n < lo \<or> hi < n) \<and>
        err = Errorf (key @ msg @ itoa n))"

lemma outside_error:
  assumes "(key, lo, hi) \<in> set checked_vars" "lo \<le> d" "d \<le> hi"
    and "envInt getenv key d < lo \<or> hi < envInt getenv key d"
  shows "out_of_range_error getenv (Errorf (key @ msg @ itoa (envInt getenv key d)))"
proof -
  have "Atoi (getenv key) = Some (envInt getenv key d)"
    using assms(2-4) by (intro envInt_outside) auto
  with assms(1,4) show ?thesis unfolding out_of_range_error_def by blast
qed

lemma Validate_message:
  "Config_Validate c = Some err \<Longrightarrow> pg_url (cf_postgres c) \<noteq> [] \<Longrightarrow> rd_url (cf_redis c) \<noteq> [] \<Longrightarrow>
     (api_port (cf_api c) < 1 \<or> 65535 < api_port (cf_api c)) \<and>
       err = Errorf (''API_PORT'' @ '' must be between 1 and 65535, got '' @ itoa (api_port (cf_api c))) \<or>
     qu_concurrency (cf_queue c) < 1 \<and>
       err = Errorf (''WORKER_CONCURRENCY'' @ '' must be at least 1, got '' @ itoa (qu_concurrency (cf_queue c))) \<or>
     pg_max_open_conns (cf_postgres c) < 1 \<and>
       err = Errorf (''PG_MAX_OPEN_CONNS'' @ '' must be at least 1, got '' @ itoa (pg_max_open_conns (cf_postgres c))) \<or>
     pg_max_idle_conns (cf_postgres c) < 1 \<and>
       err = Errorf (''PG_MAX_IDLE_CONNS'' @ '' must be at least 1, got '' @ itoa (pg_max_idle_conns (cf_postgres c))) \<or>
     (rd_db (cf_redis c) < 0 \<or> 15 < rd_db (cf_redis c)) \<and>
       err = Errorf (''REDIS_DB'' @ '' must be between 0 and 15, got '' @ itoa (rd_db (cf_redis c)))"
  by (simp add: Config_Validate_def split: if_splits)

lemma envInt_Some: "Atoi (getenv key) = Some n \<Longrightarrow> envInt getenv key d = n"
  by (auto simp: envInt_def Let_def)

text \<open>
  C20. A loaded configuration is well typed (\<open>Load\<close>, \<open>Validate\<close> and the readers of variables): its numbers fit
  64 bits, its URLs, level, format, service and environment are not empty, and every checked variable
  that was set to a number is in range. Loading fails only because one of the five checked variables
  is a number out of range, and the error names it and its value: a missing \<open>DATABASE_URL\<close> or
  \<open>REDIS_URL\<close> is never an error, although \<open>Validate\<close> tests for it.
\<close>

theorem loaded_config:
  "case Load getenv of
     Inr c \<Rightarrow> config_typed c \<and>
       (\<forall>(key, lo, hi) \<in> set checked_vars. \<forall>n. Atoi (getenv key) = Some n \<longrightarrow> lo \<le> n \<and> n \<le> hi)
   | Inl err \<Rightarrow> out_of_range_error getenv err"
proof (cases "Config_Validate (derive_format (read_config getenv))")
  case None
  then have "Load getenv = Inr (derive_format (read_config getenv))" by (simp add: Load_def Let_def)
  moreover have "lo \<le> n \<and> n \<le> hi" if "(key, lo, hi) \<in> set checked_vars" "Atoi (getenv key) = Some n"
    for key lo hi n
    using that None Atoi_int64 [OF that(2)]
    by (auto simp: checked_vars_def Config_Validate_def read_config_def int64_def envInt_Some
        split: if_splits)
  ultimately show ?thesis using read_config_typed by auto
next
  case (Some err)
  then have "Load getenv = Inl err" by (simp add: Load_def Let_def)
  let ?c = "derive_format (read_config getenv)"
  have urls: "pg_url (cf_postgres ?c) \<noteq> []" "rd_url (cf_redis ?c) \<noteq> []"
    by (simp_all add: read_config_def envStr_nonempty)
  have vals:
    "api_port (cf_api ?c) = envInt getenv ''API_PORT'' 8080"
    "qu_concurrency (cf_queue ?c) = envInt getenv ''WORKER_CONCURRENCY'' 10"
    "pg_max_open_conns (cf_postgres ?c) = envInt getenv ''PG_MAX_OPEN_CONNS'' 25"
    "pg_max_idle_conns (cf_postgres ?c) = envInt getenv ''PG_MAX_IDLE_CONNS'' 5"
    "rd_db (cf_redis ?c) = envInt getenv ''REDIS_DB'' 0"
    by (simp_all add: read_config_def)
  have "out_of_range_error getenv err"
    using Validate_message [OF Some urls] unfolding vals
    by (elim disjE conjE; hypsubst)
      (rule outside_error [where lo = 1 and hi = 65535] outside_error [where lo = 1 and hi = "2 ^ 63 - 1"]
         outside_error [where lo = 0 and hi = 15]; simp add: checked_vars_def)+
  with \<open>Load getenv = Inl err\<close> show ?thesis by simp
qed

text \<open>The variables that are parsed.\<close>

definition int_vars :: "string list" where
  "int_vars =
     [''API_PORT'', ''PG_MAX_OPEN_CONNS'', ''PG_MAX_IDLE_CONNS'', ''REDIS_DB'', ''WORKER_CONCURRENCY'',
      ''QUEUE_RETRY_MAX'']"

definition duration_vars :: "string list" where
  "duration_vars =
     [''API_READ_TIMEOUT'', ''API_WRITE_TIMEOUT'', ''API_IDLE_TIMEOUT'', ''PG_CONN_MAX_LIFETIME'',
      ''QUEUE_RETRY_DELAY'']"

definition malformed :: "getenv \<Rightarrow> string \<Rightarrow> bool" where
  "malformed getenv k \<longleftrightarrow>
     k \<in> set int_vars \<and> Atoi (getenv k) = None \<or>
     k \<in> set duration_vars \<and> ParseDuration (getenv k) = None \<or>
     k = ''LOG_ADD_SOURCE'' \<and> ParseBool (getenv k) = None"

lemma env_other [simp]:
  "key \<noteq> k \<Longrightarrow> envStr (getenv(k := v)) key s = envStr getenv key s"
  "key \<noteq> k \<Longrightarrow> envInt (getenv(k := v)) key d = envInt getenv key d"
  "key \<noteq> k \<Longrightarrow> envBool (getenv(k := v)) key b = envBool getenv key b"
  "key \<noteq> k \<Longrightarrow> envDuration (getenv(k := v)) key d = envDuration getenv key d"
  by (simp_all add: envStr_def envInt_def envBool_def envDuration_def)

lemma read_config_malformed: "malformed getenv k \<Longrightarrow> read_config (getenv(k := '''')) = read_config getenv"
  unfolding malformed_def int_vars_def duration_vars_def
  by (auto simp: read_config_def env_unparsable)

text \<open>
  Malformed settings are dropped (\<open>envInt\<close>, \<open>envDuration\<close>, \<open>envBool\<close>, \<open>Load\<close>): a numeric, duration or boolean
  variable whose text does not parse is loaded as if it were not set, with its default and without an
  error. So a duration written as a number alone is ignored.
\<close>

lemma malformed_as_unset:
  assumes "malformed getenv k"
  shows "Load getenv = Load (getenv(k := ''''))"
  by (simp add: Load_def read_config_malformed [OF assms])

section \<open>Examples\<close>

theorem loaded_config_witness:
  "let getenv = (\<lambda>k. if k = ''API_PORT'' then ''70000'' else '''')
   in out_of_range_error getenv (projl (Load getenv)) \<and>
      Load getenv = Inl (Errorf ''API_PORT must be between 1 and 65535, got 70000'')"
proof -
  let ?getenv = "\<lambda>k. if k = ''API_PORT'' then ''70000'' else ''''"
  have "Load ?getenv = Inl (Errorf ''API_PORT must be between 1 and 65535, got 70000'')"
    by (simp add: Load_def Config_Validate_def derive_format_def read_config_def envStr_def envInt_def
        Atoi_def read_dec_def undigit_def is_digit_def int64_def itoa_def dec_nat.simps digit_def)
  with loaded_config [of ?getenv] show ?thesis by (simp only: Let_def sum.case sum.sel simp_thms)
qed

end
