(* ===== verification/Logger.thy ===== *)
theory Logger
  imports Config
begin

text \<open>
  \<open>internal/logger/logger.go\<close>: loggers and how they travel in a \<open>context.Context\<close>, and the log format
  of the processes. Zap is third-party code, the parameter \<open>Zap\<close>: its constructors, its \<open>With\<close>, and what
  writing an entry does to the program's state. A context is the chain of the values put into it;
  \<open>ctx_Value\<close> is \<open>Context.Value\<close>.
\<close>

section \<open>Zap\<close>

datatype Level = DebugLevel | InfoLevel | WarnLevel | ErrorLevel

datatype FieldValue = FString string | FInt int

type_synonym Field = "string \<times> FieldValue"

text \<open>What a core is built from: \<open>NewProductionEncoderConfig\<close> or \<open>NewDevelopmentEncoderConfig\<close> and its changes.\<close>

datatype EncoderBase = ProductionEncoderConfig | DevelopmentEncoderConfig

record EncoderConfig =
  ec_base :: EncoderBase
  ec_time_key :: string
  ec_encode_time :: string

datatype Encoder = JSONEncoder EncoderConfig | ConsoleEncoder EncoderConfig

record Core =
  co_encoder :: Encoder
  co_sink :: string
  co_level :: Level

datatype ZapOption = AddCaller | AddStacktrace Level

record ('s, 'z) Zap =
  zap_New :: "Core \<Rightarrow> ZapOption list \<Rightarrow> 'z"
  zap_NewNop :: 'z
  zap_With :: "'z \<Rightarrow> Field list \<Rightarrow> 'z"
  zap_Log :: "'z \<Rightarrow> Level \<Rightarrow> string \<Rightarrow> Field list \<Rightarrow> ('s, unit) state"
  zap_Sync :: "'z \<Rightarrow> ('s, go_error option) state"

section \<open>Loggers\<close>

record 'z Logger =
  lo_zl :: 'z

definition parseLevel :: "string \<Rightarrow> Level" where
  "parseLevel level =
     (let l = ToLower level
      in if l = ''debug'' then DebugLevel
         else if l = ''warn'' then WarnLevel
         else if l = ''error'' then ErrorLevel
         else InfoLevel)"

definition logger_New :: "('s, 'z) Zap \<Rightarrow> string \<Rightarrow> string \<Rightarrow> 'z Logger" where
  "logger_New zap level environment =
     (let lvl = parseLevel level;
          encCfg = \<lparr>ec_base = (if environment = ''production'' then ProductionEncoderConfig
                             else DevelopmentEncoderConfig),
                    ec_time_key = ''ts'', ec_encode_time = ''ISO8601TimeEncoder''\<rparr>;
          encoder = (if environment = ''production'' then JSONEncoder encCfg else ConsoleEncoder encCfg);
          core = \<lparr>co_encoder = encoder, co_sink = ''stderr'', co_level = lvl\<rparr>
      in \<lparr>lo_zl = zap_New zap core [AddCaller, AddStacktrace ErrorLevel]\<rparr>)"

definition nopLogger :: "('s, 'z) Zap \<Rightarrow> 'z Logger" where
  "nopLogger zap = \<lparr>lo_zl = zap_NewNop zap\<rparr>"

definition WithFields :: "('s, 'z) Zap \<Rightarrow> 'z Logger \<Rightarrow> Field list \<Rightarrow> 'z Logger" where
  "WithFields zap l fs = \<lparr>lo_zl = zap_With zap (lo_zl l) fs\<rparr>"

definition logger_Info :: "('s, 'z) Zap \<Rightarrow> 'z Logger \<Rightarrow> string \<Rightarrow> Field list \<Rightarrow> ('s, unit) state" where
  "logger_Info zap l msg fs = zap_Log zap (lo_zl l) InfoLevel msg fs"

definition logger_Debug :: "('s, 'z) Zap \<Rightarrow> 'z Logger \<Rightarrow> string \<Rightarrow> Field list \<Rightarrow> ('s, unit) state" where
  "logger_Debug zap l msg fs = zap_Log zap (lo_zl l) DebugLevel msg fs"

definition logger_Warn :: "('s, 'z) Zap \<Rightarrow> 'z Logger \<Rightarrow> string \<Rightarrow> Field list \<Rightarrow> ('s, unit) state" where
  "logger_Warn zap l msg fs = zap_Log zap (lo_zl l) WarnLevel msg fs"

definition logger_Error :: "('s, 'z) Zap \<Rightarrow> 'z Logger \<Rightarrow> string \<Rightarrow> Field list \<Rightarrow> ('s, unit) state" where
  "logger_Error zap l msg fs = zap_Log zap (lo_zl l) ErrorLevel msg fs"

definition logger_Sync :: "('s, 'z) Zap \<Rightarrow> 'z Logger \<Rightarrow> ('s, go_error option) state" where
  "logger_Sync zap l = zap_Sync zap (lo_zl l)"

section \<open>Contexts\<close>

text \<open>The unexported key is equal to no key of another package.\<close>

datatype CtxKey = loggerKey | OtherKey string

datatype 'z CtxValue = LoggerVal "'z Logger option" | OtherVal string

datatype 'z Context = Background | WithValue "'z Context" CtxKey "'z CtxValue"

fun ctx_Value :: "'z Context \<Rightarrow> CtxKey \<Rightarrow> 'z CtxValue option" where
  "ctx_Value Background key = None"
| "ctx_Value (WithValue ctx k v) key = (if k = key then Some v else ctx_Value ctx key)"

definition FromContext :: "('s, 'z) Zap \<Rightarrow> 'z Context \<Rightarrow> 'z Logger" where
  "FromContext zap ctx =
     (case ctx_Value ctx loggerKey of
        Some (LoggerVal (Some l)) \<Rightarrow> l
      | _ \<Rightarrow> nopLogger zap)"

definition WithContext :: "'z Logger \<Rightarrow> 'z Context \<Rightarrow> 'z Context" where
  "WithContext l ctx = WithValue ctx loggerKey (LoggerVal (Some l))"

definition WithRequestID :: "('s, 'z) Zap \<Rightarrow> 'z Context \<Rightarrow> string \<Rightarrow> 'z Context" where
  "WithRequestID zap ctx requestID =
     (let l = FromContext zap ctx
      in WithContext (WithFields zap l [(''request_id'', FString requestID)]) ctx)"

definition WithWorkerID :: "('s, 'z) Zap \<Rightarrow> 'z Context \<Rightarrow> string \<Rightarrow> 'z Context" where
  "WithWorkerID zap ctx workerID =
     (let l = FromContext zap ctx
      in WithContext (WithFields zap l [(''worker_id'', FString workerID)]) ctx)"

definition WithJobID :: "('s, 'z) Zap \<Rightarrow> 'z Context \<Rightarrow> string \<Rightarrow> 'z Context" where
  "WithJobID zap ctx jobID =
     (let l = FromContext zap ctx
      in WithContext (WithFields zap l [(''publish_job_id'', FString jobID)]) ctx)"

definition WithPlatform :: "('s, 'z) Zap \<Rightarrow> 'z Context \<Rightarrow> string \<Rightarrow> 'z Context" where
  "WithPlatform zap ctx platform =
     (let l = FromContext zap ctx
      in WithContext (WithFields zap l [(''platform'', FString platform)]) ctx)"

section \<open>Request logging\<close>

text \<open>
  \<open>internal/api/middleware.go\<close>. An HTTP handler runs with the context of its request and answers; its
  answer stands for what it wrote. The request identifier, the status and the number of bytes
  are read by the router's library (\<open>GetReqID\<close>, \<open>Status\<close>, \<open>BytesWritten\<close>), the fields of \<open>HttpLib\<close>.
\<close>

record Request =
  rq_Method :: string
  rq_Path :: string

type_synonym ('s, 'z, 'r) http_handler = "'z Context \<Rightarrow> Request \<Rightarrow> ('s, 'r) state"

record ('z, 'r) HttpLib =
  GetReqID :: "'z Context \<Rightarrow> string"
  ww_Status :: "'r \<Rightarrow> int"
  ww_BytesWritten :: "'r \<Rightarrow> int"

definition RequestLoggerMiddleware ::
  "('a env_scheme, 'z) Zap \<Rightarrow> ('z, 'r) HttpLib \<Rightarrow> 'z Logger \<Rightarrow>
     ('a env_scheme, 'z, 'r) http_handler \<Rightarrow> ('a env_scheme, 'z, 'r) http_handler" where
  "RequestLoggerMiddleware zap lib lg next_handler = (\<lambda>ctx r. do {
     start \<leftarrow> time_Now;
     let requestID = GetReqID lib ctx;
     let ctx = WithRequestID zap ctx requestID;
     w \<leftarrow> next_handler ctx r;
     now \<leftarrow> time_Now;
     _ \<leftarrow> logger_Info zap lg ''request completed''
       [(''method'', FString (rq_Method r)), (''path'', FString (rq_Path r)),
        (''status'', FInt (ww_Status lib w)), (''bytes'', FInt (ww_BytesWritten lib w)),
        (''duration_ms'', FInt (truncate_rat (of_int (now - start) / 1000000))),
        (''request_id'', FString requestID)];
     ret w
   })"

section \<open>The start of the processes\<close>

text \<open>
  \<open>cmd/api/main.go\<close> up to the listening server, and the start of \<open>cmd/worker/main.go\<close>: what a process
  does with its configuration. \<open>Inl\<close> is the message on standard error before exit status 1.
\<close>

record HttpServer =
  hs_addr :: string
  hs_read_timeout :: Duration
  hs_write_timeout :: Duration
  hs_idle_timeout :: Duration

definition new_server :: "Config \<Rightarrow> HttpServer" where
  "new_server cfg =
     \<lparr>hs_addr = '':'' @ itoa (api_port (cf_api cfg)),
      hs_read_timeout = api_read_timeout (cf_api cfg),
      hs_write_timeout = api_write_timeout (cf_api cfg),
      hs_idle_timeout = api_idle_timeout (cf_api cfg)\<rparr>"

definition api_start :: "('s, 'z) Zap \<Rightarrow> getenv \<Rightarrow> string + ('z Logger \<times> HttpServer)" where
  "api_start zap getenv =
     (case Load getenv of
        Inl err \<Rightarrow> Inl (''failed to load config: '' @ Error err)
      | Inr cfg \<Rightarrow>
          let lg = logger_New zap (lg_level (cf_logging cfg)) (cf_environment cfg)
          in Inr (lg, new_server cfg))"

definition worker_start :: "('s, 'z) Zap \<Rightarrow> getenv \<Rightarrow> string + 'z Logger" where
  "worker_start zap getenv =
     (case Load getenv of
        Inl err \<Rightarrow> Inl (''failed to load config: '' @ Error err)
      | Inr cfg \<Rightarrow> Inr (logger_New zap (lg_level (cf_logging cfg)) (cf_environment cfg)))"

section \<open>Facts\<close>

lemma FromContext_WithContext [simp]: "FromContext zap (WithContext l ctx) = l"
  by (simp add: FromContext_def WithContext_def)

lemma FromContext_none: "ctx_Value ctx loggerKey = None \<Longrightarrow> FromContext zap ctx = nopLogger zap"
  by (simp add: FromContext_def)

text \<open>The helpers add their field to the logger of the context, and keep the rest of the context.\<close>

lemma FromContext_With [simp]:
  "FromContext zap (WithRequestID zap ctx i) = WithFields zap (FromContext zap ctx) [(''request_id'', FString i)]"
  "FromContext zap (WithWorkerID zap ctx i) = WithFields zap (FromContext zap ctx) [(''worker_id'', FString i)]"
  "FromContext zap (WithJobID zap ctx i) = WithFields zap (FromContext zap ctx) [(''publish_job_id'', FString i)]"
  "FromContext zap (WithPlatform zap ctx i) = WithFields zap (FromContext zap ctx) [(''platform'', FString i)]"
  by (simp_all add: WithRequestID_def WithWorkerID_def WithJobID_def WithPlatform_def Let_def)

lemma With_keeps_values:
  "k \<noteq> loggerKey \<Longrightarrow> ctx_Value (WithContext l ctx) k = ctx_Value ctx k"
  by (simp add: WithContext_def)

text \<open>
  C21. The request logger does not reach the handlers (\<open>RequestLoggerMiddleware\<close>, \<open>WithRequestID\<close>, \<open>FromContext\<close>): where
  the incoming context holds no logger, which is how the router calls the middleware, the context
  handed to the next handler carries the no-op logger with the request identifier, whatever logger
  the middleware was given. As an entry of a descendant of zap's no-op logger does nothing, all that
  the handlers log through \<open>FromContext\<close> is lost; only \<open>request completed\<close> is written to the logger.
\<close>

theorem handlers_log_nothing:
  assumes "ctx_Value ctx loggerKey = None"
    and "\<And>fs lvl msg gs. zap_Log zap (zap_With zap (zap_NewNop zap) fs) lvl msg gs = ret ()"
  shows "\<exists>ctx'. (\<forall>msg fs. logger_Error zap (FromContext zap ctx') msg fs = ret () \<and>
      logger_Info zap (FromContext zap ctx') msg fs = ret ()) \<and>
    (\<forall>lg. \<exists>fields. \<forall>next_handler. RequestLoggerMiddleware zap lib lg next_handler ctx r = do {
       start \<leftarrow> time_Now; w \<leftarrow> next_handler ctx' r; now \<leftarrow> time_Now;
       _ \<leftarrow> logger_Info zap lg ''request completed'' (fields start now w); ret w })"
proof -
  let ?ctx = "WithRequestID zap ctx (GetReqID lib ctx)"
  have "FromContext zap ?ctx = WithFields zap (nopLogger zap) [(''request_id'', FString (GetReqID lib ctx))]"
    using assms(1) by (simp add: FromContext_none)
  then have "\<forall>msg fs. logger_Error zap (FromContext zap ?ctx) msg fs = ret () \<and>
      logger_Info zap (FromContext zap ?ctx) msg fs = ret ()"
    using assms(2) by (simp add: logger_Error_def logger_Info_def WithFields_def nopLogger_def)
  then show ?thesis unfolding RequestLoggerMiddleware_def Let_def by fast
qed

lemma parseLevel_default: "parseLevel ''info'' = InfoLevel" "parseLevel [] = InfoLevel"
  by (simp_all add: parseLevel_def ToLower_def lower_byte_def Let_def char_of_def)

lemma logger_New_core:
  "\<exists>core. logger_New zap level environment = \<lparr>lo_zl = zap_New zap core [AddCaller, AddStacktrace ErrorLevel]\<rparr> \<and>
     ((\<exists>e. co_encoder core = JSONEncoder e) \<longleftrightarrow> environment = ''production'') \<and>
     co_level core = parseLevel level \<and> co_sink core = ''stderr''"
  unfolding logger_New_def Let_def by (intro exI conjI, rule refl) auto

text \<open>The logger that the environment asks for.\<close>

definition logger_for :: "('s, 'z) Zap \<Rightarrow> getenv \<Rightarrow> 'z Logger \<Rightarrow> bool" where
  "logger_for zap getenv l \<longleftrightarrow>
     (\<exists>core. lo_zl l = zap_New zap core [AddCaller, AddStacktrace ErrorLevel] \<and>
        ((\<exists>e. co_encoder core = JSONEncoder e) \<longleftrightarrow> getenv ''ENVIRONMENT'' = ''production'') \<and>
        co_level core = parseLevel (getenv ''LOG_LEVEL'') \<and> co_sink core = ''stderr'')"

lemma loaded_logger:
  "Load getenv = Inr cfg \<Longrightarrow> logger_for zap getenv (logger_New zap (lg_level (cf_logging cfg)) (cf_environment cfg))"
proof -
  assume "Load getenv = Inr cfg"
  then have cfg: "cfg = derive_format (read_config getenv)" by (auto simp: Load_def Let_def split: option.splits)
  have "cf_environment cfg = ''production'' \<longleftrightarrow> getenv ''ENVIRONMENT'' = ''production''"
    "parseLevel (lg_level (cf_logging cfg)) = parseLevel (getenv ''LOG_LEVEL'')"
    by (simp_all add: cfg read_config_def envStr_def Let_def parseLevel_default)
  with logger_New_core [of zap "lg_level (cf_logging cfg)" "cf_environment cfg"]
  show ?thesis unfolding logger_for_def by auto
qed

text \<open>
  C38. The loggers of both processes (\<open>Load\<close>, \<open>logger.New\<close>, the start of both \<open>main\<close> functions): an environment
  stops both with the same message or neither, and then both build the same logger: its format is
  JSON exactly if \<open>ENVIRONMENT\<close> is \<open>production\<close>, its level is that of \<open>LOG_LEVEL\<close>, and it writes to the
  standard error. \<open>LOG_FORMAT\<close> and \<open>LOG_ADD_SOURCE\<close>, which \<open>Load\<close> reads into the configuration, change
  nothing about either process.
\<close>

theorem log_format_ignored:
  "api_start zap (getenv(''LOG_FORMAT'' := v, ''LOG_ADD_SOURCE'' := w)) = api_start zap getenv \<and>
   worker_start zap (getenv(''LOG_FORMAT'' := v, ''LOG_ADD_SOURCE'' := w)) = worker_start zap getenv \<and>
   (case api_start zap getenv of
      Inl msg \<Rightarrow> worker_start zap getenv = Inl msg
    | Inr (l, srv) \<Rightarrow> logger_for zap getenv l \<and> worker_start zap getenv = Inr l)"
proof (intro conjI)
  let ?g = "getenv(''LOG_FORMAT'' := v, ''LOG_ADD_SOURCE'' := w)"
  let ?c = "derive_format (read_config ?g)" and ?d = "derive_format (read_config getenv)"
  have eqs: "cf_api ?c = cf_api ?d" "cf_postgres ?c = cf_postgres ?d" "cf_redis ?c = cf_redis ?d"
    "cf_queue ?c = cf_queue ?d" "lg_level (cf_logging ?c) = lg_level (cf_logging ?d)"
    "cf_environment ?c = cf_environment ?d"
    by (simp_all add: read_config_def)
  moreover have "Config_Validate ?c = Config_Validate ?d" "new_server ?c = new_server ?d"
    by (simp_all only: Config_Validate_def new_server_def eqs)
  ultimately show "api_start zap ?g = api_start zap getenv" "worker_start zap ?g = worker_start zap getenv"
    by (cases "Config_Validate ?d";
        simp add: api_start_def worker_start_def Load_def del: derive_format_simps)+
  show "case api_start zap getenv of
      Inl msg \<Rightarrow> worker_start zap getenv = Inl msg
    | Inr (l, srv) \<Rightarrow> logger_for zap getenv l \<and> worker_start zap getenv = Inr l"
    using loaded_logger [of getenv _ zap]
    by (cases "Load getenv") (simp_all add: api_start_def worker_start_def Let_def)
qed

section \<open>Examples\<close>

text \<open>A zap whose loggers are what they were built from, and whose entries count in the state.\<close>

definition example_zap :: "(env, Field list option) Zap" where
  "example_zap =
     \<lparr>zap_New = (\<lambda>_ _. Some []), zap_NewNop = None, zap_With = (\<lambda>z fs. map_option (\<lambda>gs. gs @ fs) z),
      zap_Log = (\<lambda>z _ _ _. case z of None \<Rightarrow> ret () | Some _ \<Rightarrow> modify (\<lambda>e. e\<lparr>tick := Suc (tick e)\<rparr>)),
      zap_Sync = (\<lambda>_. ret None)\<rparr>"

definition example_lib :: "(Field list option, int) HttpLib" where
  "example_lib = \<lparr>GetReqID = (\<lambda>_. ''7''), ww_Status = (\<lambda>w. w), ww_BytesWritten = (\<lambda>_. 0)\<rparr>"

theorem handlers_log_nothing_witness:
  "\<exists>ctx'. (\<forall>msg fs. logger_Error example_zap (FromContext example_zap ctx') msg fs = ret ()) \<and>
    (\<forall>lg. \<exists>fields. \<forall>next_handler. RequestLoggerMiddleware example_zap example_lib lg next_handler
         (WithValue Background (OtherKey ''request_id'') (OtherVal ''7''))
         \<lparr>rq_Method = ''POST'', rq_Path = ''/api/v1/publish''\<rparr> = do {
       start \<leftarrow> time_Now; w \<leftarrow> next_handler ctx' \<lparr>rq_Method = ''POST'', rq_Path = ''/api/v1/publish''\<rparr>;
       now \<leftarrow> time_Now;
       _ \<leftarrow> logger_Info example_zap lg ''request completed'' (fields start now w); ret w })"
  using handlers_log_nothing [of "WithValue Background (OtherKey ''request_id'') (OtherVal ''7'')"
      example_zap example_lib "\<lparr>rq_Method = ''POST'', rq_Path = ''/api/v1/publish''\<rparr>"]
  by (simp add: example_zap_def) fast

end
