(* ===== verification/Commands.thy ===== *)
theory Commands
  imports Logger
begin

text \<open>
  The \<open>main\<close> functions of \<open>cmd/api\<close> and \<open>cmd/worker\<close>, from their configuration to their exit status.
  The operating system is a parameter: \<open>os_Serve\<close> is the listening server until a signal arrives or
  \<open>ListenAndServe\<close> fails with an error other than \<open>ErrServerClosed\<close>, \<open>os_Wait\<close> the wait for a signal. The
  goroutine that serves logs its line before it listens; the order of that line with others is not
  fixed by the code.
\<close>

datatype stop = Signal string | ServeError go_error

record 's OS =
  os_Stderr :: "string \<Rightarrow> ('s, unit) state"
  os_Serve :: "HttpServer \<Rightarrow> ('s, stop) state"
  os_Shutdown :: "Duration \<Rightarrow> ('s, go_error option) state"
  os_Wait :: "('s, string) state"

definition api_main :: "('s, 'z) Zap \<Rightarrow> 's OS \<Rightarrow> getenv \<Rightarrow> ('s, int) state" where
  "api_main zap os getenv =
     (case api_start zap getenv of
        Inl msg \<Rightarrow> do { _ \<leftarrow> os_Stderr os (msg @ [CHR 0x0A]); ret 1 }
      | Inr (lg, srv) \<Rightarrow> do {
          _ \<leftarrow> logger_Info zap lg ''starting posthub api''
            (case Load getenv of
               Inr cfg \<Rightarrow> [(''port'', FInt (api_port (cf_api cfg))), (''environment'', FString (cf_environment cfg))]
             | Inl _ \<Rightarrow> []);
          _ \<leftarrow> logger_Info zap lg ''api server listening'' [(''addr'', FString (hs_addr srv))];
          stop \<leftarrow> os_Serve os srv;
          _ \<leftarrow> (case stop of
            Signal sig \<Rightarrow> logger_Info zap lg ''shutdown signal received'' [(''signal'', FString sig)]
          | ServeError err \<Rightarrow> logger_Error zap lg ''server error'' [(''error'', FString (Error err))]);
          e \<leftarrow> os_Shutdown os (10 * Second);
          case e of
            Some err \<Rightarrow> do {
              _ \<leftarrow> logger_Error zap lg ''shutdown error'' [(''error'', FString (Error err))];
              ret 1
            }
          | None \<Rightarrow> do {
              _ \<leftarrow> logger_Sync zap lg;
              _ \<leftarrow> logger_Info zap lg ''api server stopped'' [];
              ret 0
            }
        })"

definition worker_main :: "('s, 'z) Zap \<Rightarrow> 's OS \<Rightarrow> getenv \<Rightarrow> ('s, int) state" where
  "worker_main zap os getenv =
     (case worker_start zap getenv of
        Inl msg \<Rightarrow> do { _ \<leftarrow> os_Stderr os (msg @ [CHR 0x0A]); ret 1 }
      | Inr lg \<Rightarrow> do {
          _ \<leftarrow> logger_Info zap lg ''starting posthub worker''
            (case Load getenv of
               Inr cfg \<Rightarrow> [(''concurrency'', FInt (qu_concurrency (cf_queue cfg))),
                 (''environment'', FString (cf_environment cfg))]
             | Inl _ \<Rightarrow> []);
          _ \<leftarrow> logger_Info zap lg ''worker stub: waiting for shutdown signal (queue not yet implemented)'' [];
          sig \<leftarrow> os_Wait os;
          _ \<leftarrow> logger_Info zap lg ''shutdown signal received'' [(''signal'', FString sig)];
          _ \<leftarrow> logger_Sync zap lg;
          _ \<leftarrow> logger_Info zap lg ''posthub worker stopped'' [];
          ret 0
        })"

section \<open>Exit status\<close>

text \<open>
  The status of the API process is 1 exactly if its configuration is refused or the shutdown fails. A
  server that could not listen, say on a port in use, ends the process with status 0.
\<close>

lemma api_exit_status:
  "case api_start zap getenv of
     Inl msg \<Rightarrow> res (api_main zap os getenv) s = 1
   | Inr (lg, srv) \<Rightarrow>
       (\<forall>t. res (os_Shutdown os (10 * Second)) t = None) \<longrightarrow> res (api_main zap os getenv) s = 0"
  by (auto simp: api_main_def split_def split: sum.split option.split)

lemma worker_exit_status:
  "res (worker_main zap os getenv) s = (case worker_start zap getenv of Inl _ \<Rightarrow> 1 | Inr _ \<Rightarrow> 0)"
  by (simp add: worker_main_def split_def split: sum.split)

end
