(* ===== verification/Spec2Isabelle.thy ===== *)
theory Spec2Isabelle
  imports ServiceConcurrency ServiceRuns QueueConcurrency ApiQueue ServerProofs Commands
begin

text \<open>
  Verification of PostHub, a content publishing service written in Go. The development models the
  code under \<open>src/internal\<close> as HOL functions and proves what its parts promise and what they do
  not.

  \<^bold>\<open>The program.\<close> A user stores content, and asks the publish service to post it to a list of
  platforms. \<open>internal/contracts\<close> defines the shared data: content and publish tasks with their
  status machines, the retry policy, idempotency keys, errors. \<open>internal/storage\<close> defines store
  interfaces and an in-memory implementation; \<open>internal/publish\<close> has a second family of in-memory
  stores, which validate status transitions, and the service that runs a publish: it moves the
  content to \<open>publishing\<close>, runs one task per platform with retries, and aggregates the outcome.
  \<open>internal/platform\<close> defines the adapter interface, the registry and a mock adapter;
  \<open>internal/transform\<close> the document representation adapters receive. \<open>internal/queue\<close> is a second way
  to run a publish, one queued task per platform, with an idempotency guard. \<open>internal/api\<close> and
  \<open>internal/web\<close> accept publishes over HTTP; \<open>cmd/api\<close> wires them over the stores of \<open>storage\<close> and an
  enqueuer that does nothing. Processes take their settings from the environment (\<open>internal/config\<close>)
  and log through \<open>internal/logger\<close>.

  \<^bold>\<open>Theories, in the order of their imports.\<close>

    \<^item> \<open>Prelude\<close>: operations with effects (the state monad, \<open>triple\<close>, \<open>keeps\<close>), the run-time
      environment \<open>env\<close> (clock, random bytes and floats, map iteration order, \<open>math.Pow\<close>, out-of-range
      float conversion, each read from a stream), Go maps as association lists.
    \<^item> \<open>GoFmt\<close>, \<open>GoFloat\<close>: the \<open>fmt\<close> verbs and the \<open>float64\<close> arithmetic the code uses.
    \<^item> \<open>ContractsErrors\<close> (\<open>errors.go\<close> of \<open>contracts\<close> and \<open>storage\<close>), \<open>ContractsState\<close> (\<open>content.go\<close>,
      \<open>state.go\<close>), \<open>ContractsPolicy\<close> (\<open>policy.go\<close>, \<open>publish.go\<close>).
    \<^item> \<open>StorageTypes\<close> (\<open>types.go\<close>, \<open>stores.go\<close>, \<open>idempotency.go\<close>, \<open>tx.go\<close>): a Go interface is a record of
      its methods over the program's state.
    \<^item> \<open>StorageMemory\<close> (\<open>storage/memory.go\<close>) and \<open>PublishStorage\<close> (\<open>publish/storage.go\<close>): the two
      families of stores, one state record each, one function per method.
    \<^item> \<open>StoreContracts\<close>: the laws of the store interfaces as locales; \<open>StorageContracts\<close> and
      \<open>PublishContracts\<close> interpret them on the two families, define the step relations of both and
      prove their invariants.
    \<^item> \<open>TransformIR\<close> (\<open>transform/ir.go\<close>), \<open>Platform\<close> (\<open>platform.go\<close>, \<open>registry.go\<close>), \<open>MockPlatform\<close>
      (\<open>mock/mock.go\<close>).
    \<^item> \<open>PublishService\<close> (\<open>publish/service.go\<close>) and \<open>ServiceProofs\<close>, its guarantees; \<open>ServiceCalls\<close> bounds the
      adapter calls of a publish, over any stores and adapters (the locale \<open>call_counter\<close>).
    \<^item> \<open>Processes\<close>: goroutines. A process is a program cut at its calls, a schedule interleaves several;
      \<open>budget\<close> and \<open>owns\<close> are the arguments for what holds under every schedule (calls paid by locks
      taken; locks given back). \<open>ServiceProcesses\<close> has the functions of \<open>publish/service.go\<close> as processes,
      equal to those of \<open>PublishService\<close> when nothing interferes; \<open>ServiceConcurrency\<close> bounds the posts of
      concurrent publishes, \<open>ServiceExclusion\<close> shows the status \<open>publishing\<close> to be a lock that is returned,
      \<open>ServiceRuns\<close> that concurrent publishes are runs of the stores' methods.
    \<^item> \<open>GoStrings\<close> (\<open>strings\<close>), \<open>GoJson\<close> (\<open>encoding/json\<close> on document trees), \<open>GoUtf8\<close> and \<open>GoJsonText\<close> (the
      texts of documents: UTF-8, string literals, the grammar; what is written is read back),
      \<open>GoStrconv\<close> (\<open>Atoi\<close>, \<open>ParseBool\<close>, \<open>ParseDuration\<close>).
    \<^item> \<open>Queue\<close> (\<open>internal/queue\<close>: payload, metrics, guards, task handler, options) and \<open>QueueProofs\<close>: the
      guard interface and its in-memory provider, what a delivery and a redelivery of a task do;
      \<open>QueueWorker\<close> (\<open>enqueuer.go\<close>, \<open>worker.go\<close>): from the enqueued publish to the handler, and the
      dead-letter inspector; \<open>ApiQueue\<close>: the API's handler over that enqueuer. \<open>QueueConcurrency\<close>: the
      handler as a process, and the guard under concurrent deliveries.
    \<^item> \<open>Config\<close> (\<open>config.go\<close>): what loads and what is refused; \<open>Logger\<close> (\<open>logger.go\<close>, \<open>api/middleware.go\<close>, the
      start of both \<open>main\<close> functions): where entries go; \<open>Commands\<close>: the \<open>main\<close> functions, to their exit
      status.
    \<^item> \<open>Api\<close> (\<open>api/handlers.go\<close>, from the bytes of a request body),
      \<open>Web\<close> (\<open>web/handler.go\<close>), \<open>Server\<close> (\<open>cmd/api/main.go\<close>: routes and wiring); \<open>ApiProofs\<close> (validation,
      decoding, the tasks of a publish) and \<open>ServerProofs\<close>: the runs of the server as interleavings of
      its handlers' store calls, their invariant, and what publish and status requests answer.

  \<^bold>\<open>Conventions.\<close> Every method of a store runs under a mutex, so it is one atomic function of the
  state, and a run of concurrent clients is a sequence of such steps (of the server's handlers in
  \<open>ServerProofs\<close>, of processes in the theories on concurrency). A call of an adapter, a publisher or the
  clock is one step as well; two calls are never one, however close they stand in the code. A result with an error is a
  sum; errors the code drops are dropped in the model. Identifiers are random: properties that need
  new identifiers to be new say so with \<open>fresh_until\<close>, which the example environment meets for 256
  readings. Log calls are effects in \<open>Logger\<close> only. \<open>int\<close> is unbounded except where the width matters
  (the conversion of delays to \<open>int64\<close>).

  \<^bold>\<open>Termination.\<close> All functions are total. The retry loop of the service terminates by the number of
  attempts left, string literals and durations by the length of the text. Only the JSON grammar
  recurses on fuel, twice the length of the text and one; \<open>parse_fuel\<close> shows that more fuel changes no
  answer, whatever the text.

  \<^bold>\<open>Not modelled.\<close> Asynq, Redis, zap, the router's library and the operating system are parameters. The
  texts of the errors of \<open>encoding/json\<close>, the bytes of response bodies, the templates of the pages;
  \<open>PublishResultToJSON\<close>, \<open>Versioned\<close>, \<open>Logger.Zap\<close> and the types of \<open>publish/publish.go\<close>, which nothing uses.
  In the publish and queue models log calls are left out: their loggers change no modelled state.
\<close>

end
